theory Spec2Isabelle
  imports Complex_Main "HOL-Library.AList" "HOL-Library.Char_ord" "HOL-Library.List_Lexorder"
begin

section \<open>Data model\<close>

text \<open>
  The notebooks work on pandas data frames. A frame is an ordered list of named columns;
  a column is numeric (dtype int64/float64, \<open>NaN\<close> is \<open>None\<close>), object (strings,
  \<open>NaN\<close> is \<open>None\<close>) or datetime64 (\<open>NaT\<close> is \<open>None\<close>). Numbers are exact rationals.
  A timestamp is pandas' own representation: nanoseconds since 1970-01-01T00:00.
  Assigning \<open>df[k] = c\<close> replaces column \<open>k\<close> in place, or appends it when it is new:
  this is \<open>AList.update\<close>.
\<close>

type_synonym timestamp = int

datatype column =
    NumCol "rat option list"
  | ObjCol "string option list"
  | DateCol "timestamp option list"

type_synonym table = "(string \<times> column) list"

datatype error =
    FileNotFoundError
  | KeyError string
  | LookupError
  | AttributeError
  | TypeError
  | ValueError
  | IndexError
  | SyntaxError

text \<open>
  The conversions that pandas and Python perform on single values are not code of the
  repository; they are parameters of the model.
\<close>

record pandas =
  str_to_numeric :: "string \<Rightarrow> rat option"
  str_to_datetime :: "string \<Rightarrow> timestamp option"
  num_to_datetime :: "rat \<Rightarrow> timestamp option"
  num_to_str :: "rat \<Rightarrow> string"
  ts_to_str :: "timestamp \<Rightarrow> string"

definition bind_err :: "error + 'a \<Rightarrow> ('a \<Rightarrow> error + 'b) \<Rightarrow> error + 'b" where
  "bind_err r f = (case r of Inl e \<Rightarrow> Inl e | Inr x \<Rightarrow> f x)"

definition has_col :: "table \<Rightarrow> string \<Rightarrow> bool" where
  "has_col t k = (map_of t k \<noteq> None)"

definition getcol :: "table \<Rightarrow> string \<Rightarrow> error + column" where
  "getcol t k = (case map_of t k of None \<Rightarrow> Inl (KeyError k) | Some c \<Rightarrow> Inr c)"

definition setcol :: "table \<Rightarrow> string \<Rightarrow> column \<Rightarrow> table" where
  "setcol t k c = AList.update k c t"

fun col_len :: "column \<Rightarrow> nat" where
  "col_len (NumCol xs) = length xs"
| "col_len (ObjCol xs) = length xs"
| "col_len (DateCol xs) = length xs"

definition non_null :: "'a option list \<Rightarrow> 'a list" where
  "non_null xs = map the (filter (\<lambda>x. x \<noteq> None) xs)"

definition fillna :: "'a option \<Rightarrow> 'a option list \<Rightarrow> 'a option list" where
  "fillna m xs = map (\<lambda>x. case x of None \<Rightarrow> m | Some v \<Rightarrow> Some v) xs"

text \<open>\<open>Series.median()\<close>: the middle of the sorted non-missing values, the mean of the two
  middle ones when their number is even, \<open>NaN\<close> when there is none.\<close>

definition median :: "rat list \<Rightarrow> rat option" where
  "median vs =
     (let s = sort vs; n = length s
      in if n = 0 then None
         else if odd n then Some (s ! (n div 2))
         else Some ((s ! (n div 2 - 1) + s ! (n div 2)) / 2))"

text \<open>\<open>Series.mode()[0]\<close>: the values that occur most often, sorted; the first of them.
  On a column with no value at all \<open>mode()\<close> is empty and \<open>[0]\<close> raises.\<close>

definition mode_str :: "string list \<Rightarrow> string option" where
  "mode_str vs =
     (let best = fold max (map (count_list vs) vs) 0
      in case sort (filter (\<lambda>v. count_list vs v = best) vs) of
           [] \<Rightarrow> None
         | v # _ \<Rightarrow> Some v)"

text \<open>Boolean mask indexing \<open>df[mask]\<close>.\<close>

definition keep :: "bool list \<Rightarrow> 'a list \<Rightarrow> 'a list" where
  "keep msk xs = map snd (filter fst (zip msk xs))"

fun filter_col :: "bool list \<Rightarrow> column \<Rightarrow> column" where
  "filter_col msk (NumCol xs) = NumCol (keep msk xs)"
| "filter_col msk (ObjCol xs) = ObjCol (keep msk xs)"
| "filter_col msk (DateCol xs) = DateCol (keep msk xs)"

definition filter_rows :: "bool list \<Rightarrow> table \<Rightarrow> table" where
  "filter_rows msk t = map (\<lambda>(k, c). (k, filter_col msk c)) t"

text \<open>\<open>(boolean series).astype(int)\<close>.\<close>

definition astype_int :: "bool list \<Rightarrow> column" where
  "astype_int bs = NumCol (map (\<lambda>b. Some (if b then 1 else 0)) bs)"

text \<open>\<open>series == s\<close> for a string \<open>s\<close>: false on a missing value and on a value that is
  not a string.\<close>

fun eq_str :: "column \<Rightarrow> string \<Rightarrow> bool list" where
  "eq_str (ObjCol xs) s = map (\<lambda>x. x = Some s) xs"
| "eq_str (NumCol xs) s = map (\<lambda>x. False) xs"
| "eq_str (DateCol xs) s = map (\<lambda>x. False) xs"

text \<open>\<open>series.isin(values)\<close> for a list of strings.\<close>

fun isin :: "column \<Rightarrow> string list \<Rightarrow> bool list" where
  "isin (ObjCol xs) vs = map (\<lambda>x. case x of None \<Rightarrow> False | Some s \<Rightarrow> s \<in> set vs) xs"
| "isin (NumCol xs) vs = map (\<lambda>x. False) xs"
| "isin (DateCol xs) vs = map (\<lambda>x. False) xs"

text \<open>Substring test of \<open>str.contains\<close>; the patterns of the notebook hold no regular
  expression operator.\<close>

fun contains_str :: "string \<Rightarrow> string \<Rightarrow> bool" where
  "contains_str sub [] = (sub = [])"
| "contains_str sub (c # cs) = (take (length sub) (c # cs) = sub \<or> contains_str sub cs)"

text \<open>\<open>series.str.contains(sub, na=False)\<close>: the \<open>.str\<close> accessor exists on object
  columns only.\<close>

fun str_contains :: "column \<Rightarrow> string \<Rightarrow> error + bool list" where
  "str_contains (ObjCol xs) sub =
     Inr (map (\<lambda>x. case x of None \<Rightarrow> False | Some s \<Rightarrow> contains_str sub s) xs)"
| "str_contains (NumCol xs) sub = Inl AttributeError"
| "str_contains (DateCol xs) sub = Inl AttributeError"

definition startswith :: "string \<Rightarrow> string \<Rightarrow> bool" where
  "startswith s p = (take (length p) s = p)"

subsection \<open>Calendar fields of a timestamp\<close>

definition ns_per_day :: int where
  "ns_per_day = 86400000000000"

text \<open>Year and month of the day number \<open>z\<close> (days since 1970-01-01) in the proleptic
  Gregorian calendar.\<close>

definition civil_year_month :: "int \<Rightarrow> int \<times> int" where
  "civil_year_month z0 =
     (let z = z0 + 719468;
          era = z div 146097;
          doe = z - era * 146097;
          yoe = (doe - doe div 1460 + doe div 36524 - doe div 146096) div 365;
          doy = doe - (365 * yoe + yoe div 4 - yoe div 100);
          mp = (5 * doy + 2) div 153;
          m = (if mp < 10 then mp + 3 else mp - 9)
      in (yoe + era * 400 + (if m \<le> 2 then 1 else 0), m))"

definition dt_year :: "timestamp \<Rightarrow> rat" where
  "dt_year ts = of_int (fst (civil_year_month (ts div ns_per_day)))"

definition dt_month :: "timestamp \<Rightarrow> rat" where
  "dt_month ts = of_int (snd (civil_year_month (ts div ns_per_day)))"

definition dt_quarter :: "timestamp \<Rightarrow> rat" where
  "dt_quarter ts = of_int ((snd (civil_year_month (ts div ns_per_day)) - 1) div 3 + 1)"

text \<open>\<open>(a - b).dt.days\<close>: whole days of the difference, rounded down.\<close>

definition td_days :: "timestamp option \<Rightarrow> timestamp option \<Rightarrow> rat option" where
  "td_days a b =
     (case (a, b) of
        (Some x, Some y) \<Rightarrow> Some (of_int ((x - y) div ns_per_day))
      | _ \<Rightarrow> None)"

section \<open>Feature engineering notebook\<close>

subsection \<open>Loading the latest processed file\<close>

text \<open>A directory entry: its name, its modification time and the frame that
  \<open>pd.read_csv\<close> reads from it.\<close>

record csv_file =
  file_name :: string
  st_mtime :: rat
  content :: table

definition endswith :: "string \<Rightarrow> string \<Rightarrow> bool" where
  "endswith s p = (length p \<le> length s \<and> drop (length s - length p) s = p)"

text \<open>The pattern \<open>processed_oncology_trials_*.csv\<close>.\<close>

definition glob_match :: "string \<Rightarrow> bool" where
  "glob_match n =
     (startswith n ''processed_oncology_trials_'' \<and> endswith n ''.csv''
      \<and> length ''processed_oncology_trials_'' + length ''.csv'' \<le> length n)"

text \<open>\<open>csv_files.sort(key=mtime, reverse=True)\<close> is stable; \<open>csv_files[0]\<close> is the first
  file of the listing with the greatest modification time.\<close>

definition load_data :: "csv_file list \<Rightarrow> error + table" where
  "load_data dir =
     (let csv_files = filter (\<lambda>f. glob_match (file_name f)) dir
      in if csv_files = [] then Inl FileNotFoundError
         else case sort_key (\<lambda>f. - st_mtime f) csv_files of
                [] \<Rightarrow> Inl IndexError
              | latest # _ \<Rightarrow> Inr (content latest))"

subsection \<open>Missing values\<close>

text \<open>\<open>pd.to_numeric(series, errors='coerce')\<close>; a datetime column is read as its
  integer nanoseconds, \<open>NaT\<close> being the least 64-bit integer.\<close>

fun to_numeric :: "pandas \<Rightarrow> column \<Rightarrow> column" where
  "to_numeric env (ObjCol xs) =
     NumCol (map (\<lambda>x. case x of None \<Rightarrow> None | Some s \<Rightarrow> str_to_numeric env s) xs)"
| "to_numeric env (NumCol xs) = NumCol xs"
| "to_numeric env (DateCol xs) =
     NumCol (map (\<lambda>x. case x of None \<Rightarrow> Some (- (2 ^ 63)) | Some ts \<Rightarrow> Some (of_int ts)) xs)"

definition coerce_enrollment :: "pandas \<Rightarrow> table \<Rightarrow> error + table" where
  "coerce_enrollment env t =
     bind_err (getcol t ''EnrollmentCount'')
       (\<lambda>c. Inr (setcol t ''EnrollmentCount'' (to_numeric env c)))"

fun impute_num_col :: "column \<Rightarrow> column" where
  "impute_num_col (NumCol xs) =
     (if None \<in> set xs then NumCol (fillna (median (non_null xs)) xs) else NumCol xs)"
| "impute_num_col (ObjCol xs) = ObjCol xs"
| "impute_num_col (DateCol xs) = DateCol xs"

definition impute_numeric :: "table \<Rightarrow> table" where
  "impute_numeric t = map (\<lambda>(k, c). (k, impute_num_col c)) t"

fun impute_obj_col :: "column \<Rightarrow> error + column" where
  "impute_obj_col (ObjCol xs) =
     (if None \<in> set xs
      then (case mode_str (non_null xs) of
              None \<Rightarrow> Inl LookupError
            | Some mode_value \<Rightarrow> Inr (ObjCol (fillna (Some mode_value) xs)))
      else Inr (ObjCol xs))"
| "impute_obj_col (NumCol xs) = Inr (NumCol xs)"
| "impute_obj_col (DateCol xs) = Inr (DateCol xs)"

fun impute_categorical :: "table \<Rightarrow> error + table" where
  "impute_categorical [] = Inr []"
| "impute_categorical ((k, c) # t) =
     bind_err (impute_obj_col c)
       (\<lambda>c'. bind_err (impute_categorical t) (\<lambda>t'. Inr ((k, c') # t')))"

definition handle_missing :: "pandas \<Rightarrow> table \<Rightarrow> error + table" where
  "handle_missing env t =
     bind_err (coerce_enrollment env t) (\<lambda>t1. impute_categorical (impute_numeric t1))"

subsection \<open>Temporal features\<close>

text \<open>\<open>pd.to_datetime(series, errors='coerce')\<close>.\<close>

fun to_datetime :: "pandas \<Rightarrow> column \<Rightarrow> column" where
  "to_datetime env (ObjCol xs) =
     DateCol (map (\<lambda>x. case x of None \<Rightarrow> None | Some s \<Rightarrow> str_to_datetime env s) xs)"
| "to_datetime env (NumCol xs) =
     DateCol (map (\<lambda>x. case x of None \<Rightarrow> None | Some v \<Rightarrow> num_to_datetime env v) xs)"
| "to_datetime env (DateCol xs) = DateCol xs"

definition date_columns :: "string list" where
  "date_columns = [''StartDate'', ''CompletionDate'', ''PrimaryCompletionDate'']"

definition convert_dates :: "pandas \<Rightarrow> table \<Rightarrow> table" where
  "convert_dates env t =
     fold (\<lambda>col t'. case map_of t' col of
                      None \<Rightarrow> t'
                    | Some c \<Rightarrow> setcol t' col (to_datetime env c))
       date_columns t"

text \<open>The \<open>.dt\<close> accessor exists on datetime columns only; a field of \<open>NaT\<close> is \<open>NaN\<close>.\<close>

fun dt_field :: "(timestamp \<Rightarrow> rat) \<Rightarrow> column \<Rightarrow> error + column" where
  "dt_field f (DateCol xs) = Inr (NumCol (map (map_option f) xs))"
| "dt_field f (NumCol xs) = Inl AttributeError"
| "dt_field f (ObjCol xs) = Inl AttributeError"

definition start_features :: "table \<Rightarrow> error + table" where
  "start_features t =
     (case map_of t ''StartDate'' of
        None \<Rightarrow> Inr t
      | Some c \<Rightarrow>
          bind_err (dt_field dt_year c) (\<lambda>y.
          bind_err (dt_field dt_month c) (\<lambda>m.
          bind_err (dt_field dt_quarter c) (\<lambda>q.
            Inr (setcol (setcol (setcol t ''start_year'' y) ''start_month'' m)
                   ''start_quarter'' q)))))"

fun date_diff_days :: "column \<Rightarrow> column \<Rightarrow> error + rat option list" where
  "date_diff_days (DateCol xs) (DateCol ys) = Inr (map (\<lambda>(x, y). td_days x y) (zip xs ys))"
| "date_diff_days _ _ = Inl TypeError"

text \<open>\<open>df.loc[df[d] < 0, d] = np.nan\<close>.\<close>

definition mask_negative :: "rat option list \<Rightarrow> rat option list" where
  "mask_negative ds =
     map (\<lambda>d. case d of None \<Rightarrow> None | Some v \<Rightarrow> if v < 0 then None else Some v) ds"

definition trial_duration :: "table \<Rightarrow> error + table" where
  "trial_duration t =
     (if \<not> has_col t ''trial_duration_days'' \<and> has_col t ''CompletionDate''
      then bind_err (getcol t ''CompletionDate'') (\<lambda>c.
           bind_err (getcol t ''StartDate'') (\<lambda>s.
           bind_err (date_diff_days c s) (\<lambda>raw.
             let ds = mask_negative raw;
                 median_duration = median (non_null ds)
             in Inr (setcol t ''trial_duration_days'' (NumCol (fillna median_duration ds))))))
      else Inr t)"

text \<open>\<open>df[cols].describe()\<close> raises on a selection of no column.\<close>

definition describe :: "string list \<Rightarrow> error + unit" where
  "describe cols = (if cols = [] then Inl ValueError else Inr ())"

definition temporal_features :: "pandas \<Rightarrow> table \<Rightarrow> error + table" where
  "temporal_features env t =
     bind_err (start_features (convert_dates env t)) (\<lambda>t1.
     bind_err (trial_duration t1) (\<lambda>t2.
     bind_err (describe (filter (\<lambda>col. startswith col ''start_'' \<or> col = ''trial_duration_days'')
                           (map fst t2)))
       (\<lambda>_. Inr t2)))"

subsection \<open>Binary indicators\<close>

definition sponsor_flag :: "table \<Rightarrow> table" where
  "sponsor_flag t =
     (case map_of t ''LeadSponsorClass'' of
        None \<Rightarrow> t
      | Some c \<Rightarrow> setcol t ''is_industry_sponsored'' (astype_int (eq_str c ''INDUSTRY'')))"

fun set_flags :: "table \<Rightarrow> column \<Rightarrow> (string \<times> string) list \<Rightarrow> error + table" where
  "set_flags t c [] = Inr t"
| "set_flags t c ((k, pat) # ps) =
     bind_err (str_contains c pat) (\<lambda>bs. set_flags (setcol t k (astype_int bs)) c ps)"

definition contains_flags :: "table \<Rightarrow> string \<Rightarrow> (string \<times> string) list \<Rightarrow> error + table" where
  "contains_flags t src flags =
     (case map_of t src of None \<Rightarrow> Inr t | Some c \<Rightarrow> set_flags t c flags)"

definition phase_flags :: "(string \<times> string) list" where
  "phase_flags =
     [(''is_phase_1'', ''Phase 1''), (''is_phase_2'', ''Phase 2''),
      (''is_phase_3'', ''Phase 3''), (''is_phase_4'', ''Phase 4'')]"

definition design_flags :: "(string \<times> string) list" where
  "design_flags =
     [(''is_randomized'', ''Randomized''), (''is_double_blind'', ''Double Blind''),
      (''is_single_blind'', ''Single Blind''), (''is_open_label'', ''Open Label'')]"

definition country_flags :: "(string \<times> string) list" where
  "country_flags = [(''is_multi_country'', '',''), (''has_us_sites'', ''United States'')]"

definition categorical_features :: "table \<Rightarrow> error + table" where
  "categorical_features t =
     bind_err (contains_flags (sponsor_flag t) ''Phase'' phase_flags) (\<lambda>t2.
     bind_err (contains_flags t2 ''StudyDesign'' design_flags) (\<lambda>t3.
     bind_err (contains_flags t3 ''LocationCountry'' country_flags) (\<lambda>t4.
     bind_err (describe (filter (\<lambda>col. startswith col ''is_'' \<or> startswith col ''has_'')
                           (map fst t4)))
       (\<lambda>_. Inr t4))))"

subsection \<open>Text lengths\<close>

text \<open>\<open>series.fillna('').astype(str)\<close>.\<close>

fun astype_str :: "pandas \<Rightarrow> column \<Rightarrow> string list" where
  "astype_str env (ObjCol xs) = map (\<lambda>x. case x of None \<Rightarrow> [] | Some s \<Rightarrow> s) xs"
| "astype_str env (NumCol xs) = map (\<lambda>x. case x of None \<Rightarrow> [] | Some v \<Rightarrow> num_to_str env v) xs"
| "astype_str env (DateCol xs) = map (\<lambda>x. case x of None \<Rightarrow> [] | Some ts \<Rightarrow> ts_to_str env ts) xs"

definition text_length :: "pandas \<Rightarrow> column \<Rightarrow> column" where
  "text_length env c = NumCol (map (\<lambda>s. Some (of_nat (length s))) (astype_str env c))"

definition text_columns :: "string list" where
  "text_columns = [''BriefTitle'', ''BriefSummary'', ''DetailedDescription'']"

text \<open>\<open>df[col].iloc[0]\<close>, printed for the first available text column.\<close>

fun first_values :: "table \<Rightarrow> string list \<Rightarrow> error + unit" where
  "first_values t [] = Inr ()"
| "first_values t (col # cols) =
     bind_err (getcol t col)
       (\<lambda>c. if col_len c = 0 then Inl IndexError else first_values t cols)"

fun add_lengths :: "pandas \<Rightarrow> table \<Rightarrow> string list \<Rightarrow> error + table" where
  "add_lengths env t [] = Inr t"
| "add_lengths env t (col # cols) =
     bind_err (getcol t col)
       (\<lambda>c. add_lengths env (setcol t (col @ ''_length'') (text_length env c)) cols)"

definition text_features :: "pandas \<Rightarrow> table \<Rightarrow> error + table" where
  "text_features env t =
     (let available_text_columns = filter (has_col t) text_columns
      in if available_text_columns \<noteq> []
         then bind_err (first_values t (take 1 available_text_columns))
                (\<lambda>_. add_lengths env t available_text_columns)
         else Inr t)"

subsection \<open>Target and modeling frame\<close>

definition completed_statuses :: "string list" where
  "completed_statuses = [''Completed'', ''Terminated'', ''Suspended'', ''Withdrawn'']"

text \<open>Returns \<open>(df_clean, df_modeling)\<close>.\<close>

definition target_variable :: "table \<Rightarrow> error + table \<times> table" where
  "target_variable t =
     (if \<not> has_col t ''completion_status'' \<and> has_col t ''OverallStatus''
      then bind_err (getcol t ''OverallStatus'') (\<lambda>s.
             let df_clean = setcol t ''completion_status'' (astype_int (eq_str s ''Completed''))
             in Inr (df_clean, filter_rows (isin s completed_statuses) df_clean))
      else Inr (t, t))"

definition feature_engineering :: "pandas \<Rightarrow> table \<Rightarrow> error + table \<times> table" where
  "feature_engineering env df =
     bind_err (handle_missing env df) (\<lambda>a.
     bind_err (temporal_features env a) (\<lambda>b.
     bind_err (categorical_features b) (\<lambda>c.
     bind_err (text_features env c) target_variable)))"

definition feature_engineering_stage :: "pandas \<Rightarrow> csv_file list \<Rightarrow> error + table \<times> table" where
  "feature_engineering_stage env dir = bind_err (load_data dir) (feature_engineering env)"

section \<open>Model training notebook\<close>

subsection \<open>Stored cells\<close>

text \<open>
  A code cell is stored in the notebook file as a list of JSON strings; their concatenation,
  cut at the newline characters, is the list of the physical lines of the cell. Python
  compiles a cell as a whole before it runs any statement of it. A string literal in single
  or in double quotes cannot run over the end of a physical line: a cell with a line that
  ends inside such a literal raises \<open>SyntaxError\<close> and none of its statements runs.

  \<open>ends_outside_literal\<close> scans one physical line. Its state is the quote character of
  the literal being read, if any. Inside a literal a backslash escapes the next character;
  outside, a \<open>#\<close> starts a comment that runs to the end of the line. (The cells below
  have no triple-quoted literal and no backslash.)
\<close>

fun ends_outside_literal :: "char option \<Rightarrow> string \<Rightarrow> bool" where
  "ends_outside_literal None [] = True"
| "ends_outside_literal (Some q) [] = False"
| "ends_outside_literal None (c # cs) =
     (if c = CHR ''#'' then True
      else if c = CHR 0x22 \<or> c = CHR 0x27 then ends_outside_literal (Some c) cs
      else ends_outside_literal None cs)"
| "ends_outside_literal (Some q) (c # cs) =
     (if c = CHR 0x5C then ends_outside_literal (Some q) (drop 1 cs)
      else if c = q then ends_outside_literal None cs
      else ends_outside_literal (Some q) cs)"

definition compiles :: "string list \<Rightarrow> bool" where
  "compiles source = list_all (ends_outside_literal None) source"

text \<open>Running a stored cell: \<open>body\<close> is what its statements compute.\<close>

definition run_cell :: "string list \<Rightarrow> error + 'a \<Rightarrow> error + 'a" where
  "run_cell source body = (if compiles source then body else Inl SyntaxError)"

text \<open>The cell that prepares the features and the targets. In the JSON string of its last
  \<open>print\<close> but one the newline escape stands inside the literal, so the stored literal
  holds a newline character and the statement is spread over two physical lines.\<close>

definition features_targets_source :: "string list" where
  "features_targets_source =
     [''# Define target variables'',
      ''classification_target = 'is_completed'  # Binary: 1 for completed, 0 for terminated'',
      ''regression_target = 'duration_days'     # Continuous: trial duration in days'',
      '''',
      ''# Filter data to include only completed or terminated trials for classification'',
      ''df_classification = df_modeling[df_modeling['overall_status'].isin(['Completed', 'Terminated'])]'',
      '''',
      ''# Create binary target for classification (1 for completed, 0 for terminated)'',
      ''df_classification[classification_target] = (df_classification['overall_status'] == 'Completed').astype(int)'',
      '''',
      ''# Filter data to include only completed trials for regression (duration prediction)'',
      ''df_regression = df_modeling[df_modeling['overall_status'] == 'Completed']'',
      '''',
      ''# Identify feature columns (exclude target variables and metadata)'',
      ''exclude_cols = ['nct_id', 'overall_status', classification_target, regression_target]'',
      ''feature_cols = [col for col in df_modeling.columns if col not in exclude_cols]'',
      '''',
      ''print(f\"Classification dataset: {df_classification.shape[0]} rows, {len(feature_cols)} features\")'',
      ''print(f\"Regression dataset: {df_regression.shape[0]} rows, {len(feature_cols)} features\")'',
      '''',
      ''# Prepare feature matrices and target vectors'',
      ''X_classification = df_classification[feature_cols]'',
      ''y_classification = df_classification[classification_target]'',
      '''',
      ''X_regression = df_regression[feature_cols]'',
      ''y_regression = df_regression[regression_target]'',
      '''',
      ''# Check class balance for classification'',
      ''print(\"'',
      ''Class distribution for completion status:\")'',
      ''print(y_classification.value_counts(normalize=True).round(3) * 100)'']"

text \<open>The cells that train the classification and the regression models and choose the
  best of them.\<close>

definition classification_source :: "string list" where
  "classification_source =
     [''# Train classification models'',
      ''classification_results = train_classification_models(X_classification, y_classification)'',
      '''',
      ''# Display performance metrics'',
      ''classification_metrics = pd.DataFrame(classification_results['metrics'])'',
      ''classification_metrics = classification_metrics.sort_values('f1_score', ascending=False)'',
      '''',
      ''print(\"'',
      ''Classification Model Performance:\")'',
      ''display(classification_metrics)'',
      '''',
      ''# Identify best model'',
      ''best_classification_model_name = classification_metrics.index[0]'',
      ''best_classification_model = classification_results['models'][best_classification_model_name]'',
      '''',
      ''print(f\"'',
      ''Best classification model: {best_classification_model_name}\")'',
      '''',
      ''# Save the best model'',
      ''model_info = {'',
      ''    'model': best_classification_model,'',
      ''    'preprocessor': classification_results['preprocessor'],'',
      ''    'feature_names': feature_cols,'',
      ''    'metrics': classification_metrics.loc[best_classification_model_name].to_dict()'',
      ''}'',
      '''',
      ''save_model(model_info, 'classification')'']"

definition regression_source :: "string list" where
  "regression_source =
     [''# Train regression models'',
      ''regression_results = train_regression_models(X_regression, y_regression)'',
      '''',
      ''# Display performance metrics'',
      ''regression_metrics = pd.DataFrame(regression_results['metrics'])'',
      ''regression_metrics = regression_metrics.sort_values('r2_score', ascending=False)'',
      '''',
      ''print(\"'',
      ''Regression Model Performance:\")'',
      ''display(regression_metrics)'',
      '''',
      ''# Identify best model'',
      ''best_regression_model_name = regression_metrics.index[0]'',
      ''best_regression_model = regression_results['models'][best_regression_model_name]'',
      '''',
      ''print(f\"'',
      ''Best regression model: {best_regression_model_name}\")'',
      '''',
      ''# Save the best model'',
      ''model_info = {'',
      ''    'model': best_regression_model,'',
      ''    'preprocessor': regression_results['preprocessor'],'',
      ''    'feature_names': feature_cols,'',
      ''    'metrics': regression_metrics.loc[best_regression_model_name].to_dict()'',
      ''}'',
      '''',
      ''save_model(model_info, 'regression')'']"

subsection \<open>Features and targets\<close>

definition exclude_cols :: "string list" where
  "exclude_cols = [''nct_id'', ''overall_status'', ''is_completed'', ''duration_days'']"

text \<open>\<open>df[cols]\<close> for a list of column names.\<close>

fun select_cols :: "table \<Rightarrow> string list \<Rightarrow> error + table" where
  "select_cols t [] = Inr []"
| "select_cols t (k # ks) =
     bind_err (getcol t k) (\<lambda>c. bind_err (select_cols t ks) (\<lambda>r. Inr ((k, c) # r)))"

text \<open>The statements of the cell, which give
  \<open>(X_classification, y_classification, X_regression, y_regression)\<close>; the frame
  \<open>df_modeling\<close> is what \<open>load_modeling_data()\<close> returned.\<close>

definition features_targets :: "table \<Rightarrow> error + table \<times> column \<times> table \<times> column" where
  "features_targets df_modeling =
     bind_err (getcol df_modeling ''overall_status'') (\<lambda>s.
       let df_filtered = filter_rows (isin s [''Completed'', ''Terminated'']) df_modeling
       in bind_err (getcol df_filtered ''overall_status'') (\<lambda>sc.
            let df_classification =
                  setcol df_filtered ''is_completed'' (astype_int (eq_str sc ''Completed''));
                df_regression = filter_rows (eq_str s ''Completed'') df_modeling;
                feature_cols = filter (\<lambda>col. col \<notin> set exclude_cols) (map fst df_modeling)
            in bind_err (select_cols df_classification feature_cols) (\<lambda>X_classification.
               bind_err (getcol df_classification ''is_completed'') (\<lambda>y_classification.
               bind_err (select_cols df_regression feature_cols) (\<lambda>X_regression.
               bind_err (getcol df_regression ''duration_days'') (\<lambda>y_regression.
                 Inr (X_classification, y_classification, X_regression, y_regression)))))))"

text \<open>The cell as it is stored.\<close>

definition prepare_training :: "table \<Rightarrow> error + table \<times> column \<times> table \<times> column" where
  "prepare_training df_modeling = run_cell features_targets_source (features_targets df_modeling)"

subsection \<open>Choosing the best model\<close>

text \<open>
  The metrics frame \<open>pd.DataFrame(results['metrics'])\<close> has one row per candidate, labelled by
  the candidate's name in the order of enumeration, and one column per metric; it is the
  result of \<open>train_classification_models\<close> or \<open>train_regression_models\<close>, which are not
  code of the notebook.
  \<open>sort_values(key, ascending=False)\<close> orders the rows with pandas' \<open>nargsort\<close>: the
  non-missing keys and their positions are reversed, the keys are sorted with numpy's
  \<open>argsort\<close>, the positions are taken in that order and reversed again, and the rows with
  a missing key come last. No \<open>kind\<close> is passed, so the sort is numpy's default
  \<open>quicksort\<close>, which is not stable: \<open>argsort\<close> returns some permutation that puts the keys
  in ascending order, and which one it returns among equal keys is not fixed. The sort is
  therefore a parameter of the model, one function for each type of key.
\<close>

record numpy =
  argsort_num :: "rat list \<Rightarrow> nat list"
  argsort_str :: "string list \<Rightarrow> nat list"
  argsort_ts :: "timestamp list \<Rightarrow> nat list"

record frame =
  frame_index :: "string list"
  frame_columns :: table

definition nargsort_desc :: "('a list \<Rightarrow> nat list) \<Rightarrow> 'a option list \<Rightarrow> nat list" where
  "nargsort_desc argsort items =
     (let idx = enumerate 0 items;
          present = List.map_filter (\<lambda>(i, x). map_option (Pair i) x) idx;
          non_nans = rev (map snd present);
          non_nan_idx = rev (map fst present);
          nan_idx = map fst (filter (\<lambda>(i, x). x = None) idx);
          indexer = map (\<lambda>p. non_nan_idx ! p) (argsort non_nans)
      in rev indexer @ nan_idx)"

fun column_argsort_desc :: "numpy \<Rightarrow> column \<Rightarrow> nat list" where
  "column_argsort_desc np (NumCol xs) = nargsort_desc (argsort_num np) xs"
| "column_argsort_desc np (ObjCol xs) = nargsort_desc (argsort_str np) xs"
| "column_argsort_desc np (DateCol xs) = nargsort_desc (argsort_ts np) xs"

fun reorder_col :: "nat list \<Rightarrow> column \<Rightarrow> column" where
  "reorder_col indexer (NumCol xs) = NumCol (map (\<lambda>i. xs ! i) indexer)"
| "reorder_col indexer (ObjCol xs) = ObjCol (map (\<lambda>i. xs ! i) indexer)"
| "reorder_col indexer (DateCol xs) = DateCol (map (\<lambda>i. xs ! i) indexer)"

definition sort_values_desc :: "numpy \<Rightarrow> frame \<Rightarrow> string \<Rightarrow> error + frame" where
  "sort_values_desc np fr key =
     bind_err (getcol (frame_columns fr) key) (\<lambda>c.
       let indexer = column_argsort_desc np c
       in Inr \<lparr> frame_index = map (\<lambda>i. frame_index fr ! i) indexer,
                frame_columns = map (\<lambda>(k, col). (k, reorder_col indexer col)) (frame_columns fr) \<rparr>)"

text \<open>The two statements \<open>metrics = metrics.sort_values(key, ascending=False)\<close> and
  \<open>name = metrics.index[0]\<close>.\<close>

definition first_sorted :: "numpy \<Rightarrow> frame \<Rightarrow> string \<Rightarrow> error + string" where
  "first_sorted np metrics key =
     bind_err (sort_values_desc np metrics key) (\<lambda>sorted.
       case frame_index sorted of [] \<Rightarrow> Inl IndexError | name # _ \<Rightarrow> Inr name)"

text \<open>The name chosen by a stored cell with these two statements.\<close>

definition best_model_name :: "string list \<Rightarrow> numpy \<Rightarrow> frame \<Rightarrow> string \<Rightarrow> error + string" where
  "best_model_name source np metrics key = run_cell source (first_sorted np metrics key)"

definition best_classification_model_name :: "numpy \<Rightarrow> frame \<Rightarrow> error + string" where
  "best_classification_model_name np classification_metrics =
     best_model_name classification_source np classification_metrics ''f1_score''"

definition best_regression_model_name :: "numpy \<Rightarrow> frame \<Rightarrow> error + string" where
  "best_regression_model_name np regression_metrics =
     best_model_name regression_source np regression_metrics ''r2_score''"

section \<open>Notions used in the statements\<close>

text \<open>What the missing-value cell leaves in a column when it succeeds: the median fills a
  numeric column, the most frequent value an object column.\<close>

definition clean_col :: "column \<Rightarrow> column" where
  "clean_col c =
     (case c of
        NumCol xs \<Rightarrow> NumCol (fillna (median (non_null xs)) xs)
      | ObjCol xs \<Rightarrow> ObjCol (fillna (mode_str (non_null xs)) xs)
      | DateCol xs \<Rightarrow> DateCol xs)"

text \<open>The duration column computed from a completion and a start column.\<close>

definition duration_col :: "timestamp option list \<Rightarrow> timestamp option list \<Rightarrow> column" where
  "duration_col cs ss =
     (let ds = mask_negative (map (\<lambda>(x, y). td_days x y) (zip cs ss))
      in NumCol (fillna (median (non_null ds)) ds))"

text \<open>The columns that the feature cells may write.\<close>

definition derived_columns :: "string list" where
  "derived_columns =
     [''start_year'', ''start_month'', ''start_quarter'', ''trial_duration_days'',
      ''is_industry_sponsored'', ''is_phase_1'', ''is_phase_2'', ''is_phase_3'', ''is_phase_4'',
      ''is_randomized'', ''is_double_blind'', ''is_single_blind'', ''is_open_label'',
      ''is_multi_country'', ''has_us_sites'',
      ''BriefTitle_length'', ''BriefSummary_length'', ''DetailedDescription_length'',
      ''completion_status'']"

text \<open>The source column of each group of substring indicators, and of every indicator.\<close>

definition contains_sources :: "(string \<times> (string \<times> string) list) list" where
  "contains_sources =
     [(''Phase'', phase_flags), (''StudyDesign'', design_flags), (''LocationCountry'', country_flags)]"

definition indicator_sources :: "(string \<times> string) list" where
  "indicator_sources =
     (''LeadSponsorClass'', ''is_industry_sponsored'') #
     concat (map (\<lambda>(src, flags). map (\<lambda>(flag, pat). (src, flag)) flags) contains_sources)"

text \<open>The rows of a column at the positions of a set.\<close>

definition select_rows :: "nat set \<Rightarrow> column \<Rightarrow> column" where
  "select_rows A c =
     (case c of NumCol xs \<Rightarrow> NumCol (nths xs A) | ObjCol xs \<Rightarrow> ObjCol (nths xs A)
      | DateCol xs \<Rightarrow> DateCol (nths xs A))"

text \<open>The non-missing keys of a column with their positions, from position \<open>n\<close> on.\<close>

definition present_keys :: "nat \<Rightarrow> 'a option list \<Rightarrow> (nat \<times> 'a) list" where
  "present_keys n items = List.map_filter (\<lambda>(i, x). map_option (Pair i) x) (enumerate n items)"

text \<open>What numpy promises of \<open>argsort\<close> on the keys \<open>xs\<close>: the result is a permutation of
  the positions of \<open>xs\<close> that puts the keys in ascending order.\<close>

definition sorts_ascending :: "(('a::linorder) list \<Rightarrow> nat list) \<Rightarrow> 'a list \<Rightarrow> bool" where
  "sorts_ascending argsort xs =
     (sort (argsort xs) = [0..<length xs] \<and> sorted (map (\<lambda>p. xs ! p) (argsort xs)))"

text \<open>A numeric column in which the median of the non-missing values stands for every
  missing value.\<close>

definition median_filled :: "rat option list \<Rightarrow> rat option list" where
  "median_filled xs = map (\<lambda>x. case x of None \<Rightarrow> median (non_null xs) | Some v \<Rightarrow> Some v) xs"

text \<open>The columns that the feature cells write on the input \<open>df\<close>: each cell is guarded by
  the presence of its source column, and the duration and the target also by the absence of
  the column to write.\<close>

definition written_columns :: "table \<Rightarrow> string list" where
  "written_columns df =
     (if has_col df ''StartDate'' then [''start_year'', ''start_month'', ''start_quarter''] else []) @
     (if \<not> has_col df ''trial_duration_days'' \<and> has_col df ''CompletionDate''
      then [''trial_duration_days''] else []) @
     (if has_col df ''LeadSponsorClass'' then [''is_industry_sponsored''] else []) @
     concat (map (\<lambda>(src, flags). if has_col df src then map fst flags else []) contains_sources) @
     map (\<lambda>col. col @ ''_length'') (filter (has_col df) text_columns) @
     (if \<not> has_col df ''completion_status'' \<and> has_col df ''OverallStatus''
      then [''completion_status''] else [])"

text \<open>A column, and a frame, in which no object column has a missing value.\<close>

fun complete_object :: "column \<Rightarrow> bool" where
  "complete_object (ObjCol xs) = (None \<notin> set xs)"
| "complete_object (NumCol xs) = True"
| "complete_object (DateCol xs) = True"

definition complete_objects :: "table \<Rightarrow> bool" where
  "complete_objects t = list_all (\<lambda>(k, c). complete_object c) t"

section \<open>Example inputs\<close>

definition env_ex :: pandas where
  "env_ex =
     \<lparr> str_to_numeric = map_of [(''10'', 10), (''20'', 20), (''40'', 40)],
       str_to_datetime =
         map_of [(''2020-01-01'', 1577836800000000000), (''2020-01-31'', 1580428800000000000),
                 (''2020-04-10'', 1586476800000000000)],
       num_to_datetime = (\<lambda>v. None),
       num_to_str = (\<lambda>v. []),
       ts_to_str = (\<lambda>ts. []) \<rparr>"

definition df_ex :: table where
  "df_ex =
     [(''EnrollmentCount'', NumCol [Some 10, Some 20, None, Some 40]),
      (''StartDate'', ObjCol [Some ''2020-01-01'', Some ''2020-04-10'', Some ''2020-01-01'', None]),
      (''CompletionDate'', ObjCol [Some ''2020-04-10'', Some ''2020-01-01'', None, Some ''2020-01-31'']),
      (''LeadSponsorClass'', ObjCol [Some ''INDUSTRY'', Some ''NIH'', None, Some ''INDUSTRY'']),
      (''Phase'', ObjCol [Some ''Phase 1/Phase 2'', None, Some ''Phase 3'', Some ''Phase 3'']),
      (''BriefTitle'', ObjCol [Some ''abc'', None, Some ''abc'', Some ''zz'']),
      (''OverallStatus'', ObjCol [Some ''Completed'', Some ''Terminated'', Some ''Recruiting'', None])]"

definition df_status_ex :: table where
  "df_status_ex =
     [(''EnrollmentCount'', NumCol [Some 10, Some 20, Some 30]),
      (''StartDate'', ObjCol [Some ''2020-01-01'', Some ''2020-01-01'', Some ''2020-04-10'']),
      (''LeadSponsorClass'', ObjCol [Some ''INDUSTRY'', Some ''NIH'', Some ''NIH'']),
      (''OverallStatus'', ObjCol [Some ''Completed'', Some ''Terminated'', Some ''Recruiting''])]"

definition df_preset_ex :: table where
  "df_preset_ex =
     [(''EnrollmentCount'', NumCol [Some 10, Some 20]),
      (''LeadSponsorClass'', ObjCol [Some ''INDUSTRY'', Some ''NIH'']),
      (''OverallStatus'', ObjCol [Some ''Recruiting'', Some ''Completed'']),
      (''trial_duration_days'', NumCol [Some (- 5), Some 30]),
      (''completion_status'', NumCol [Some 0, Some 1])]"

definition df_numeric_ex :: table where
  "df_numeric_ex =
     [(''EnrollmentCount'', NumCol [Some 10, Some 20, None, Some 40]),
      (''CompletionDate'', ObjCol [Some ''2020-04-10'', Some ''2020-01-01'', None, Some ''2020-01-31'']),
      (''LeadSponsorClass'', ObjCol [Some ''INDUSTRY'', Some ''NIH'', None, Some ''INDUSTRY'']),
      (''OverallStatus'', ObjCol [Some ''Recruiting'', Some ''Completed'', None, Some ''Completed'']),
      (''trial_duration_days'', NumCol [Some (- 5), None, Some 30, None]),
      (''completion_status'', NumCol [Some 0, Some 1, None, Some 1])]"

definition df_nostart_ex :: table where
  "df_nostart_ex =
     [(''EnrollmentCount'', NumCol [Some 10, Some 20]),
      (''CompletionDate'', ObjCol [Some ''2020-04-10'', Some ''2020-01-01''])]"

definition dir_nostart_ex :: "csv_file list" where
  "dir_nostart_ex =
     [\<lparr> file_name = ''processed_oncology_trials_20240101_120000.csv'', st_mtime = 5,
        content = df_nostart_ex \<rparr>]"

text \<open>The frames that the feature cells compute from \<open>df_ex\<close>.\<close>

definition clean_ex :: table where
  "clean_ex =
     [(''EnrollmentCount'', NumCol [Some 10, Some 20, Some 20, Some 40]),
      (''StartDate'',
       DateCol [Some 1577836800000000000, Some 1586476800000000000,
                Some 1577836800000000000, Some 1577836800000000000]),
      (''CompletionDate'',
       DateCol [Some 1586476800000000000, Some 1577836800000000000,
                Some 1577836800000000000, Some 1580428800000000000]),
      (''LeadSponsorClass'', ObjCol [Some ''INDUSTRY'', Some ''NIH'', Some ''INDUSTRY'', Some ''INDUSTRY'']),
      (''Phase'', ObjCol [Some ''Phase 1/Phase 2'', Some ''Phase 3'', Some ''Phase 3'', Some ''Phase 3'']),
      (''BriefTitle'', ObjCol [Some ''abc'', Some ''abc'', Some ''abc'', Some ''zz'']),
      (''OverallStatus'', ObjCol [Some ''Completed'', Some ''Terminated'', Some ''Recruiting'', Some ''Completed'']),
      (''start_year'', NumCol [Some 2020, Some 2020, Some 2020, Some 2020]),
      (''start_month'', NumCol [Some 1, Some 4, Some 1, Some 1]),
      (''start_quarter'', NumCol [Some 1, Some 2, Some 1, Some 1]),
      (''trial_duration_days'', NumCol [Some 100, Some 30, Some 0, Some 30]),
      (''is_industry_sponsored'', NumCol [Some 1, Some 0, Some 1, Some 1]),
      (''is_phase_1'', NumCol [Some 1, Some 0, Some 0, Some 0]),
      (''is_phase_2'', NumCol [Some 1, Some 0, Some 0, Some 0]),
      (''is_phase_3'', NumCol [Some 0, Some 1, Some 1, Some 1]),
      (''is_phase_4'', NumCol [Some 0, Some 0, Some 0, Some 0]),
      (''BriefTitle_length'', NumCol [Some 3, Some 3, Some 3, Some 2]),
      (''completion_status'', NumCol [Some 1, Some 0, Some 0, Some 1])]"

definition modeling_ex :: table where
  "modeling_ex =
     [(''EnrollmentCount'', NumCol [Some 10, Some 20, Some 40]),
      (''StartDate'',
       DateCol [Some 1577836800000000000, Some 1586476800000000000, Some 1577836800000000000]),
      (''CompletionDate'',
       DateCol [Some 1586476800000000000, Some 1577836800000000000, Some 1580428800000000000]),
      (''LeadSponsorClass'', ObjCol [Some ''INDUSTRY'', Some ''NIH'', Some ''INDUSTRY'']),
      (''Phase'', ObjCol [Some ''Phase 1/Phase 2'', Some ''Phase 3'', Some ''Phase 3'']),
      (''BriefTitle'', ObjCol [Some ''abc'', Some ''abc'', Some ''zz'']),
      (''OverallStatus'', ObjCol [Some ''Completed'', Some ''Terminated'', Some ''Completed'']),
      (''start_year'', NumCol [Some 2020, Some 2020, Some 2020]),
      (''start_month'', NumCol [Some 1, Some 4, Some 1]),
      (''start_quarter'', NumCol [Some 1, Some 2, Some 1]),
      (''trial_duration_days'', NumCol [Some 100, Some 30, Some 30]),
      (''is_industry_sponsored'', NumCol [Some 1, Some 0, Some 1]),
      (''is_phase_1'', NumCol [Some 1, Some 0, Some 0]),
      (''is_phase_2'', NumCol [Some 1, Some 0, Some 0]),
      (''is_phase_3'', NumCol [Some 0, Some 1, Some 1]),
      (''is_phase_4'', NumCol [Some 0, Some 0, Some 0]),
      (''BriefTitle_length'', NumCol [Some 3, Some 3, Some 2]),
      (''completion_status'', NumCol [Some 1, Some 0, Some 1])]"

text \<open>The frames computed from \<open>df_status_ex\<close> and from \<open>df_preset_ex\<close>.\<close>

definition status_clean_ex :: table where
  "status_clean_ex =
     [(''EnrollmentCount'', NumCol [Some 10, Some 20, Some 30]),
      (''StartDate'',
       DateCol [Some 1577836800000000000, Some 1577836800000000000, Some 1586476800000000000]),
      (''LeadSponsorClass'', ObjCol [Some ''INDUSTRY'', Some ''NIH'', Some ''NIH'']),
      (''OverallStatus'', ObjCol [Some ''Completed'', Some ''Terminated'', Some ''Recruiting'']),
      (''start_year'', NumCol [Some 2020, Some 2020, Some 2020]),
      (''start_month'', NumCol [Some 1, Some 1, Some 4]),
      (''start_quarter'', NumCol [Some 1, Some 1, Some 2]),
      (''is_industry_sponsored'', NumCol [Some 1, Some 0, Some 0]),
      (''completion_status'', NumCol [Some 1, Some 0, Some 0])]"

definition status_modeling_ex :: table where
  "status_modeling_ex =
     [(''EnrollmentCount'', NumCol [Some 10, Some 20]),
      (''StartDate'', DateCol [Some 1577836800000000000, Some 1577836800000000000]),
      (''LeadSponsorClass'', ObjCol [Some ''INDUSTRY'', Some ''NIH'']),
      (''OverallStatus'', ObjCol [Some ''Completed'', Some ''Terminated'']),
      (''start_year'', NumCol [Some 2020, Some 2020]),
      (''start_month'', NumCol [Some 1, Some 1]),
      (''start_quarter'', NumCol [Some 1, Some 1]),
      (''is_industry_sponsored'', NumCol [Some 1, Some 0]),
      (''completion_status'', NumCol [Some 1, Some 0])]"

definition preset_out_ex :: table where
  "preset_out_ex =
     [(''EnrollmentCount'', NumCol [Some 10, Some 20]),
      (''LeadSponsorClass'', ObjCol [Some ''INDUSTRY'', Some ''NIH'']),
      (''OverallStatus'', ObjCol [Some ''Recruiting'', Some ''Completed'']),
      (''trial_duration_days'', NumCol [Some (- 5), Some 30]),
      (''completion_status'', NumCol [Some 0, Some 1]),
      (''is_industry_sponsored'', NumCol [Some 1, Some 0])]"

text \<open>The frame computed from \<open>df_numeric_ex\<close>.\<close>

definition numeric_out_ex :: table where
  "numeric_out_ex =
     [(''EnrollmentCount'', NumCol [Some 10, Some 20, Some 20, Some 40]),
      (''CompletionDate'',
       DateCol [Some 1586476800000000000, Some 1577836800000000000,
                Some 1577836800000000000, Some 1580428800000000000]),
      (''LeadSponsorClass'', ObjCol [Some ''INDUSTRY'', Some ''NIH'', Some ''INDUSTRY'', Some ''INDUSTRY'']),
      (''OverallStatus'', ObjCol [Some ''Recruiting'', Some ''Completed'', Some ''Completed'', Some ''Completed'']),
      (''trial_duration_days'', NumCol [Some (- 5), Some (25 / 2), Some 30, Some (25 / 2)]),
      (''completion_status'', NumCol [Some 0, Some 1, Some 1, Some 1]),
      (''is_industry_sponsored'', NumCol [Some 1, Some 0, Some 1, Some 1])]"

text \<open>A modeling frame for the training notebook, and a metrics frame with a tie.\<close>

definition df_training_ex :: table where
  "df_training_ex =
     [(''nct_id'', ObjCol [Some ''N1'', Some ''N2'', Some ''N3'', Some ''N4'', Some ''N5'']),
      (''overall_status'',
       ObjCol [Some ''Completed'', Some ''Terminated'', Some ''Suspended'', Some ''Withdrawn'',
               Some ''Completed'']),
      (''EnrollmentCount'', NumCol [Some 1, Some 2, Some 3, Some 4, Some 5]),
      (''duration_days'', NumCol [Some 10, Some 20, Some 30, Some 40, Some 50])]"

definition metrics_ex :: frame where
  "metrics_ex =
     \<lparr> frame_index = [''Logistic Regression'', ''Random Forest'', ''Gradient Boosting''],
       frame_columns =
         [(''accuracy'', NumCol [Some (7 / 10), Some (4 / 5), Some (9 / 10)]),
          (''f1_score'', NumCol [Some (1 / 2), Some (3 / 4), Some (3 / 4)])] \<rparr>"

text \<open>Two sorts that keep numpy's promise: one keeps equal keys in the order of their
  positions, the other puts them in the opposite order.\<close>

definition argsort_stable :: "('a::linorder) list \<Rightarrow> nat list" where
  "argsort_stable xs = map snd (sort_key fst (zip xs [0..<length xs]))"

definition argsort_unstable :: "('a::linorder) list \<Rightarrow> nat list" where
  "argsort_unstable xs = map snd (sort_key fst (rev (zip xs [0..<length xs])))"

definition numpy_stable_ex :: numpy where
  "numpy_stable_ex =
     \<lparr> argsort_num = argsort_stable, argsort_str = argsort_stable, argsort_ts = argsort_stable \<rparr>"

definition numpy_unstable_ex :: numpy where
  "numpy_unstable_ex =
     \<lparr> argsort_num = argsort_unstable, argsort_str = argsort_unstable,
       argsort_ts = argsort_unstable \<rparr>"

section \<open>Auxiliary lemmas\<close>

subsection \<open>Steps of the transform\<close>

lemma bind_err_Inr: "bind_err r f = Inr y \<longleftrightarrow> (\<exists>x. r = Inr x \<and> f x = Inr y)"
  by (cases r) (simp_all add: bind_err_def)

lemma bind_err_simps [simp]: "bind_err (Inr x) f = f x" "bind_err (Inl e) f = Inl e"
  by (simp_all add: bind_err_def)

lemma map_of_setcol [simp]: "map_of (setcol t k c) = (map_of t)(k \<mapsto> c)"
  by (simp add: setcol_def update_conv')

lemma has_col_setcol [simp]: "has_col (setcol t k c) k' = (k' = k \<or> has_col t k')"
  by (auto simp: has_col_def)

lemma keys_setcol: "fst ` set (setcol t k c) = insert k (fst ` set t)"
  by (simp add: setcol_def dom_update)

lemma has_col_keys: "has_col t k = (k \<in> set (map fst t))"
  by (simp add: has_col_def map_of_eq_None_iff)

lemma getcol_Inr: "getcol t k = Inr c \<longleftrightarrow> map_of t k = Some c"
  by (simp add: getcol_def split: option.splits)

lemma fillna_id: "None \<notin> set xs \<Longrightarrow> fillna m xs = xs"
  by (induction xs) (auto simp: fillna_def split: option.splits)

lemma length_fillna [simp]: "length (fillna m xs) = length xs"
  by (simp add: fillna_def)

lemma impute_num_col_clean: "impute_num_col (NumCol xs) = clean_col (NumCol xs)"
  by (simp add: clean_col_def fillna_id)

lemma impute_obj_num: "impute_obj_col (impute_num_col c) = Inr c' \<Longrightarrow> c' = clean_col c"
  by (cases c) (auto simp: clean_col_def fillna_id split: if_splits option.splits)

lemma impute_categorical_numeric:
  "impute_categorical (impute_numeric t) = Inr t' \<Longrightarrow> t' = map (\<lambda>(k, c). (k, clean_col c)) t"
proof (induction t arbitrary: t')
  case Nil
  then show ?case by (simp add: impute_numeric_def)
next
  case (Cons p t)
  obtain k c where p: "p = (k, c)" by (cases p)
  from Cons.prems obtain c' t'' where
    c': "impute_obj_col (impute_num_col c) = Inr c'" and
    t'': "impute_categorical (impute_numeric t) = Inr t''" and
    eq: "t' = (k, c') # t''"
    by (auto simp: p impute_numeric_def bind_err_Inr)
  show ?case using Cons.IH[OF t''] impute_obj_num[OF c'] by (simp add: eq p)
qed

lemma map_of_clean: "map_of (map (\<lambda>(k, c). (k, clean_col c)) t) k = map_option clean_col (map_of t k)"
  by (induction t) auto

lemma handle_missing_Inr:
  assumes "handle_missing env df = Inr a"
  shows "\<exists>c0. map_of df ''EnrollmentCount'' = Some c0 \<and>
           a = map (\<lambda>(k, c). (k, clean_col c)) (setcol df ''EnrollmentCount'' (to_numeric env c0))"
  using assms
  by (auto simp: handle_missing_def coerce_enrollment_def bind_err_Inr getcol_Inr
      dest: impute_categorical_numeric)

lemma handle_missing_lookup:
  assumes "handle_missing env df = Inr a"
  shows "\<exists>c0. map_of df ''EnrollmentCount'' = Some c0 \<and>
          (\<forall>k. map_of a k = (if k = ''EnrollmentCount'' then Some (clean_col (to_numeric env c0))
                              else map_option clean_col (map_of df k)))"
  using handle_missing_Inr[OF assms] by (auto simp: map_of_clean)

lemma convert_dates_lookup:
  "map_of (convert_dates env t) k =
     (if k \<in> set date_columns then map_option (to_datetime env) (map_of t k) else map_of t k)"
  by (auto simp: convert_dates_def date_columns_def split: option.splits)

lemma to_datetime_is_date: "\<exists>ds. to_datetime env c = DateCol ds"
  by (cases c) auto

lemma dt_field_Inr: "dt_field f c = Inr y \<longleftrightarrow> (\<exists>ds. c = DateCol ds \<and> y = NumCol (map (map_option f) ds))"
  by (cases c) auto

lemma start_features_Inr:
  assumes "start_features t = Inr t'"
  shows "(map_of t ''StartDate'' = None \<and> t' = t) \<or>
         (\<exists>ds. map_of t ''StartDate'' = Some (DateCol ds) \<and>
            t' = setcol (setcol (setcol t ''start_year'' (NumCol (map (map_option dt_year) ds)))
                    ''start_month'' (NumCol (map (map_option dt_month) ds)))
                    ''start_quarter'' (NumCol (map (map_option dt_quarter) ds)))"
  using assms
  by (auto simp: start_features_def bind_err_Inr dt_field_Inr split: option.splits)

lemma date_diff_days_Inr:
  "date_diff_days c s = Inr raw \<longleftrightarrow>
     (\<exists>cs ss. c = DateCol cs \<and> s = DateCol ss \<and> raw = map (\<lambda>(x, y). td_days x y) (zip cs ss))"
  by (cases c; cases s) auto


lemma trial_duration_Inr:
  assumes "trial_duration t = Inr t'"
  shows "((has_col t ''trial_duration_days'' \<or> \<not> has_col t ''CompletionDate'') \<and> t' = t) \<or>
         (\<not> has_col t ''trial_duration_days'' \<and>
          (\<exists>cs ss. map_of t ''CompletionDate'' = Some (DateCol cs) \<and>
                   map_of t ''StartDate'' = Some (DateCol ss) \<and>
                   t' = setcol t ''trial_duration_days'' (duration_col cs ss)))"
  using assms
  by (auto simp: trial_duration_def bind_err_Inr getcol_Inr date_diff_days_Inr duration_col_def
      Let_def split: if_splits)

lemma temporal_features_Inr:
  assumes "temporal_features env a = Inr b"
  shows "\<exists>t1. start_features (convert_dates env a) = Inr t1 \<and> trial_duration t1 = Inr b"
  using assms by (auto simp: temporal_features_def bind_err_Inr)

lemma set_flags_lookup:
  "set_flags t c flags = Inr t' \<Longrightarrow> k \<notin> fst ` set flags \<Longrightarrow> map_of t' k = map_of t k"
  by (induction flags arbitrary: t) (auto simp: bind_err_Inr)

lemma set_flags_obj:
  "set_flags t c flags = Inr t' \<Longrightarrow> flags \<noteq> [] \<Longrightarrow> \<exists>xs. c = ObjCol xs"
  by (cases flags; cases c) (auto simp: bind_err_Inr)

lemma set_flags_value:
  "set_flags t (ObjCol xs) flags = Inr t' \<Longrightarrow> distinct (map fst flags) \<Longrightarrow> (k, pat) \<in> set flags \<Longrightarrow>
     map_of t' k = Some (astype_int (map (\<lambda>x. case x of None \<Rightarrow> False | Some s \<Rightarrow> contains_str pat s) xs))"
proof (induction flags arbitrary: t)
  case Nil
  then show ?case by simp
next
  case (Cons p flags)
  obtain k' pat' where p: "p = (k', pat')" by (cases p)
  from Cons.prems(1) have rest: "set_flags (setcol t k' (astype_int (map (\<lambda>x. case x of None \<Rightarrow> False | Some s \<Rightarrow> contains_str pat' s) xs))) (ObjCol xs) flags = Inr t'"
    by (simp add: p)
  show ?case
  proof (cases "(k, pat) \<in> set flags")
    case True
    then show ?thesis using Cons.IH[OF rest] Cons.prems(2) by simp
  next
    case False
    then have kp: "k = k'" "pat = pat'" using Cons.prems(3) by (auto simp: p)
    have "k' \<notin> fst ` set flags" using Cons.prems(2) by (auto simp: p)
    from set_flags_lookup[OF rest this] show ?thesis unfolding kp by simp
  qed
qed

lemma set_flags_keys:
  "set_flags t c flags = Inr t' \<Longrightarrow> fst ` set t' = fst ` set t \<union> fst ` set flags"
proof (induction flags arbitrary: t)
  case Nil
  then show ?case by simp
next
  case (Cons p flags)
  obtain k pat where p: "p = (k, pat)" by (cases p)
  from Cons.prems obtain bs where rest: "set_flags (setcol t k (astype_int bs)) c flags = Inr t'"
    by (auto simp: p bind_err_Inr)
  from Cons.IH[OF rest] show ?case by (simp add: keys_setcol p)
qed

lemma contains_flags_lookup:
  "contains_flags t src flags = Inr t' \<Longrightarrow> k \<notin> fst ` set flags \<Longrightarrow> map_of t' k = map_of t k"
  by (auto simp: contains_flags_def split: option.splits dest: set_flags_lookup)

lemma contains_flags_value:
  assumes "contains_flags t src flags = Inr t'" "map_of t src = Some c" "distinct (map fst flags)"
    "(k, pat) \<in> set flags"
  shows "\<exists>xs. c = ObjCol xs \<and>
     map_of t' k = Some (astype_int (map (\<lambda>x. case x of None \<Rightarrow> False | Some s \<Rightarrow> contains_str pat s) xs))"
proof -
  from assms have sf: "set_flags t c flags = Inr t'" by (simp add: contains_flags_def)
  have "flags \<noteq> []" using assms(4) by auto
  from set_flags_obj[OF sf this] obtain xs where c: "c = ObjCol xs" by auto
  from set_flags_value[OF sf[unfolded c] assms(3,4)] c show ?thesis by simp
qed

lemma sponsor_flag_lookup:
  "map_of (sponsor_flag t) k =
     (case map_of t ''LeadSponsorClass'' of
        None \<Rightarrow> map_of t k
      | Some c \<Rightarrow> if k = ''is_industry_sponsored'' then Some (astype_int (eq_str c ''INDUSTRY''))
                  else map_of t k)"
  by (auto simp: sponsor_flag_def split: option.splits)

lemma categorical_features_Inr:
  assumes "categorical_features t = Inr t'"
  shows "\<exists>t2 t3. contains_flags (sponsor_flag t) ''Phase'' phase_flags = Inr t2 \<and>
           contains_flags t2 ''StudyDesign'' design_flags = Inr t3 \<and>
           contains_flags t3 ''LocationCountry'' country_flags = Inr t'"
  using assms by (auto simp: categorical_features_def bind_err_Inr)

lemma add_lengths_lookup:
  "add_lengths env t cols = Inr t' \<Longrightarrow> k \<notin> (\<lambda>c. c @ ''_length'') ` set cols \<Longrightarrow> map_of t' k = map_of t k"
  by (induction cols arbitrary: t) (auto simp: bind_err_Inr)

lemma add_lengths_value:
  "add_lengths env t cols = Inr t' \<Longrightarrow> col \<in> set cols \<Longrightarrow>
     \<forall>c \<in> set cols. \<forall>c' \<in> set cols. c \<noteq> c' @ ''_length'' \<Longrightarrow>
     \<exists>c. map_of t col = Some c \<and> map_of t' (col @ ''_length'') = Some (text_length env c)"
proof (induction cols arbitrary: t)
  case Nil
  then show ?case by simp
next
  case (Cons a cols)
  from Cons.prems(1) obtain ca where ca: "map_of t a = Some ca" and
    rest: "add_lengths env (setcol t (a @ ''_length'') (text_length env ca)) cols = Inr t'"
    by (auto simp: bind_err_Inr getcol_Inr)
  have nolen: "\<forall>c \<in> set cols. \<forall>c' \<in> set cols. c \<noteq> c' @ ''_length''" using Cons.prems(3) by auto
  show ?case
  proof (cases "col \<in> set cols")
    case True
    from Cons.IH[OF rest True nolen] obtain c where
      c: "map_of (setcol t (a @ ''_length'') (text_length env ca)) col = Some c"
      and v: "map_of t' (col @ ''_length'') = Some (text_length env c)" by blast
    have "col \<noteq> a @ ''_length''" using Cons.prems(3) True by auto
    with c v show ?thesis by simp
  next
    case False
    then have [simp]: "col = a" using Cons.prems(2) by simp
    have "a @ ''_length'' \<notin> (\<lambda>c. c @ ''_length'') ` set cols" using False by auto
    from add_lengths_lookup[OF rest this] ca show ?thesis by simp
  qed
qed

lemma text_features_lookup:
  assumes "text_features env t = Inr t'" "k \<notin> (\<lambda>c. c @ ''_length'') ` set text_columns"
  shows "map_of t' k = map_of t k"
proof -
  have nk: "k \<notin> (\<lambda>c. c @ ''_length'') ` set (filter (has_col t) text_columns)"
    using assms(2) by auto
  show ?thesis
  proof (cases "filter (has_col t) text_columns = []")
    case True
    then show ?thesis using assms(1) by (simp add: text_features_def)
  next
    case False
    then have "add_lengths env t (filter (has_col t) text_columns) = Inr t'"
      using assms(1) by (simp add: text_features_def Let_def bind_err_Inr)
    from add_lengths_lookup[OF this nk] show ?thesis .
  qed
qed

lemma text_features_value:
  assumes "text_features env t = Inr t'" "col \<in> set text_columns" "map_of t col = Some c"
  shows "map_of t' (col @ ''_length'') = Some (text_length env c)"
proof -
  let ?av = "filter (has_col t) text_columns"
  have mem: "col \<in> set ?av" using assms(2,3) by (simp add: has_col_def)
  then have ne: "?av \<noteq> []" by (metis empty_iff empty_set)
  from assms(1) ne have al: "add_lengths env t ?av = Inr t'"
    by (auto simp: text_features_def Let_def bind_err_Inr split: if_splits)
  have "\<forall>c \<in> set ?av. \<forall>c' \<in> set ?av. c \<noteq> c' @ ''_length''"
    by (auto simp: text_columns_def)
  from add_lengths_value[OF al mem this] assms(3) show ?thesis by simp
qed

lemma target_variable_Inr:
  assumes "target_variable t = Inr (c, m)"
  shows "((has_col t ''completion_status'' \<or> \<not> has_col t ''OverallStatus'') \<and> c = t \<and> m = t) \<or>
         (\<not> has_col t ''completion_status'' \<and>
          (\<exists>s. map_of t ''OverallStatus'' = Some s \<and>
                c = setcol t ''completion_status'' (astype_int (eq_str s ''Completed'')) \<and>
                m = filter_rows (isin s completed_statuses) c))"
  using assms
  by (auto simp: target_variable_def bind_err_Inr getcol_Inr Let_def split: if_splits)

lemma feature_engineering_Inr:
  assumes "feature_engineering env df = Inr (c, m)"
  shows "\<exists>a b1 b c1 c2. handle_missing env df = Inr a \<and>
           start_features (convert_dates env a) = Inr b1 \<and> trial_duration b1 = Inr b \<and>
           categorical_features b = Inr c1 \<and> text_features env c1 = Inr c2 \<and>
           target_variable c2 = Inr (c, m)"
  using assms by (auto simp: feature_engineering_def bind_err_Inr dest!: temporal_features_Inr)

lemma start_features_frame:
  "start_features t = Inr t' \<Longrightarrow> k \<notin> {''start_year'', ''start_month'', ''start_quarter''} \<Longrightarrow>
     map_of t' k = map_of t k"
  by (drule start_features_Inr) auto

lemma trial_duration_frame:
  "trial_duration t = Inr t' \<Longrightarrow> k \<noteq> ''trial_duration_days'' \<Longrightarrow> map_of t' k = map_of t k"
  by (drule trial_duration_Inr) auto

lemma categorical_features_frame:
  assumes "categorical_features t = Inr t'"
    "k \<notin> insert ''is_industry_sponsored'' (fst ` set (phase_flags @ design_flags @ country_flags))"
  shows "map_of t' k = map_of t k"
proof -
  from categorical_features_Inr[OF assms(1)] obtain t2 t3 where
    s2: "contains_flags (sponsor_flag t) ''Phase'' phase_flags = Inr t2" and
    s3: "contains_flags t2 ''StudyDesign'' design_flags = Inr t3" and
    s4: "contains_flags t3 ''LocationCountry'' country_flags = Inr t'" by blast
  have "map_of t' k = map_of t3 k" using contains_flags_lookup[OF s4] assms(2) by auto
  also have "\<dots> = map_of t2 k" using contains_flags_lookup[OF s3] assms(2) by auto
  also have "\<dots> = map_of (sponsor_flag t) k" using contains_flags_lookup[OF s2] assms(2) by auto
  also have "\<dots> = map_of t k" using assms(2) by (simp add: sponsor_flag_lookup split: option.splits)
  finally show ?thesis .
qed

lemma target_variable_frame:
  "target_variable t = Inr (c, m) \<Longrightarrow> k \<noteq> ''completion_status'' \<Longrightarrow> map_of c k = map_of t k"
  by (drule target_variable_Inr) auto

lemma fe_frame:
  assumes "feature_engineering env df = Inr (c, m)" "k \<notin> set derived_columns"
  shows "\<exists>a. handle_missing env df = Inr a \<and> map_of c k = map_of (convert_dates env a) k"
proof -
  from feature_engineering_Inr[OF assms(1)] obtain a b1 b c1 c2 where
    a: "handle_missing env df = Inr a" and
    b1: "start_features (convert_dates env a) = Inr b1" and
    b: "trial_duration b1 = Inr b" and
    c1: "categorical_features b = Inr c1" and
    c2: "text_features env c1 = Inr c2" and
    tv: "target_variable c2 = Inr (c, m)" by blast
  have "map_of c k = map_of c2 k"
    using target_variable_frame[OF tv] assms(2) by (simp add: derived_columns_def)
  also have "\<dots> = map_of c1 k"
    using text_features_lookup[OF c2] assms(2) by (simp add: derived_columns_def text_columns_def)
  also have "\<dots> = map_of b k"
    using categorical_features_frame[OF c1] assms(2)
    by (simp add: derived_columns_def phase_flags_def design_flags_def country_flags_def)
  also have "\<dots> = map_of b1 k"
    using trial_duration_frame[OF b] assms(2) by (simp add: derived_columns_def)
  also have "\<dots> = map_of (convert_dates env a) k"
    using start_features_frame[OF b1] assms(2) by (simp add: derived_columns_def)
  finally show ?thesis using a by blast
qed

lemma fe_clean_lookup:
  assumes "feature_engineering env df = Inr (c, m)" "k \<notin> set derived_columns"
    "k \<notin> set date_columns" "k \<noteq> ''EnrollmentCount''"
  shows "map_of c k = map_option clean_col (map_of df k)"
proof -
  from fe_frame[OF assms(1,2)] obtain a where a: "handle_missing env df = Inr a"
    and ck: "map_of c k = map_of (convert_dates env a) k" by blast
  from handle_missing_lookup[OF a] assms(4) have "map_of a k = map_option clean_col (map_of df k)"
    by auto
  with ck assms(3) show ?thesis by (simp add: convert_dates_lookup)
qed

lemma fe_enrollment:
  assumes "feature_engineering env df = Inr (c, m)"
  shows "\<exists>c0. map_of df ''EnrollmentCount'' = Some c0 \<and>
           map_of c ''EnrollmentCount'' = Some (clean_col (to_numeric env c0))"
proof -
  have "''EnrollmentCount'' \<notin> set derived_columns" by (simp add: derived_columns_def)
  from fe_frame[OF assms(1) this] obtain a where a: "handle_missing env df = Inr a"
    and ck: "map_of c ''EnrollmentCount'' = map_of (convert_dates env a) ''EnrollmentCount''" by blast
  from handle_missing_lookup[OF a] ck show ?thesis
    by (auto simp: convert_dates_lookup date_columns_def)
qed

lemma fe_date_lookup:
  assumes "feature_engineering env df = Inr (c, m)" "k \<in> set date_columns"
  shows "map_of c k = map_option (\<lambda>x. to_datetime env (clean_col x)) (map_of df k)"
proof -
  have "k \<notin> set derived_columns" "k \<noteq> ''EnrollmentCount''"
    using assms(2) by (auto simp: derived_columns_def date_columns_def)
  from fe_frame[OF assms(1) this(1)] obtain a where a: "handle_missing env df = Inr a"
    and ck: "map_of c k = map_of (convert_dates env a) k" by blast
  from handle_missing_lookup[OF a] \<open>k \<noteq> ''EnrollmentCount''\<close>
  have "map_of a k = map_option clean_col (map_of df k)" by auto
  with ck assms(2) show ?thesis by (simp add: convert_dates_lookup option.map_comp comp_def)
qed

lemma map_of_filter_rows: "map_of (filter_rows msk t) k = map_option (filter_col msk) (map_of t k)"
  by (induction t) (auto simp: filter_rows_def)

lemma set_keep: "set (keep msk xs) \<subseteq> set xs"
  by (auto simp: keep_def dest: set_zip_rightD)

lemma keep_map_self: "keep (map P xs) (map f xs) = map f (filter P xs)"
  by (induction xs) (auto simp: keep_def)

lemma fe_modeling:
  assumes "feature_engineering env df = Inr (c, m)"
  shows "m = c \<or> (\<exists>msk. m = filter_rows msk c)"
proof -
  from feature_engineering_Inr[OF assms(1)] obtain c2 where
    tv: "target_variable c2 = Inr (c, m)" by blast
  from target_variable_Inr[OF tv] show ?thesis by auto
qed

lemma fe_stages:
  assumes "feature_engineering env df = Inr (c, m)"
  shows "\<exists>a b1 b c1 c2. handle_missing env df = Inr a \<and>
           start_features (convert_dates env a) = Inr b1 \<and> trial_duration b1 = Inr b \<and>
           categorical_features b = Inr c1 \<and> text_features env c1 = Inr c2 \<and>
           target_variable c2 = Inr (c, m)"
  using feature_engineering_Inr[OF assms] .


lemma sort_eq_Nil_iff: "sort vs = [] \<longleftrightarrow> vs = []"
  by (metis length_sort length_0_conv)

lemma median_None_iff: "median vs = None \<longleftrightarrow> vs = []"
  unfolding median_def Let_def by (simp add: sort_eq_Nil_iff del: not_None_eq)

lemma median_nonneg:
  assumes "\<forall>v \<in> set vs. 0 \<le> v" "median vs = Some m"
  shows "0 \<le> m"
proof -
  let ?s = "sort vs" and ?n = "length vs"
  from assms(2) have ne: "vs \<noteq> []" by (auto simp: median_def)
  then have n: "0 < ?n" by simp
  have mem: "\<And>i. i < ?n \<Longrightarrow> 0 \<le> ?s ! i"
  proof -
    fix i assume "i < ?n"
    then have "?s ! i \<in> set ?s" by (intro nth_mem) simp
    then have "?s ! i \<in> set vs" by simp
    then show "0 \<le> ?s ! i" using assms(1) by blast
  qed
  have a: "0 \<le> ?s ! (?n div 2)" using n by (intro mem) simp
  have b: "0 \<le> ?s ! (?n div 2 - 1)" using n by (intro mem) arith
  show ?thesis using assms(2) a b n by (auto simp: median_def Let_def split: if_splits)
qed

lemma non_null_mask_negative:
  "non_null (mask_negative raw) = filter (\<lambda>v. 0 \<le> v) (non_null raw)"
  by (induction raw) (auto simp: non_null_def mask_negative_def split: option.splits)

lemma fillna_mask_negative:
  "fillna m (mask_negative raw) =
     map (\<lambda>d. case d of None \<Rightarrow> m | Some v \<Rightarrow> if v < 0 then m else Some v) raw"
  by (induction raw) (auto simp: fillna_def mask_negative_def split: option.splits)

lemma duration_col_nonneg:
  assumes "duration_col cs ss = NumCol ds" "Some v \<in> set ds"
  shows "0 \<le> v"
proof -
  let ?raw = "map (\<lambda>(x, y). td_days x y) (zip cs ss)"
  let ?valid = "filter (\<lambda>v. 0 \<le> v) (non_null ?raw)"
  have ds: "ds = map (\<lambda>d. case d of None \<Rightarrow> median ?valid
                              | Some v \<Rightarrow> if v < 0 then median ?valid else Some v) ?raw"
    using assms(1) by (simp add: duration_col_def Let_def non_null_mask_negative fillna_mask_negative)
  have med: "median ?valid = Some v \<Longrightarrow> 0 \<le> v"
    by (rule median_nonneg[of ?valid]) auto
  from assms(2) obtain d where "d \<in> set ?raw"
    and "Some v = (case d of None \<Rightarrow> median ?valid | Some v \<Rightarrow> if v < 0 then median ?valid else Some v)"
    unfolding ds by auto
  then show ?thesis using med by (auto split: option.splits if_splits)
qed

lemma fe_duration:
  assumes "feature_engineering env df = Inr (c, m)"
    "\<not> has_col df ''trial_duration_days''" "has_col df ''CompletionDate''"
  shows "\<exists>cs ss. map_of c ''CompletionDate'' = Some (DateCol cs) \<and>
           map_of c ''StartDate'' = Some (DateCol ss) \<and>
           map_of c ''trial_duration_days'' = Some (duration_col cs ss)"
proof -
  from fe_stages[OF assms(1)] obtain a b1 b c1 c2 where
    a: "handle_missing env df = Inr a" and
    b1: "start_features (convert_dates env a) = Inr b1" and
    b: "trial_duration b1 = Inr b" and
    c1: "categorical_features b = Inr c1" and
    c2: "text_features env c1 = Inr c2" and
    tv: "target_variable c2 = Inr (c, m)" by blast
  have fr: "map_of c k = map_of b k"
    if "k \<notin> set (drop 4 derived_columns)" for k
  proof -
    have "map_of c k = map_of c2 k"
      using target_variable_frame[OF tv] that by (simp add: derived_columns_def)
    also have "\<dots> = map_of c1 k"
      using text_features_lookup[OF c2] that by (simp add: derived_columns_def text_columns_def)
    also have "\<dots> = map_of b k"
      using categorical_features_frame[OF c1] that
      by (simp add: derived_columns_def phase_flags_def design_flags_def country_flags_def)
    finally show ?thesis .
  qed
  from handle_missing_lookup[OF a] have
    da: "map_of a ''trial_duration_days'' = None" and ca: "map_of a ''CompletionDate'' \<noteq> None"
    using assms(2,3) by (auto simp: has_col_def)
  have "map_of b1 ''trial_duration_days'' = None" "map_of b1 ''CompletionDate'' \<noteq> None"
    using start_features_frame[OF b1] da ca
    by (auto simp: convert_dates_lookup date_columns_def)
  then have "\<not> has_col b1 ''trial_duration_days''" "has_col b1 ''CompletionDate''"
    by (auto simp: has_col_def)
  with trial_duration_Inr[OF b] obtain cs ss where
    "map_of b1 ''CompletionDate'' = Some (DateCol cs)"
    "map_of b1 ''StartDate'' = Some (DateCol ss)"
    "b = setcol b1 ''trial_duration_days'' (duration_col cs ss)" by auto
  then have "map_of b ''CompletionDate'' = Some (DateCol cs)"
    "map_of b ''StartDate'' = Some (DateCol ss)"
    "map_of b ''trial_duration_days'' = Some (duration_col cs ss)" by auto
  moreover have "map_of c ''CompletionDate'' = map_of b ''CompletionDate''"
    "map_of c ''StartDate'' = map_of b ''StartDate''"
    "map_of c ''trial_duration_days'' = map_of b ''trial_duration_days''"
    by (rule fr, simp add: derived_columns_def)+
  ultimately show ?thesis by simp
qed

subsection \<open>The example runs\<close>

lemma run_df_ex: "feature_engineering env_ex df_ex = Inr (clean_ex, modeling_ex)"
  by code_simp

lemma run_df_status_ex:
  "feature_engineering env_ex df_status_ex = Inr (status_clean_ex, status_modeling_ex)"
  by code_simp

lemma run_df_preset_ex:
  "feature_engineering env_ex df_preset_ex = Inr (preset_out_ex, preset_out_ex)"
  by code_simp

lemma run_df_numeric_ex:
  "feature_engineering env_ex df_numeric_ex = Inr (numeric_out_ex, numeric_out_ex)"
  by code_simp

lemma run_clean_ex: "feature_engineering env_ex clean_ex = Inr (clean_ex, clean_ex)"
  by code_simp

subsection \<open>What each feature cell leaves in the cleaned frame\<close>

lemma impute_categorical_each:
  "impute_categorical t = Inr t' \<Longrightarrow> (k, c) \<in> set t \<Longrightarrow> \<exists>c'. impute_obj_col c = Inr c'"
  by (induction t arbitrary: t') (auto simp: bind_err_Inr)

lemma handle_missing_mode:
  assumes "handle_missing env df = Inr a" "map_of df k = Some (ObjCol xs)" "k \<noteq> ''EnrollmentCount''"
    "None \<in> set xs"
  shows "mode_str (non_null xs) \<noteq> None"
proof -
  from assms(1) obtain c0 where
    ic: "impute_categorical (impute_numeric (setcol df ''EnrollmentCount'' (to_numeric env c0))) = Inr a"
    by (auto simp: handle_missing_def coerce_enrollment_def bind_err_Inr)
  let ?t = "setcol df ''EnrollmentCount'' (to_numeric env c0)"
  have "map_of ?t k = Some (ObjCol xs)" using assms(2,3) by simp
  then have "(k, ObjCol xs) \<in> set ?t" by (rule map_of_SomeD)
  then have "(k, impute_num_col (ObjCol xs)) \<in> set (impute_numeric ?t)"
    by (force simp: impute_numeric_def)
  from impute_categorical_each[OF ic this] assms(4) show ?thesis
    by (auto split: option.splits)
qed

lemma fe_before_flags:
  assumes "feature_engineering env df = Inr (c, m)"
  shows "\<exists>b c1 c2. categorical_features b = Inr c1 \<and> text_features env c1 = Inr c2 \<and>
           target_variable c2 = Inr (c, m) \<and>
           (\<forall>k. k \<notin> set (take 4 derived_columns) \<and> k \<notin> set date_columns \<and> k \<noteq> ''EnrollmentCount'' \<longrightarrow>
                map_of b k = map_option clean_col (map_of df k)) \<and>
           (\<forall>k xs. map_of df k = Some (ObjCol xs) \<and> k \<noteq> ''EnrollmentCount'' \<and> None \<in> set xs \<longrightarrow>
                mode_str (non_null xs) \<noteq> None)"
proof -
  from fe_stages[OF assms(1)] obtain a b1 b c1 c2 where
    a: "handle_missing env df = Inr a" and
    b1: "start_features (convert_dates env a) = Inr b1" and
    b: "trial_duration b1 = Inr b" and
    c1: "categorical_features b = Inr c1" and
    c2: "text_features env c1 = Inr c2" and
    tv: "target_variable c2 = Inr (c, m)" by blast
  have "map_of b k = map_option clean_col (map_of df k)"
    if "k \<notin> set (take 4 derived_columns)" "k \<notin> set date_columns" "k \<noteq> ''EnrollmentCount''" for k
  proof -
    have "map_of b k = map_of b1 k"
      using trial_duration_frame[OF b] that(1) by (simp add: derived_columns_def)
    also have "\<dots> = map_of (convert_dates env a) k"
      using start_features_frame[OF b1] that(1) by (simp add: derived_columns_def)
    also have "\<dots> = map_of a k" using that(2) by (simp add: convert_dates_lookup)
    also have "\<dots> = map_option clean_col (map_of df k)"
      using handle_missing_lookup[OF a] that(3) by auto
    finally show ?thesis .
  qed
  with c1 c2 tv handle_missing_mode[OF a] show ?thesis by blast
qed

lemma astype_int_binary:
  "\<exists>bs. astype_int xs = NumCol bs \<and> length bs = length xs \<and> set bs \<subseteq> {Some 0, Some 1}"
  by (auto simp: astype_int_def split: if_splits)

lemma fe_sponsor:
  assumes "feature_engineering env df = Inr (c, m)" "map_of df ''LeadSponsorClass'' = Some c0"
  shows "map_of c ''LeadSponsorClass'' = Some (clean_col c0) \<and>
         map_of c ''is_industry_sponsored'' = Some (astype_int (eq_str (clean_col c0) ''INDUSTRY''))"
proof -
  from fe_before_flags[OF assms(1)] obtain b c1 c2 where
    c1: "categorical_features b = Inr c1" and
    c2: "text_features env c1 = Inr c2" and
    tv: "target_variable c2 = Inr (c, m)" and
    fr: "\<And>k. k \<notin> set (take 4 derived_columns) \<Longrightarrow> k \<notin> set date_columns \<Longrightarrow> k \<noteq> ''EnrollmentCount'' \<Longrightarrow>
                map_of b k = map_option clean_col (map_of df k)" by blast
  have src: "map_of b ''LeadSponsorClass'' = Some (clean_col c0)"
    using fr[of "''LeadSponsorClass''"] assms(2) by (simp add: derived_columns_def date_columns_def)
  from categorical_features_Inr[OF c1] obtain t2 t3 where
    s2: "contains_flags (sponsor_flag b) ''Phase'' phase_flags = Inr t2" and
    s3: "contains_flags t2 ''StudyDesign'' design_flags = Inr t3" and
    s4: "contains_flags t3 ''LocationCountry'' country_flags = Inr c1" by blast
  have post: "map_of c k = map_of (sponsor_flag b) k"
    if "k \<in> {''LeadSponsorClass'', ''is_industry_sponsored''}" for k
  proof -
    have "map_of c k = map_of c2 k" using target_variable_frame[OF tv] that by auto
    also have "\<dots> = map_of c1 k"
      using text_features_lookup[OF c2, of k] that by (auto simp: text_columns_def)
    also have "\<dots> = map_of t3 k"
      using contains_flags_lookup[OF s4, of k] that by (auto simp: country_flags_def)
    also have "\<dots> = map_of t2 k"
      using contains_flags_lookup[OF s3, of k] that by (auto simp: design_flags_def)
    also have "\<dots> = map_of (sponsor_flag b) k"
      using contains_flags_lookup[OF s2, of k] that by (auto simp: phase_flags_def)
    finally show ?thesis .
  qed
  show ?thesis using post[of "''LeadSponsorClass''"] post[of "''is_industry_sponsored''"] src
    by (simp add: sponsor_flag_lookup)
qed

lemma clean_col_obj: "clean_col c0 = ObjCol xs \<Longrightarrow> \<exists>ys. c0 = ObjCol ys"
  by (cases c0) (auto simp: clean_col_def)

lemma fe_flags:
  assumes "feature_engineering env df = Inr (c, m)" "(src, flags) \<in> set contains_sources"
    "(k, pat) \<in> set flags" "map_of df src = Some c0"
  shows "\<exists>xs. clean_col c0 = ObjCol xs \<and> map_of c src = Some (ObjCol xs) \<and>
           map_of c k = Some (astype_int (map (\<lambda>x. case x of None \<Rightarrow> False
                                                   | Some s \<Rightarrow> contains_str pat s) xs))"
proof -
  from fe_before_flags[OF assms(1)] obtain b c1 c2 where
    c1: "categorical_features b = Inr c1" and
    c2: "text_features env c1 = Inr c2" and
    tv: "target_variable c2 = Inr (c, m)" and
    fr: "\<And>k. k \<notin> set (take 4 derived_columns) \<Longrightarrow> k \<notin> set date_columns \<Longrightarrow> k \<noteq> ''EnrollmentCount'' \<Longrightarrow>
                map_of b k = map_option clean_col (map_of df k)" by blast
  from categorical_features_Inr[OF c1] obtain t2 t3 where
    s2: "contains_flags (sponsor_flag b) ''Phase'' phase_flags = Inr t2" and
    s3: "contains_flags t2 ''StudyDesign'' design_flags = Inr t3" and
    s4: "contains_flags t3 ''LocationCountry'' country_flags = Inr c1" by blast
  have srcs: "src \<in> {''Phase'', ''StudyDesign'', ''LocationCountry''}"
    using assms(2) by (auto simp: contains_sources_def)
  have src_b: "map_of b src = Some (clean_col c0)"
    using fr[of src] srcs assms(4) by (auto simp: derived_columns_def date_columns_def)
  have src_s: "map_of (sponsor_flag b) src = Some (clean_col c0)"
    using src_b srcs by (auto simp: sponsor_flag_lookup split: option.splits)
  have src_2: "map_of t2 src = Some (clean_col c0)"
    using contains_flags_lookup[OF s2, of src] src_s srcs by (auto simp: phase_flags_def)
  have src_3: "map_of t3 src = Some (clean_col c0)"
    using contains_flags_lookup[OF s3, of src] src_2 srcs by (auto simp: design_flags_def)
  have src_4: "map_of c1 src = Some (clean_col c0)"
    using contains_flags_lookup[OF s4, of src] src_3 srcs by (auto simp: country_flags_def)
  have post: "map_of c j = map_of c1 j"
    if "j \<in> insert src (fst ` set (phase_flags @ design_flags @ country_flags))" for j
  proof -
    have "map_of c j = map_of c2 j"
      using target_variable_frame[OF tv, of j] that srcs
      by (auto simp: phase_flags_def design_flags_def country_flags_def)
    also have "\<dots> = map_of c1 j"
      using text_features_lookup[OF c2, of j] that srcs
      by (auto simp: text_columns_def phase_flags_def design_flags_def country_flags_def)
    finally show ?thesis .
  qed
  have dist: "distinct (map fst phase_flags)" "distinct (map fst design_flags)"
    "distinct (map fst country_flags)"
    by (simp_all add: phase_flags_def design_flags_def country_flags_def)
  from assms(2) consider
    (phase) "src = ''Phase''" "flags = phase_flags"
    | (design) "src = ''StudyDesign''" "flags = design_flags"
    | (country) "src = ''LocationCountry''" "flags = country_flags"
    by (auto simp: contains_sources_def)
  then have "\<exists>xs. clean_col c0 = ObjCol xs \<and>
      map_of c1 k = Some (astype_int (map (\<lambda>x. case x of None \<Rightarrow> False
                                              | Some s \<Rightarrow> contains_str pat s) xs))"
  proof cases
    case phase
    from contains_flags_value[OF s2 src_s[unfolded phase(1)] dist(1) assms(3)[unfolded phase(2)]]
    obtain xs where xs: "clean_col c0 = ObjCol xs" and
      v: "map_of t2 k = Some (astype_int (map (\<lambda>x. case x of None \<Rightarrow> False
                                              | Some s \<Rightarrow> contains_str pat s) xs))" by blast
    have "map_of c1 k = map_of t3 k"
      using contains_flags_lookup[OF s4, of k] assms(3) phase
      by (auto simp: phase_flags_def country_flags_def)
    also have "\<dots> = map_of t2 k"
      using contains_flags_lookup[OF s3, of k] assms(3) phase
      by (auto simp: phase_flags_def design_flags_def)
    finally show ?thesis using xs v by simp
  next
    case design
    from contains_flags_value[OF s3 src_2[unfolded design(1)] dist(2) assms(3)[unfolded design(2)]]
    obtain xs where xs: "clean_col c0 = ObjCol xs" and
      v: "map_of t3 k = Some (astype_int (map (\<lambda>x. case x of None \<Rightarrow> False
                                              | Some s \<Rightarrow> contains_str pat s) xs))" by blast
    have "map_of c1 k = map_of t3 k"
      using contains_flags_lookup[OF s4, of k] assms(3) design
      by (auto simp: design_flags_def country_flags_def)
    then show ?thesis using xs v by simp
  next
    case country
    from contains_flags_value[OF s4 src_3[unfolded country(1)] dist(3) assms(3)[unfolded country(2)]]
    show ?thesis by blast
  qed
  then obtain xs where xs: "clean_col c0 = ObjCol xs" and
    v: "map_of c1 k = Some (astype_int (map (\<lambda>x. case x of None \<Rightarrow> False
                                              | Some s \<Rightarrow> contains_str pat s) xs))" by blast
  have kmem: "k \<in> insert src (fst ` set (phase_flags @ design_flags @ country_flags))"
    using assms(2,3) by (force simp: contains_sources_def)
  have "map_of c k = map_of c1 k" by (rule post[OF kmem])
  moreover have "map_of c src = map_of c1 src" by (rule post) simp
  ultimately show ?thesis using xs v src_4 by simp
qed

lemma fe_text_length:
  assumes "feature_engineering env df = Inr (c, m)" "col \<in> set text_columns"
    "map_of df col = Some c0"
  shows "map_of c col = Some (clean_col c0) \<and>
         map_of c (col @ ''_length'') = Some (text_length env (clean_col c0))"
proof -
  from fe_before_flags[OF assms(1)] obtain b c1 c2 where
    c1: "categorical_features b = Inr c1" and
    c2: "text_features env c1 = Inr c2" and
    tv: "target_variable c2 = Inr (c, m)" and
    fr: "\<And>k. k \<notin> set (take 4 derived_columns) \<Longrightarrow> k \<notin> set date_columns \<Longrightarrow> k \<noteq> ''EnrollmentCount'' \<Longrightarrow>
                map_of b k = map_option clean_col (map_of df k)" by blast
  have cols: "col \<in> {''BriefTitle'', ''BriefSummary'', ''DetailedDescription''}"
    using assms(2) by (simp add: text_columns_def)
  have "map_of b col = Some (clean_col c0)"
    using fr[of col] cols assms(3) by (auto simp: derived_columns_def date_columns_def)
  then have src: "map_of c1 col = Some (clean_col c0)"
    using categorical_features_frame[OF c1, of col] cols
    by (auto simp: phase_flags_def design_flags_def country_flags_def)
  from text_features_value[OF c2 assms(2) src]
  have v: "map_of c2 (col @ ''_length'') = Some (text_length env (clean_col c0))" .
  have "map_of c2 col = map_of c1 col"
    using text_features_lookup[OF c2, of col] cols by (auto simp: text_columns_def)
  moreover have "map_of c col = map_of c2 col"
    using target_variable_frame[OF tv, of col] cols by auto
  moreover have "map_of c (col @ ''_length'') = map_of c2 (col @ ''_length'')"
    using target_variable_frame[OF tv, of "col @ ''_length''"] cols by auto
  ultimately show ?thesis using src v by simp
qed

lemma fe_before_target:
  assumes "feature_engineering env df = Inr (c, m)"
  shows "\<exists>c2. target_variable c2 = Inr (c, m) \<and>
           map_of c2 ''OverallStatus'' = map_option clean_col (map_of df ''OverallStatus'') \<and>
           map_of c2 ''completion_status'' = map_option clean_col (map_of df ''completion_status'')"
proof -
  from fe_before_flags[OF assms(1)] obtain b c1 c2 where
    c1: "categorical_features b = Inr c1" and
    c2: "text_features env c1 = Inr c2" and
    tv: "target_variable c2 = Inr (c, m)" and
    fr: "\<And>k. k \<notin> set (take 4 derived_columns) \<Longrightarrow> k \<notin> set date_columns \<Longrightarrow> k \<noteq> ''EnrollmentCount'' \<Longrightarrow>
                map_of b k = map_option clean_col (map_of df k)" by blast
  have "map_of c2 k = map_option clean_col (map_of df k)"
    if "k \<in> {''OverallStatus'', ''completion_status''}" for k
  proof -
    have "map_of c2 k = map_of c1 k"
      using text_features_lookup[OF c2, of k] that by (auto simp: text_columns_def)
    also have "\<dots> = map_of b k"
      using categorical_features_frame[OF c1, of k] that
      by (auto simp: phase_flags_def design_flags_def country_flags_def)
    also have "\<dots> = map_option clean_col (map_of df k)"
      using fr[of k] that by (auto simp: derived_columns_def date_columns_def)
    finally show ?thesis .
  qed
  with tv show ?thesis by blast
qed

lemma fe_status:
  assumes "feature_engineering env df = Inr (c, m)" "map_of df ''OverallStatus'' = Some c0"
    "\<not> has_col df ''completion_status''"
  shows "map_of c ''OverallStatus'' = Some (clean_col c0) \<and>
         map_of c ''completion_status'' = Some (astype_int (eq_str (clean_col c0) ''Completed'')) \<and>
         m = filter_rows (isin (clean_col c0) completed_statuses) c"
proof -
  from fe_before_target[OF assms(1)] obtain c2 where
    tv: "target_variable c2 = Inr (c, m)" and
    os: "map_of c2 ''OverallStatus'' = map_option clean_col (map_of df ''OverallStatus'')" and
    cs: "map_of c2 ''completion_status'' = map_option clean_col (map_of df ''completion_status'')"
    by blast
  have "\<not> has_col c2 ''completion_status''" "has_col c2 ''OverallStatus''"
    using os cs assms(2,3) by (auto simp: has_col_def)
  with target_variable_Inr[OF tv] os assms(2) show ?thesis by auto
qed

lemma fe_no_target:
  assumes "feature_engineering env df = Inr (c, m)"
    "has_col df ''completion_status'' \<or> \<not> has_col df ''OverallStatus''"
  shows "m = c"
proof -
  from fe_before_target[OF assms(1)] obtain c2 where
    tv: "target_variable c2 = Inr (c, m)" and
    os: "map_of c2 ''OverallStatus'' = map_option clean_col (map_of df ''OverallStatus'')" and
    cs: "map_of c2 ''completion_status'' = map_option clean_col (map_of df ''completion_status'')"
    by blast
  have "has_col c2 ''completion_status'' \<or> \<not> has_col c2 ''OverallStatus''"
    using os cs assms(2) by (auto simp: has_col_def)
  with target_variable_Inr[OF tv] show ?thesis by (auto simp: has_col_def)
qed

lemma indicator_sources_cases:
  assumes "(src, flag) \<in> set indicator_sources"
  shows "(src = ''LeadSponsorClass'' \<and> flag = ''is_industry_sponsored'') \<or>
         (\<exists>flags pat. (src, flags) \<in> set contains_sources \<and> (flag, pat) \<in> set flags)"
  using assms unfolding indicator_sources_def by auto

lemma indicator_sources_list:
  "indicator_sources =
     [(''LeadSponsorClass'', ''is_industry_sponsored''),
      (''Phase'', ''is_phase_1''), (''Phase'', ''is_phase_2''),
      (''Phase'', ''is_phase_3''), (''Phase'', ''is_phase_4''),
      (''StudyDesign'', ''is_randomized''), (''StudyDesign'', ''is_double_blind''),
      (''StudyDesign'', ''is_single_blind''), (''StudyDesign'', ''is_open_label''),
      (''LocationCountry'', ''is_multi_country''), (''LocationCountry'', ''has_us_sites'')]"
  by (simp add: indicator_sources_def contains_sources_def phase_flags_def design_flags_def
      country_flags_def)

lemma col_len_clean [simp]: "col_len (clean_col c) = col_len c"
  by (cases c) (simp_all add: clean_col_def)

lemma length_eq_str [simp]: "length (eq_str c s) = col_len c"
  by (cases c) simp_all

lemma fe_modeling_lookup:
  assumes "feature_engineering env df = Inr (c, m)" "map_of c k = Some (NumCol bs)"
  shows "\<exists>bs'. map_of m k = Some (NumCol bs') \<and> set bs' \<subseteq> set bs"
proof -
  from fe_modeling[OF assms(1)] consider "m = c" | msk where "m = filter_rows msk c" by blast
  then show ?thesis
  proof cases
    case 1
    then show ?thesis using assms(2) by simp
  next
    case 2
    have "map_of m k = Some (NumCol (keep msk bs))"
      unfolding 2 map_of_filter_rows assms(2) by simp
    then show ?thesis using set_keep[of msk bs] by blast
  qed
qed

subsection \<open>Text lengths of imputed columns\<close>

lemma text_length_obj:
  "text_length env (clean_col (ObjCol xs)) =
     NumCol (map (\<lambda>x. Some (of_nat (length
        (case x of None \<Rightarrow> (case mode_str (non_null xs) of None \<Rightarrow> [] | Some mv \<Rightarrow> mv)
         | Some s \<Rightarrow> s)))) xs)"
  by (auto simp: text_length_def clean_col_def fillna_def split: option.splits)

lemma non_null_all_missing: "set xs \<subseteq> {None} \<Longrightarrow> non_null xs = []"
  by (induction xs) (auto simp: non_null_def)

lemma text_length_all_missing:
  assumes "set xs \<subseteq> {None}"
  shows "text_length env (clean_col (NumCol xs)) = NumCol (map (\<lambda>x. Some 0) xs)"
proof -
  have "\<forall>x \<in> set xs. x = None" using assms by auto
  then show ?thesis
    by (auto simp: text_length_def clean_col_def fillna_def non_null_all_missing[OF assms] median_def)
qed

subsection \<open>Row selection\<close>

lemma keep_map_filter: "keep (map P xs) xs = filter P xs"
  using keep_map_self[where P = P and f = "\<lambda>x. x" and xs = xs] by simp

lemma isin_obj:
  "isin (ObjCol ss) vs = map (\<lambda>x. x \<in> Some ` set vs) ss"
  by (auto split: option.splits)

subsection \<open>Imputed object columns\<close>

lemma clean_obj: "clean_col (ObjCol xs) = ObjCol (fillna (mode_str (non_null xs)) xs)"
  by (simp add: clean_col_def)

lemma fillna_nth_missing: "i < length xs \<Longrightarrow> xs ! i = None \<Longrightarrow> fillna m xs ! i = m"
  by (simp add: fillna_def)

subsection \<open>Training frames\<close>

lemma keep_nths: "keep msk xs = nths xs {i. i < length msk \<and> msk ! i}"
proof (induction msk arbitrary: xs)
  case Nil
  then show ?case by (simp add: keep_def)
next
  case (Cons b msk)
  show ?case
  proof (cases xs)
    case Nil
    then show ?thesis by (simp add: keep_def)
  next
    case (Cons x xs')
    have "{j. Suc j \<in> {i. i < length (b # msk) \<and> (b # msk) ! i}} = {i. i < length msk \<and> msk ! i}"
      by auto
    moreover have "keep (b # msk) (x # xs') = (if b then [x] else []) @ keep msk xs'"
      by (simp add: keep_def)
    ultimately show ?thesis using Cons.IH[of xs'] by (simp add: Cons nths_Cons)
  qed
qed

lemma filter_col_select_rows:
  "filter_col msk c = select_rows {i. i < length msk \<and> msk ! i} c"
  by (cases c) (simp_all add: select_rows_def keep_nths)

lemma filter_col_map_select_rows:
  "filter_col (map P ss) c = select_rows {i. i < length ss \<and> P (ss ! i)} c"
proof -
  have "{i. i < length (map P ss) \<and> map P ss ! i} = {i. i < length ss \<and> P (ss ! i)}"
    by auto
  then show ?thesis by (simp only: filter_col_select_rows)
qed

lemma select_cols_lookup:
  "select_cols t ks = Inr r \<Longrightarrow> map_of r k = (if k \<in> set ks then map_of t k else None)"
proof (induction ks arbitrary: r)
  case Nil
  then show ?case by simp
next
  case (Cons a ks)
  from Cons.prems obtain c r' where c: "map_of t a = Some c" and
    r': "select_cols t ks = Inr r'" and r: "r = (a, c) # r'"
    by (auto simp: bind_err_Inr getcol_Inr)
  show ?case using Cons.IH[OF r'] c by (simp add: r)
qed

lemma features_targets_Inr:
  assumes "features_targets df = Inr (Xc, yc, Xr, yr)"
  shows "\<exists>s. map_of df ''overall_status'' = Some s \<and>
           select_cols (setcol (filter_rows (isin s [''Completed'', ''Terminated'']) df) ''is_completed''
                          (astype_int (eq_str (filter_col (isin s [''Completed'', ''Terminated'']) s) ''Completed'')))
             (filter (\<lambda>col. col \<notin> set exclude_cols) (map fst df)) = Inr Xc \<and>
           yc = astype_int (eq_str (filter_col (isin s [''Completed'', ''Terminated'']) s) ''Completed'') \<and>
           select_cols (filter_rows (eq_str s ''Completed'') df)
             (filter (\<lambda>col. col \<notin> set exclude_cols) (map fst df)) = Inr Xr \<and>
           map_of (filter_rows (eq_str s ''Completed'') df) ''duration_days'' = Some yr"
  using assms
  by (auto simp: features_targets_def bind_err_Inr getcol_Inr Let_def map_of_filter_rows)

text \<open>What the statements of the cell compute when they run: the rows of the two feature
  matrices and of the targets.\<close>

lemma features_targets_rows:
  assumes "features_targets df_modeling = Inr (X_classification, y_classification, X_regression, y_regression)"
    and "map_of df_modeling ''overall_status'' = Some (ObjCol ss)"
  shows "(\<forall>k col. map_of df_modeling k = Some col \<and> k \<notin> set exclude_cols \<longrightarrow>
            map_of X_classification k =
              Some (select_rows {i. i < length ss \<and> (ss ! i = Some ''Completed'' \<or> ss ! i = Some ''Terminated'')} col) \<and>
            map_of X_regression k =
              Some (select_rows {i. i < length ss \<and> ss ! i = Some ''Completed''} col)) \<and>
         (\<forall>k. k \<in> set exclude_cols \<or> \<not> has_col df_modeling k \<longrightarrow>
            map_of X_classification k = None \<and> map_of X_regression k = None) \<and>
         y_classification =
           NumCol (map (\<lambda>x. Some (if x = Some ''Completed'' then 1 else 0))
                     (filter (\<lambda>x. x = Some ''Completed'' \<or> x = Some ''Terminated'') ss)) \<and>
         (\<exists>ds. map_of df_modeling ''duration_days'' = Some ds \<and>
            y_regression = select_rows {i. i < length ss \<and> ss ! i = Some ''Completed''} ds)"
proof -
  let ?mc = "map (\<lambda>x. x = Some ''Completed'' \<or> x = Some ''Terminated'') ss"
  let ?mr = "map (\<lambda>x. x = Some ''Completed'') ss"
  let ?fc = "filter (\<lambda>col. col \<notin> set exclude_cols) (map fst df_modeling)"
  have mc: "isin (ObjCol ss) [''Completed'', ''Terminated''] = ?mc"
    by (auto split: option.splits)
  have mr: "eq_str (ObjCol ss) ''Completed'' = ?mr" by simp
  from features_targets_Inr[OF assms(1)] assms(2) have
    xc: "select_cols (setcol (filter_rows ?mc df_modeling) ''is_completed''
                          (astype_int (eq_str (filter_col ?mc (ObjCol ss)) ''Completed''))) ?fc
           = Inr X_classification" and
    yc: "y_classification = astype_int (eq_str (filter_col ?mc (ObjCol ss)) ''Completed'')" and
    xr: "select_cols (filter_rows ?mr df_modeling) ?fc = Inr X_regression" and
    yr: "map_of (filter_rows ?mr df_modeling) ''duration_days'' = Some y_regression"
    unfolding mc[symmetric] mr[symmetric] by auto
  have sc: "{i. i < length ?mc \<and> ?mc ! i} =
              {i. i < length ss \<and> (ss ! i = Some ''Completed'' \<or> ss ! i = Some ''Terminated'')}"
    by auto
  have sr: "{i. i < length ?mr \<and> ?mr ! i} = {i. i < length ss \<and> ss ! i = Some ''Completed''}"
    by auto
  have fc: "k \<in> set ?fc \<longleftrightarrow> has_col df_modeling k \<and> k \<notin> set exclude_cols" for k
    by (auto simp: has_col_keys)
  have 1: "map_of X_classification k =
             Some (select_rows {i. i < length ss \<and> (ss ! i = Some ''Completed'' \<or> ss ! i = Some ''Terminated'')} col) \<and>
           map_of X_regression k = Some (select_rows {i. i < length ss \<and> ss ! i = Some ''Completed''} col)"
    if "map_of df_modeling k = Some col" "k \<notin> set exclude_cols" for k col
  proof -
    have "has_col df_modeling k" using that(1) by (simp add: has_col_def)
    then have k: "k \<in> set ?fc" using that(2) fc by blast
    have ne: "k \<noteq> ''is_completed''" using that(2) by (auto simp: exclude_cols_def)
    show ?thesis
      using select_cols_lookup[OF xc, of k] select_cols_lookup[OF xr, of k] k ne that(1)
      by (simp add: map_of_filter_rows filter_col_map_select_rows del: set_filter)
  qed
  have 2: "map_of X_classification k = None \<and> map_of X_regression k = None"
    if "k \<in> set exclude_cols \<or> \<not> has_col df_modeling k" for k
  proof -
    have k: "k \<notin> set ?fc" using that fc by blast
    show ?thesis using select_cols_lookup[OF xc, of k] select_cols_lookup[OF xr, of k] k
      by (simp del: set_filter)
  qed
  have 3: "y_classification =
           NumCol (map (\<lambda>x. Some (if x = Some ''Completed'' then 1 else 0))
                     (filter (\<lambda>x. x = Some ''Completed'' \<or> x = Some ''Terminated'') ss))"
    unfolding yc by (simp add: keep_map_filter astype_int_def comp_def)
  have 4: "\<exists>ds. map_of df_modeling ''duration_days'' = Some ds \<and>
            y_regression = select_rows {i. i < length ss \<and> ss ! i = Some ''Completed''} ds"
    using yr by (auto simp: map_of_filter_rows filter_col_map_select_rows)
  from 1 2 3 4 show ?thesis by blast
qed

lemma features_targets_ex:
  "features_targets df_training_ex =
     Inr ([(''EnrollmentCount'', NumCol [Some 1, Some 2, Some 5])], NumCol [Some 1, Some 0, Some 1],
          [(''EnrollmentCount'', NumCol [Some 1, Some 5])], NumCol [Some 10, Some 50])"
  by code_simp

subsection \<open>Stored cells\<close>

lemma features_targets_source_open:
  "filter (\<lambda>line. \<not> ends_outside_literal None line) features_targets_source =
     [''print(\"'', ''Class distribution for completion status:\")'']"
  by code_simp

lemma classification_source_open:
  "filter (\<lambda>line. \<not> ends_outside_literal None line) classification_source =
     [''print(\"'', ''Classification Model Performance:\")'',
      ''print(f\"'', ''Best classification model: {best_classification_model_name}\")'']"
  by code_simp

lemma regression_source_open:
  "filter (\<lambda>line. \<not> ends_outside_literal None line) regression_source =
     [''print(\"'', ''Regression Model Performance:\")'',
      ''print(f\"'', ''Best regression model: {best_regression_model_name}\")'']"
  by code_simp

lemma compiles_iff: "compiles source \<longleftrightarrow> filter (\<lambda>line. \<not> ends_outside_literal None line) source = []"
  by (simp add: compiles_def list_all_iff filter_empty_conv)

lemma stored_cells_do_not_compile:
  "\<not> compiles features_targets_source" "\<not> compiles classification_source"
  "\<not> compiles regression_source"
  by (simp_all add: compiles_iff features_targets_source_open classification_source_open
      regression_source_open)

subsection \<open>Descending sort of the metrics\<close>

lemma present_keys_Nil [simp]: "present_keys n [] = []"
  by (simp add: present_keys_def)

lemma present_keys_Cons [simp]:
  "present_keys n (x # xs) = (case x of None \<Rightarrow> [] | Some v \<Rightarrow> [(n, v)]) @ present_keys (Suc n) xs"
  by (cases x) (simp_all add: present_keys_def)

lemma present_keys_set:
  "(i, v) \<in> set (present_keys n vs) \<longleftrightarrow> n \<le> i \<and> i < n + length vs \<and> vs ! (i - n) = Some v"
proof (induction vs arbitrary: n)
  case Nil
  then show ?case by simp
next
  case (Cons x xs)
  have tl: "(i, v) \<in> set (present_keys (Suc n) xs) \<longleftrightarrow>
              Suc n \<le> i \<and> i < n + length (x # xs) \<and> (x # xs) ! (i - n) = Some v"
    unfolding Cons.IH by (auto simp: Suc_diff_Suc less_eq_Suc_le)
  show ?case
  proof (cases "i = n")
    case True
    then show ?thesis using tl by (cases x) auto
  next
    case False
    then show ?thesis using tl by (cases x) auto
  qed
qed

lemma sorted_le_last: "sorted xs \<Longrightarrow> x \<in> set xs \<Longrightarrow> x \<le> last xs"
  by (induction xs) auto

lemma nargsort_desc_hd:
  fixes vs :: "('a::linorder) option list"
  assumes "Some v \<in> set vs"
    and "sorts_ascending argsort (rev (map snd (present_keys 0 vs)))"
  shows "\<exists>i best rest. nargsort_desc argsort vs = i # rest \<and> i < length vs \<and> vs ! i = Some best \<and>
           (\<forall>j w. j < length vs \<and> vs ! j = Some w \<longrightarrow> w \<le> best)"
proof -
  let ?nn = "present_keys 0 vs"
  let ?keys = "rev (map snd ?nn)"
  let ?idxs = "rev (map fst ?nn)"
  let ?perm = "argsort ?keys"
  from assms(1) obtain k where "k < length vs" "vs ! k = Some v" by (auto simp: in_set_conv_nth)
  then have "(k, v) \<in> set ?nn" by (simp add: present_keys_set)
  then have nn: "?nn \<noteq> []" by auto
  from assms(2) have srt: "sort ?perm = [0..<length ?keys]"
    and asc: "sorted (map (\<lambda>p. ?keys ! p) ?perm)"
    by (simp_all add: sorts_ascending_def)
  have "set ?perm = set (sort ?perm)" by simp
  then have sp: "set ?perm = {0..<length ?nn}" unfolding srt by simp
  with nn have pne: "?perm \<noteq> []" by auto
  define p where "p = last ?perm"
  have "p \<in> set ?perm" unfolding p_def using pne by (rule last_in_set)
  then have pl: "p < length ?nn" using sp by simp
  define i where "i = ?idxs ! p"
  define best where "best = ?keys ! p"
  have "rev ?nn ! p \<in> set (rev ?nn)" using pl by (intro nth_mem) simp
  moreover have "rev ?nn ! p = (i, best)"
    using pl by (simp add: i_def best_def rev_map prod_eq_iff)
  ultimately have "(i, best) \<in> set ?nn" by simp
  then have ib: "i < length vs" "vs ! i = Some best" by (simp_all add: present_keys_set)
  have mx: "w \<le> best" if "j < length vs" "vs ! j = Some w" for j w
  proof -
    have "(j, w) \<in> set ?nn" using that by (simp add: present_keys_set)
    then have "w \<in> set ?keys" by force
    then obtain q where q: "q < length ?keys" "?keys ! q = w"
      unfolding in_set_conv_nth by blast
    then have "q \<in> set ?perm" using sp by simp
    then have "w \<in> set (map (\<lambda>p. ?keys ! p) ?perm)" using q(2) by force
    with asc have "w \<le> last (map (\<lambda>p. ?keys ! p) ?perm)" by (rule sorted_le_last)
    then show ?thesis using pne by (simp add: last_map best_def p_def)
  qed
  have e: "?perm = butlast ?perm @ [p]" unfolding p_def using pne by simp
  have "rev (map (\<lambda>p. ?idxs ! p) ?perm) = rev (map (\<lambda>p. ?idxs ! p) (butlast ?perm @ [p]))"
    by (rule arg_cong[where f = "\<lambda>x. rev (map (\<lambda>p. ?idxs ! p) x)", OF e])
  also have "\<dots> = i # rev (map (\<lambda>p. ?idxs ! p) (butlast ?perm))" by (simp add: i_def)
  finally have "nargsort_desc argsort vs =
      i # (rev (map (\<lambda>p. ?idxs ! p) (butlast ?perm)) @
           map fst (filter (\<lambda>(i, x). x = None) (enumerate 0 vs)))"
    by (simp add: nargsort_desc_def present_keys_def Let_def)
  with ib mx show ?thesis by blast
qed

text \<open>When they run, the two statements give the name of a candidate whose metric is the
  greatest, whatever permutation the sort returns among equal keys.\<close>

lemma first_sorted_max:
  assumes "map_of (frame_columns metrics) key = Some (NumCol vs)"
    and "length (frame_index metrics) = length vs"
    and "Some v \<in> set vs"
    and "sorts_ascending (argsort_num np) (rev (map snd (present_keys 0 vs)))"
  shows "\<exists>i best. i < length vs \<and> vs ! i = Some best \<and>
           (\<forall>j w. j < length vs \<and> vs ! j = Some w \<longrightarrow> w \<le> best) \<and>
           first_sorted np metrics key = Inr (frame_index metrics ! i)"
proof -
  from nargsort_desc_hd[OF assms(3,4)] obtain i best rest where
    h: "nargsort_desc (argsort_num np) vs = i # rest" and
    p: "i < length vs" "vs ! i = Some best"
       "\<forall>j w. j < length vs \<and> vs ! j = Some w \<longrightarrow> w \<le> best" by blast
  have "first_sorted np metrics key = Inr (frame_index metrics ! i)"
    using assms(1) h
    by (simp add: first_sorted_def sort_values_desc_def getcol_def Let_def)
  with p show ?thesis by blast
qed

text \<open>Which of two candidates with the same greatest metric they name depends on that
  permutation: on the metrics of the example one sort names the second candidate, another
  the third.\<close>

lemma first_sorted_tie_ex:
  "sorts_ascending (argsort_num numpy_stable_ex) [3 / 4, 3 / 4, 1 / 2]"
  "sorts_ascending (argsort_num numpy_unstable_ex) [3 / 4, 3 / 4, 1 / 2]"
  "first_sorted numpy_stable_ex metrics_ex ''f1_score'' = Inr ''Random Forest''"
  "first_sorted numpy_unstable_ex metrics_ex ''f1_score'' = Inr ''Gradient Boosting''"
  by code_simp+

subsection \<open>Columns that a run writes\<close>

lemma start_features_skip:
  "start_features t = Inr t' \<Longrightarrow> \<not> has_col t ''StartDate'' \<Longrightarrow> t' = t"
  by (drule start_features_Inr) (auto simp: has_col_def)

lemma trial_duration_skip:
  "trial_duration t = Inr t' \<Longrightarrow> has_col t ''trial_duration_days'' \<or> \<not> has_col t ''CompletionDate'' \<Longrightarrow> t' = t"
  by (drule trial_duration_Inr) (auto simp: has_col_def)

lemma contains_flags_skip:
  "contains_flags t src flags = Inr t' \<Longrightarrow> \<not> has_col t src \<Longrightarrow> t' = t"
  by (auto simp: contains_flags_def has_col_def split: option.splits)

lemma sponsor_flag_skip: "\<not> has_col t ''LeadSponsorClass'' \<Longrightarrow> sponsor_flag t = t"
  by (auto simp: sponsor_flag_def has_col_def split: option.splits)

lemma text_features_unwritten:
  assumes "text_features env t = Inr t'"
    "k \<notin> (\<lambda>c. c @ ''_length'') ` set (filter (has_col t) text_columns)"
  shows "map_of t' k = map_of t k"
proof (cases "filter (has_col t) text_columns = []")
  case True
  then show ?thesis using assms(1) by (simp add: text_features_def)
next
  case False
  then have "add_lengths env t (filter (has_col t) text_columns) = Inr t'"
    using assms(1) by (simp add: text_features_def Let_def bind_err_Inr)
  from add_lengths_lookup[OF this assms(2)] show ?thesis .
qed

lemma target_variable_skip:
  "target_variable t = Inr (c, m) \<Longrightarrow> has_col t ''completion_status'' \<or> \<not> has_col t ''OverallStatus'' \<Longrightarrow>
     c = t"
  by (drule target_variable_Inr) (auto simp: has_col_def)

text \<open>The stages of a run, and the presence of the source columns at each of them.\<close>

lemma fe_stage_sources:
  assumes "feature_engineering env df = Inr (c, m)"
  obtains a b1 b t2 t3 c1 c2 where
    "handle_missing env df = Inr a"
    "start_features (convert_dates env a) = Inr b1"
    "trial_duration b1 = Inr b"
    "contains_flags (sponsor_flag b) ''Phase'' phase_flags = Inr t2"
    "contains_flags t2 ''StudyDesign'' design_flags = Inr t3"
    "contains_flags t3 ''LocationCountry'' country_flags = Inr c1"
    "text_features env c1 = Inr c2"
    "target_variable c2 = Inr (c, m)"
    "has_col (convert_dates env a) ''StartDate'' = has_col df ''StartDate''"
    "has_col b1 ''trial_duration_days'' = has_col df ''trial_duration_days''"
    "has_col b1 ''CompletionDate'' = has_col df ''CompletionDate''"
    "has_col b ''LeadSponsorClass'' = has_col df ''LeadSponsorClass''"
    "has_col (sponsor_flag b) ''Phase'' = has_col df ''Phase''"
    "has_col t2 ''StudyDesign'' = has_col df ''StudyDesign''"
    "has_col t3 ''LocationCountry'' = has_col df ''LocationCountry''"
    "\<forall>col \<in> set text_columns. has_col c1 col = has_col df col"
    "has_col c2 ''completion_status'' = has_col df ''completion_status''"
    "has_col c2 ''OverallStatus'' = has_col df ''OverallStatus''"
proof -
  from fe_stages[OF assms(1)] obtain a b1 b c1 c2 where
    a: "handle_missing env df = Inr a" and
    b1: "start_features (convert_dates env a) = Inr b1" and
    b: "trial_duration b1 = Inr b" and
    c1: "categorical_features b = Inr c1" and
    c2: "text_features env c1 = Inr c2" and
    tv: "target_variable c2 = Inr (c, m)" by blast
  from categorical_features_Inr[OF c1] obtain t2 t3 where
    s2: "contains_flags (sponsor_flag b) ''Phase'' phase_flags = Inr t2" and
    s3: "contains_flags t2 ''StudyDesign'' design_flags = Inr t3" and
    s4: "contains_flags t3 ''LocationCountry'' country_flags = Inr c1" by blast
  from handle_missing_lookup[OF a]
  have ha: "has_col a k = has_col df k" if "k \<noteq> ''EnrollmentCount''" for k
    using that by (auto simp: has_col_def)
  have hcv: "has_col (convert_dates env a) k = has_col df k" if "k \<noteq> ''EnrollmentCount''" for k
    using ha[OF that] by (simp add: has_col_def convert_dates_lookup)
  have hb1: "has_col b1 k = has_col df k"
    if "k \<noteq> ''EnrollmentCount''" "k \<notin> {''start_year'', ''start_month'', ''start_quarter''}" for k
    using start_features_frame[OF b1 that(2)] hcv[OF that(1)] by (simp add: has_col_def)
  have hb: "has_col b k = has_col df k"
    if "k \<noteq> ''EnrollmentCount''" "k \<notin> set (take 4 derived_columns)" for k
  proof -
    have "map_of b k = map_of b1 k"
      using trial_duration_frame[OF b, of k] that(2) by (simp add: derived_columns_def)
    then show ?thesis using hb1[of k] that by (simp add: has_col_def derived_columns_def)
  qed
  have hs: "has_col (sponsor_flag b) k = has_col df k"
    if "k \<noteq> ''EnrollmentCount''" "k \<notin> set (take 5 derived_columns)" for k
    using hb[of k] that
    by (auto simp: has_col_def sponsor_flag_lookup derived_columns_def split: option.splits)
  have h2: "has_col t2 k = has_col df k"
    if "k \<noteq> ''EnrollmentCount''" "k \<notin> set (take 9 derived_columns)" for k
    using contains_flags_lookup[OF s2, of k] hs[of k] that
    by (simp add: has_col_def derived_columns_def phase_flags_def)
  have h3: "has_col t3 k = has_col df k"
    if "k \<noteq> ''EnrollmentCount''" "k \<notin> set (take 13 derived_columns)" for k
    using contains_flags_lookup[OF s3, of k] h2[of k] that
    by (simp add: has_col_def derived_columns_def design_flags_def)
  have h4: "has_col c1 k = has_col df k"
    if "k \<noteq> ''EnrollmentCount''" "k \<notin> set (take 15 derived_columns)" for k
    using contains_flags_lookup[OF s4, of k] h3[of k] that
    by (simp add: has_col_def derived_columns_def country_flags_def)
  have h5: "has_col c2 k = has_col df k"
    if "k \<noteq> ''EnrollmentCount''" "k \<notin> set (take 18 derived_columns)" for k
    using text_features_lookup[OF c2, of k] h4[of k] that
    by (simp add: has_col_def derived_columns_def text_columns_def)
  have f1: "has_col (convert_dates env a) ''StartDate'' = has_col df ''StartDate''"
    by (rule hcv) simp
  have f2: "has_col b1 ''trial_duration_days'' = has_col df ''trial_duration_days''"
    by (rule hb1) simp_all
  have f3: "has_col b1 ''CompletionDate'' = has_col df ''CompletionDate''"
    by (rule hb1) simp_all
  have f4: "has_col b ''LeadSponsorClass'' = has_col df ''LeadSponsorClass''"
    by (rule hb) (simp_all add: derived_columns_def)
  have f5: "has_col (sponsor_flag b) ''Phase'' = has_col df ''Phase''"
    by (rule hs) (simp_all add: derived_columns_def)
  have f6: "has_col t2 ''StudyDesign'' = has_col df ''StudyDesign''"
    by (rule h2) (simp_all add: derived_columns_def)
  have f7: "has_col t3 ''LocationCountry'' = has_col df ''LocationCountry''"
    by (rule h3) (simp_all add: derived_columns_def)
  have f8: "\<forall>col \<in> set text_columns. has_col c1 col = has_col df col"
    using h4 by (simp add: text_columns_def derived_columns_def)
  have f9: "has_col c2 ''completion_status'' = has_col df ''completion_status''"
    by (rule h5) (simp_all add: derived_columns_def)
  have f10: "has_col c2 ''OverallStatus'' = has_col df ''OverallStatus''"
    by (rule h5) (simp_all add: derived_columns_def)
  show ?thesis by (rule that[OF a b1 b s2 s3 s4 c2 tv f1 f2 f3 f4 f5 f6 f7 f8 f9 f10])
qed

lemma fe_unwritten:
  assumes "feature_engineering env df = Inr (c, m)"
    and "k \<notin> set (written_columns df)" "k \<notin> set date_columns" "k \<noteq> ''EnrollmentCount''"
  shows "map_of c k = map_option clean_col (map_of df k)"
proof -
  from assms(1) obtain a b1 b t2 t3 c1 c2 where
    a: "handle_missing env df = Inr a" and
    b1: "start_features (convert_dates env a) = Inr b1" and
    b: "trial_duration b1 = Inr b" and
    s2: "contains_flags (sponsor_flag b) ''Phase'' phase_flags = Inr t2" and
    s3: "contains_flags t2 ''StudyDesign'' design_flags = Inr t3" and
    s4: "contains_flags t3 ''LocationCountry'' country_flags = Inr c1" and
    c2: "text_features env c1 = Inr c2" and
    tv: "target_variable c2 = Inr (c, m)" and
    hsd: "has_col (convert_dates env a) ''StartDate'' = has_col df ''StartDate''" and
    hdur: "has_col b1 ''trial_duration_days'' = has_col df ''trial_duration_days''" and
    hcd: "has_col b1 ''CompletionDate'' = has_col df ''CompletionDate''" and
    hls: "has_col b ''LeadSponsorClass'' = has_col df ''LeadSponsorClass''" and
    hph: "has_col (sponsor_flag b) ''Phase'' = has_col df ''Phase''" and
    hde: "has_col t2 ''StudyDesign'' = has_col df ''StudyDesign''" and
    hlc: "has_col t3 ''LocationCountry'' = has_col df ''LocationCountry''" and
    htx: "\<forall>col \<in> set text_columns. has_col c1 col = has_col df col" and
    hcs: "has_col c2 ''completion_status'' = has_col df ''completion_status''" and
    hos: "has_col c2 ''OverallStatus'' = has_col df ''OverallStatus''"
    by (rule fe_stage_sources)
  note w = assms(2)[unfolded written_columns_def]
  have "map_of c k = map_of c2 k"
  proof (cases "\<not> has_col df ''completion_status'' \<and> has_col df ''OverallStatus''")
    case True
    with w have "k \<noteq> ''completion_status''" by auto
    from target_variable_frame[OF tv this] show ?thesis .
  next
    case False
    with target_variable_skip[OF tv] hcs hos show ?thesis by auto
  qed
  also have "\<dots> = map_of c1 k"
  proof -
    have "filter (has_col c1) text_columns = filter (has_col df) text_columns"
      using htx by (auto intro: filter_cong)
    with w have "k \<notin> (\<lambda>c. c @ ''_length'') ` set (filter (has_col c1) text_columns)" by auto
    from text_features_unwritten[OF c2 this] show ?thesis .
  qed
  also have "\<dots> = map_of t3 k"
  proof (cases "has_col df ''LocationCountry''")
    case True
    with w have "k \<notin> fst ` set country_flags" by (auto simp: contains_sources_def)
    from contains_flags_lookup[OF s4 this] show ?thesis .
  next
    case False
    with contains_flags_skip[OF s4] hlc show ?thesis by simp
  qed
  also have "\<dots> = map_of t2 k"
  proof (cases "has_col df ''StudyDesign''")
    case True
    with w have "k \<notin> fst ` set design_flags" by (auto simp: contains_sources_def)
    from contains_flags_lookup[OF s3 this] show ?thesis .
  next
    case False
    with contains_flags_skip[OF s3] hde show ?thesis by simp
  qed
  also have "\<dots> = map_of (sponsor_flag b) k"
  proof (cases "has_col df ''Phase''")
    case True
    with w have "k \<notin> fst ` set phase_flags" by (auto simp: contains_sources_def)
    from contains_flags_lookup[OF s2 this] show ?thesis .
  next
    case False
    with contains_flags_skip[OF s2] hph show ?thesis by simp
  qed
  also have "\<dots> = map_of b k"
  proof (cases "has_col df ''LeadSponsorClass''")
    case True
    with w have "k \<noteq> ''is_industry_sponsored''" by auto
    then show ?thesis by (simp add: sponsor_flag_lookup split: option.splits)
  next
    case False
    with sponsor_flag_skip hls show ?thesis by simp
  qed
  also have "\<dots> = map_of b1 k"
  proof (cases "\<not> has_col df ''trial_duration_days'' \<and> has_col df ''CompletionDate''")
    case True
    with w have "k \<noteq> ''trial_duration_days''" by auto
    from trial_duration_frame[OF b this] show ?thesis .
  next
    case False
    with trial_duration_skip[OF b] hdur hcd show ?thesis by auto
  qed
  also have "\<dots> = map_of (convert_dates env a) k"
  proof (cases "has_col df ''StartDate''")
    case True
    with w have "k \<notin> {''start_year'', ''start_month'', ''start_quarter''}" by auto
    from start_features_frame[OF b1 this] show ?thesis .
  next
    case False
    with start_features_skip[OF b1] hsd show ?thesis by simp
  qed
  also have "\<dots> = map_of a k" using assms(3) by (simp add: convert_dates_lookup)
  also have "\<dots> = map_option clean_col (map_of df k)"
    using handle_missing_lookup[OF a] assms(4) by auto
  finally show ?thesis .
qed

lemma fillna_None: "fillna None xs = xs"
  by (induction xs) (auto simp: fillna_def split: option.splits)

lemma fillna_Some_no_None: "None \<notin> set (fillna (Some v) xs)"
  by (auto simp: fillna_def split: option.splits)

lemma clean_col_idem: "clean_col (clean_col c) = clean_col c"
proof (cases c)
  case (NumCol xs)
  show ?thesis
  proof (cases "median (non_null xs)")
    case None
    then show ?thesis by (simp add: NumCol clean_col_def fillna_None)
  next
    case (Some v)
    then show ?thesis using fillna_Some_no_None[of v xs] by (simp add: NumCol clean_col_def fillna_id)
  qed
next
  case (ObjCol xs)
  show ?thesis
  proof (cases "mode_str (non_null xs)")
    case None
    then show ?thesis by (simp add: ObjCol clean_col_def fillna_None)
  next
    case (Some v)
    then show ?thesis using fillna_Some_no_None[of v xs] by (simp add: ObjCol clean_col_def fillna_id)
  qed
next
  case (DateCol xs)
  then show ?thesis by (simp add: clean_col_def)
qed

lemma clean_astype_int: "clean_col (astype_int bs) = astype_int bs"
  by (auto simp: clean_col_def astype_int_def intro!: fillna_id)

lemma clean_text_length: "clean_col (text_length env c) = text_length env c"
  by (auto simp: clean_col_def text_length_def intro!: fillna_id)

lemma clean_duration_col: "clean_col (duration_col cs ss) = duration_col cs ss"
proof -
  let ?ds = "mask_negative (map (\<lambda>(x, y). td_days x y) (zip cs ss))"
  have "clean_col (clean_col (NumCol ?ds)) = clean_col (NumCol ?ds)" by (rule clean_col_idem)
  then show ?thesis by (simp add: duration_col_def Let_def clean_col_def)
qed

lemma clean_to_datetime: "to_datetime env (clean_col (to_datetime env c)) = to_datetime env c"
  by (cases c) (simp_all add: clean_col_def)

lemma clean_to_numeric:
  "clean_col (to_numeric env (clean_col (to_numeric env c))) = clean_col (to_numeric env c)"
proof -
  obtain ys where ys: "to_numeric env c = NumCol ys" by (cases c) auto
  obtain zs where zs: "clean_col (NumCol ys) = NumCol zs" by (simp add: clean_col_def)
  have "clean_col (clean_col (NumCol ys)) = clean_col (NumCol ys)" by (rule clean_col_idem)
  then show ?thesis by (simp add: ys zs)
qed

lemma fe_start:
  assumes "feature_engineering env df = Inr (c, m)" "map_of df ''StartDate'' = Some c0"
  shows "\<exists>ds. to_datetime env (clean_col c0) = DateCol ds \<and>
           map_of c ''StartDate'' = Some (DateCol ds) \<and>
           map_of c ''start_year'' = Some (NumCol (map (map_option dt_year) ds)) \<and>
           map_of c ''start_month'' = Some (NumCol (map (map_option dt_month) ds)) \<and>
           map_of c ''start_quarter'' = Some (NumCol (map (map_option dt_quarter) ds))"
proof -
  from fe_stages[OF assms(1)] obtain a b1 b c1 c2 where
    a: "handle_missing env df = Inr a" and
    b1: "start_features (convert_dates env a) = Inr b1" and
    b: "trial_duration b1 = Inr b" and
    c1: "categorical_features b = Inr c1" and
    c2: "text_features env c1 = Inr c2" and
    tv: "target_variable c2 = Inr (c, m)" by blast
  have fr: "map_of c k = map_of b1 k"
    if "k \<notin> set (drop 3 derived_columns)" for k
  proof -
    have "map_of c k = map_of c2 k"
      using target_variable_frame[OF tv] that by (simp add: derived_columns_def)
    also have "\<dots> = map_of c1 k"
      using text_features_lookup[OF c2] that by (simp add: derived_columns_def text_columns_def)
    also have "\<dots> = map_of b k"
      using categorical_features_frame[OF c1] that
      by (simp add: derived_columns_def phase_flags_def design_flags_def country_flags_def)
    also have "\<dots> = map_of b1 k"
      using trial_duration_frame[OF b] that by (simp add: derived_columns_def)
    finally show ?thesis .
  qed
  from handle_missing_lookup[OF a] assms(2)
  have "map_of a ''StartDate'' = Some (clean_col c0)" by auto
  then have sd: "map_of (convert_dates env a) ''StartDate'' = Some (to_datetime env (clean_col c0))"
    by (simp add: convert_dates_lookup date_columns_def)
  from start_features_Inr[OF b1] sd obtain ds where
    ds: "to_datetime env (clean_col c0) = DateCol ds" and
    bb: "b1 = setcol (setcol (setcol (convert_dates env a) ''start_year'' (NumCol (map (map_option dt_year) ds)))
                    ''start_month'' (NumCol (map (map_option dt_month) ds)))
                    ''start_quarter'' (NumCol (map (map_option dt_quarter) ds))"
    by auto
  have "map_of c ''StartDate'' = map_of b1 ''StartDate''"
    "map_of c ''start_year'' = map_of b1 ''start_year''"
    "map_of c ''start_month'' = map_of b1 ''start_month''"
    "map_of c ''start_quarter'' = map_of b1 ''start_quarter''"
    by (rule fr, simp add: derived_columns_def)+
  then show ?thesis using ds sd by (simp add: bb)
qed

lemma concat_flags_iff:
  "k \<in> set (concat (map (\<lambda>(src, flags). if P src then map fst flags else []) L)) \<longleftrightarrow>
     (\<exists>p \<in> set L. P (fst p) \<and> k \<in> fst ` set (snd p))"
  by (induction L) (force split: if_splits)+

lemma written_columns_iff:
  "k \<in> set (written_columns df) \<longleftrightarrow>
     (has_col df ''StartDate'' \<and> k \<in> {''start_year'', ''start_month'', ''start_quarter''}) \<or>
     (\<not> has_col df ''trial_duration_days'' \<and> has_col df ''CompletionDate'' \<and> k = ''trial_duration_days'') \<or>
     (has_col df ''LeadSponsorClass'' \<and> k = ''is_industry_sponsored'') \<or>
     (\<exists>p \<in> set contains_sources. has_col df (fst p) \<and> k \<in> fst ` set (snd p)) \<or>
     (\<exists>col \<in> set text_columns. has_col df col \<and> k = col @ ''_length'') \<or>
     (\<not> has_col df ''completion_status'' \<and> has_col df ''OverallStatus'' \<and> k = ''completion_status'')"
proof -
  have 1: "k \<in> set (if has_col df ''StartDate'' then [''start_year'', ''start_month'', ''start_quarter''] else [])
        \<longleftrightarrow> has_col df ''StartDate'' \<and> k \<in> {''start_year'', ''start_month'', ''start_quarter''}"
    by simp
  have 2: "k \<in> set (if \<not> has_col df ''trial_duration_days'' \<and> has_col df ''CompletionDate''
                      then [''trial_duration_days''] else [])
        \<longleftrightarrow> \<not> has_col df ''trial_duration_days'' \<and> has_col df ''CompletionDate'' \<and> k = ''trial_duration_days''"
    by auto
  have 3: "k \<in> set (if has_col df ''LeadSponsorClass'' then [''is_industry_sponsored''] else [])
        \<longleftrightarrow> has_col df ''LeadSponsorClass'' \<and> k = ''is_industry_sponsored''"
    by auto
  have 4: "k \<in> set (concat (map (\<lambda>(src, flags). if has_col df src then map fst flags else []) contains_sources))
        \<longleftrightarrow> (\<exists>p \<in> set contains_sources. has_col df (fst p) \<and> k \<in> fst ` set (snd p))"
    by (rule concat_flags_iff)
  have 5: "k \<in> set (map (\<lambda>col. col @ ''_length'') (filter (has_col df) text_columns))
        \<longleftrightarrow> (\<exists>col \<in> set text_columns. has_col df col \<and> k = col @ ''_length'')"
    by auto
  have 6: "k \<in> set (if \<not> has_col df ''completion_status'' \<and> has_col df ''OverallStatus''
                      then [''completion_status''] else [])
        \<longleftrightarrow> \<not> has_col df ''completion_status'' \<and> has_col df ''OverallStatus'' \<and> k = ''completion_status''"
    by auto
  show ?thesis
    unfolding written_columns_def set_append Un_iff 1 2 3 4 5 6 by (rule refl)
qed

lemma contains_sources_keys:
  assumes "p \<in> set contains_sources" "k \<in> fst ` set (snd p)"
  shows "k \<in> set derived_columns" "fst p \<notin> set derived_columns" "fst p \<noteq> ''EnrollmentCount''"
    "fst p \<notin> set date_columns"
proof -
  from assms(1) consider "p = (''Phase'', phase_flags)" | "p = (''StudyDesign'', design_flags)"
    | "p = (''LocationCountry'', country_flags)"
    by (auto simp: contains_sources_def)
  then have "k \<in> set derived_columns \<and> fst p \<notin> set derived_columns \<and> fst p \<noteq> ''EnrollmentCount'' \<and>
     fst p \<notin> set date_columns"
  proof cases
    case 1
    with assms(2) show ?thesis
      by (auto simp: phase_flags_def derived_columns_def date_columns_def)
  next
    case 2
    with assms(2) show ?thesis
      by (auto simp: design_flags_def derived_columns_def date_columns_def)
  next
    case 3
    with assms(2) show ?thesis
      by (auto simp: country_flags_def derived_columns_def date_columns_def)
  qed
  then show "k \<in> set derived_columns" "fst p \<notin> set derived_columns" "fst p \<noteq> ''EnrollmentCount''"
    "fst p \<notin> set date_columns" by simp_all
qed

lemma text_columns_keys:
  assumes "col \<in> set text_columns"
  shows "col @ ''_length'' \<in> set derived_columns" "col \<notin> set derived_columns"
    "col \<noteq> ''EnrollmentCount''" "col \<notin> set date_columns"
proof -
  from assms consider "col = ''BriefTitle''" | "col = ''BriefSummary''" | "col = ''DetailedDescription''"
    by (auto simp: text_columns_def)
  then have "col @ ''_length'' \<in> set derived_columns \<and> col \<notin> set derived_columns \<and>
    col \<noteq> ''EnrollmentCount'' \<and> col \<notin> set date_columns"
  proof cases
    case 1
    then show ?thesis by (simp add: derived_columns_def date_columns_def)
  next
    case 2
    then show ?thesis by (simp add: derived_columns_def date_columns_def)
  next
    case 3
    then show ?thesis by (simp add: derived_columns_def date_columns_def)
  qed
  then show "col @ ''_length'' \<in> set derived_columns" "col \<notin> set derived_columns"
    "col \<noteq> ''EnrollmentCount''" "col \<notin> set date_columns" by simp_all
qed

lemma written_columns_derived:
  assumes "k \<in> set (written_columns df)"
  shows "k \<in> set derived_columns"
  using assms unfolding written_columns_iff
proof (elim disjE conjE bexE)
  assume "k \<in> {''start_year'', ''start_month'', ''start_quarter''}"
  then show ?thesis by (auto simp: derived_columns_def)
next
  assume "k = ''trial_duration_days''"
  then show ?thesis by (simp add: derived_columns_def)
next
  assume "k = ''is_industry_sponsored''"
  then show ?thesis by (simp add: derived_columns_def)
next
  fix p assume "p \<in> set contains_sources" "k \<in> fst ` set (snd p)"
  then show ?thesis by (rule contains_sources_keys(1))
next
  fix col assume "col \<in> set text_columns" "k = col @ ''_length''"
  then show ?thesis using text_columns_keys(1) by simp
next
  assume "k = ''completion_status''"
  then show ?thesis by (simp add: derived_columns_def)
qed

lemma fe_has_col:
  assumes "feature_engineering env df = Inr (c, m)" "k \<notin> set derived_columns"
  shows "has_col c k = has_col df k"
proof (cases "k = ''EnrollmentCount''")
  case True
  with fe_enrollment[OF assms(1)] show ?thesis by (auto simp: has_col_def)
next
  case False
  from fe_frame[OF assms] obtain a where a: "handle_missing env df = Inr a"
    and ck: "map_of c k = map_of (convert_dates env a) k" by blast
  from handle_missing_lookup[OF a] False have "has_col a k = has_col df k"
    by (auto simp: has_col_def)
  with ck show ?thesis by (simp add: has_col_def convert_dates_lookup)
qed

subsection \<open>A second run on the cleaned frame\<close>

lemma fe_has_duration:
  assumes "feature_engineering env df = Inr (c, m)"
  shows "has_col c ''trial_duration_days'' \<longleftrightarrow>
           has_col df ''trial_duration_days'' \<or> has_col df ''CompletionDate''"
proof (cases "\<not> has_col df ''trial_duration_days'' \<and> has_col df ''CompletionDate''")
  case True
  with fe_duration[OF assms] show ?thesis by (auto simp: has_col_def)
next
  case False
  then have "''trial_duration_days'' \<notin> set (written_columns df)"
    by (simp add: written_columns_iff contains_sources_def phase_flags_def design_flags_def
        country_flags_def text_columns_def)
  from fe_unwritten[OF assms this] have
    "map_of c ''trial_duration_days'' = map_option clean_col (map_of df ''trial_duration_days'')"
    by (simp add: date_columns_def)
  then have "has_col c ''trial_duration_days'' = has_col df ''trial_duration_days''"
    by (simp add: has_col_def)
  with False show ?thesis by auto
qed

lemma fe_has_status:
  assumes "feature_engineering env df = Inr (c, m)"
  shows "has_col c ''completion_status'' \<longleftrightarrow>
           has_col df ''completion_status'' \<or> has_col df ''OverallStatus''"
proof (cases "\<not> has_col df ''completion_status'' \<and> has_col df ''OverallStatus''")
  case True
  then obtain c0 where "map_of df ''OverallStatus'' = Some c0" by (auto simp: has_col_def)
  from fe_status[OF assms this] True show ?thesis by (auto simp: has_col_def)
next
  case False
  then have "''completion_status'' \<notin> set (written_columns df)"
    by (simp add: written_columns_iff contains_sources_def phase_flags_def design_flags_def
        country_flags_def text_columns_def)
  from fe_unwritten[OF assms this] have
    "map_of c ''completion_status'' = map_option clean_col (map_of df ''completion_status'')"
    by (simp add: date_columns_def)
  then have "has_col c ''completion_status'' = has_col df ''completion_status''"
    by (simp add: has_col_def)
  with False show ?thesis by auto
qed

lemma source_not_derived:
  "''StartDate'' \<notin> set derived_columns" "''CompletionDate'' \<notin> set derived_columns"
  "''LeadSponsorClass'' \<notin> set derived_columns" "''OverallStatus'' \<notin> set derived_columns"
  by (simp_all add: derived_columns_def)

lemma second_pass_lookup:
  assumes r1: "feature_engineering env df = Inr (c, m)"
    and r2: "feature_engineering env c = Inr (c', m')"
  shows "map_of c' k = map_of c k"
proof -
  have src: "has_col c s = has_col df s" if "s \<notin> set derived_columns" for s
    by (rule fe_has_col[OF r1 that])
  consider (ec) "k = ''EnrollmentCount''" | (dt) "k \<in> set date_columns"
    | (wr) "k \<noteq> ''EnrollmentCount''" "k \<notin> set date_columns" "k \<in> set (written_columns c)"
    | (un) "k \<noteq> ''EnrollmentCount''" "k \<notin> set date_columns" "k \<notin> set (written_columns c)"
    by blast
  then show ?thesis
  proof cases
    case ec
    from fe_enrollment[OF r1] obtain c0 where
      c: "map_of c ''EnrollmentCount'' = Some (clean_col (to_numeric env c0))" by blast
    from fe_enrollment[OF r2] c
    have "map_of c' ''EnrollmentCount'' =
            Some (clean_col (to_numeric env (clean_col (to_numeric env c0))))" by auto
    then show ?thesis using ec c by (simp add: clean_to_numeric)
  next
    case dt
    from fe_date_lookup[OF r1 dt] fe_date_lookup[OF r2 dt] show ?thesis
      by (cases "map_of df k") (simp_all add: clean_to_datetime)
  next
    case un
    from fe_unwritten[OF r2 un(3,2,1)]
    have e: "map_of c' k = map_option clean_col (map_of c k)" .
    show ?thesis
    proof (cases "k \<in> set (written_columns df)")
      case False
      from fe_unwritten[OF r1 False un(2,1)] e show ?thesis
        by (cases "map_of df k") (simp_all add: clean_col_idem)
    next
      case True
      note nw = un(3)[unfolded written_columns_iff]
      from True[unfolded written_columns_iff] show ?thesis
      proof (elim disjE conjE bexE)
        assume "has_col df ''StartDate''" "k \<in> {''start_year'', ''start_month'', ''start_quarter''}"
        with src[OF source_not_derived(1)] nw show ?thesis by simp
      next
        assume h: "\<not> has_col df ''trial_duration_days''" "has_col df ''CompletionDate''"
          and k: "k = ''trial_duration_days''"
        from fe_duration[OF r1 h] e show ?thesis by (auto simp: k clean_duration_col)
      next
        assume "has_col df ''LeadSponsorClass''" "k = ''is_industry_sponsored''"
        with src[OF source_not_derived(3)] nw show ?thesis by simp
      next
        fix p assume p: "p \<in> set contains_sources" "has_col df (fst p)" "k \<in> fst ` set (snd p)"
        from src[OF contains_sources_keys(2)[OF p(1,3)]] p(2) have "has_col c (fst p)" by simp
        with p(1,3) nw show ?thesis by blast
      next
        fix col assume t: "col \<in> set text_columns" "has_col df col" "k = col @ ''_length''"
        from src[OF text_columns_keys(2)[OF t(1)]] t(2) have "has_col c col" by simp
        with t(1,3) nw show ?thesis by blast
      next
        assume h: "\<not> has_col df ''completion_status''" "has_col df ''OverallStatus''"
          and k: "k = ''completion_status''"
        from h(2) obtain c0 where "map_of df ''OverallStatus'' = Some c0" by (auto simp: has_col_def)
        from fe_status[OF r1 this h(1)] e show ?thesis by (simp add: k clean_astype_int)
      qed
    qed
  next
    case wr
    from wr(3)[unfolded written_columns_iff] show ?thesis
    proof (elim disjE conjE bexE)
      assume h: "has_col c ''StartDate''" and k: "k \<in> {''start_year'', ''start_month'', ''start_quarter''}"
      from h src[OF source_not_derived(1)] obtain c0 where c0: "map_of df ''StartDate'' = Some c0"
        by (auto simp: has_col_def)
      from fe_start[OF r1 c0] obtain ds where
        s1: "map_of c ''StartDate'' = Some (DateCol ds)"
          "map_of c ''start_year'' = Some (NumCol (map (map_option dt_year) ds))"
          "map_of c ''start_month'' = Some (NumCol (map (map_option dt_month) ds))"
          "map_of c ''start_quarter'' = Some (NumCol (map (map_option dt_quarter) ds))" by blast
      from fe_start[OF r2 s1(1)] obtain ds' where
        d: "to_datetime env (clean_col (DateCol ds)) = DateCol ds'" and
        s2: "map_of c' ''start_year'' = Some (NumCol (map (map_option dt_year) ds'))"
          "map_of c' ''start_month'' = Some (NumCol (map (map_option dt_month) ds'))"
          "map_of c' ''start_quarter'' = Some (NumCol (map (map_option dt_quarter) ds'))" by blast
      from d have "ds' = ds" by (simp add: clean_col_def)
      with k s1 s2 show ?thesis by auto
    next
      assume "\<not> has_col c ''trial_duration_days''" "has_col c ''CompletionDate''"
      with fe_has_duration[OF r1] src[OF source_not_derived(2)] show ?thesis by simp
    next
      assume h: "has_col c ''LeadSponsorClass''" and k: "k = ''is_industry_sponsored''"
      from h src[OF source_not_derived(3)] obtain c0 where
        c0: "map_of df ''LeadSponsorClass'' = Some c0" by (auto simp: has_col_def)
      from fe_sponsor[OF r1 c0] have
        s1: "map_of c ''LeadSponsorClass'' = Some (clean_col c0)"
          "map_of c ''is_industry_sponsored'' = Some (astype_int (eq_str (clean_col c0) ''INDUSTRY''))"
        by simp_all
      from fe_sponsor[OF r2 s1(1)] s1(2) show ?thesis by (simp add: k clean_col_idem)
    next
      fix p assume p: "p \<in> set contains_sources" "has_col c (fst p)" "k \<in> fst ` set (snd p)"
      from p(3) obtain pat where pat: "(k, pat) \<in> set (snd p)" by auto
      from p(1) have pp: "(fst p, snd p) \<in> set contains_sources" by simp
      from src[OF contains_sources_keys(2)[OF p(1,3)]] p(2) obtain c0 where
        c0: "map_of df (fst p) = Some c0" by (auto simp: has_col_def)
      from fe_flags[OF r1 pp pat c0] obtain xs where
        s1: "clean_col c0 = ObjCol xs" "map_of c (fst p) = Some (ObjCol xs)"
          "map_of c k = Some (astype_int (map (\<lambda>x. case x of None \<Rightarrow> False
                                                   | Some s \<Rightarrow> contains_str pat s) xs))" by blast
      from fe_flags[OF r2 pp pat s1(2)] obtain xs' where
        s2: "clean_col (ObjCol xs) = ObjCol xs'"
          "map_of c' k = Some (astype_int (map (\<lambda>x. case x of None \<Rightarrow> False
                                                   | Some s \<Rightarrow> contains_str pat s) xs'))" by blast
      have "clean_col (clean_col c0) = clean_col c0" by (rule clean_col_idem)
      with s1(1) s2(1) have "xs' = xs" by simp
      with s1(3) s2(2) show ?thesis by simp
    next
      fix col assume t: "col \<in> set text_columns" "has_col c col" "k = col @ ''_length''"
      from src[OF text_columns_keys(2)[OF t(1)]] t(2) obtain c0 where
        c0: "map_of df col = Some c0" by (auto simp: has_col_def)
      from fe_text_length[OF r1 t(1) c0] have
        s1: "map_of c col = Some (clean_col c0)"
          "map_of c (col @ ''_length'') = Some (text_length env (clean_col c0))" by simp_all
      from fe_text_length[OF r2 t(1) s1(1)] s1(2) show ?thesis by (simp add: t(3) clean_col_idem)
    next
      assume "\<not> has_col c ''completion_status''" "has_col c ''OverallStatus''"
      with fe_has_status[OF r1] src[OF source_not_derived(4)] show ?thesis by simp
    qed
  qed
qed

text \<open>A successful run leaves no missing value in an object column.\<close>

lemma complete_object_simps [simp]:
  "complete_object (astype_int bs)" "complete_object (text_length env c)"
  "complete_object (duration_col cs ss)" "complete_object (to_datetime env c)"
  "complete_object (to_numeric env c)"
  by (cases c; simp add: astype_int_def text_length_def duration_col_def Let_def)+

lemma set_setcol: "set (setcol t k c) \<subseteq> insert (k, c) (set t)"
  unfolding setcol_def by (induction t) auto

lemma complete_objects_setcol:
  "complete_objects t \<Longrightarrow> complete_object c \<Longrightarrow> complete_objects (setcol t k c)"
  using set_setcol[of t k c] by (auto simp: complete_objects_def list_all_iff)

lemma impute_obj_col_complete: "impute_obj_col c = Inr c' \<Longrightarrow> complete_object c'"
  by (cases c) (auto simp: fillna_def split: if_splits option.splits)

lemma impute_categorical_complete: "impute_categorical t = Inr t' \<Longrightarrow> complete_objects t'"
proof (induction t arbitrary: t')
  case Nil
  then show ?case by (simp add: complete_objects_def)
next
  case (Cons p t)
  obtain k c where p: "p = (k, c)" by (cases p)
  from Cons.prems obtain c' r where c': "impute_obj_col c = Inr c'" and
    r: "impute_categorical t = Inr r" and t': "t' = (k, c') # r"
    by (auto simp: p bind_err_Inr)
  from impute_obj_col_complete[OF c'] Cons.IH[OF r] show ?case
    by (simp add: t' complete_objects_def)
qed

lemma impute_obj_col_ok: "complete_object c \<Longrightarrow> impute_obj_col c = Inr c"
  by (cases c) auto

lemma impute_categorical_ok: "complete_objects t \<Longrightarrow> impute_categorical t = Inr t"
  by (induction t) (auto simp: complete_objects_def impute_obj_col_ok)

lemma impute_num_col_complete: "complete_object c \<Longrightarrow> complete_object (impute_num_col c)"
  by (cases c) auto

lemma impute_numeric_complete: "complete_objects t \<Longrightarrow> complete_objects (impute_numeric t)"
  by (induction t) (auto simp: complete_objects_def impute_numeric_def impute_num_col_complete)

lemma handle_missing_ok:
  assumes "has_col t ''EnrollmentCount''" "complete_objects t"
  shows "\<exists>a. handle_missing env t = Inr a"
proof -
  from assms(1) obtain c0 where c0: "map_of t ''EnrollmentCount'' = Some c0"
    by (auto simp: has_col_def)
  have "complete_objects (impute_numeric (setcol t ''EnrollmentCount'' (to_numeric env c0)))"
    by (intro impute_numeric_complete complete_objects_setcol assms(2)) simp
  from impute_categorical_ok[OF this] c0 show ?thesis
    by (simp add: handle_missing_def coerce_enrollment_def getcol_def)
qed

lemma handle_missing_complete: "handle_missing env t = Inr a \<Longrightarrow> complete_objects a"
  by (auto simp: handle_missing_def bind_err_Inr dest: impute_categorical_complete)

lemma convert_dates_complete: "complete_objects t \<Longrightarrow> complete_objects (convert_dates env t)"
  by (auto simp: convert_dates_def date_columns_def intro!: complete_objects_setcol
      split: option.splits)

lemma start_features_complete:
  "start_features t = Inr t' \<Longrightarrow> complete_objects t \<Longrightarrow> complete_objects t'"
  by (drule start_features_Inr) (auto intro!: complete_objects_setcol)

lemma trial_duration_complete:
  "trial_duration t = Inr t' \<Longrightarrow> complete_objects t \<Longrightarrow> complete_objects t'"
  by (drule trial_duration_Inr) (auto intro!: complete_objects_setcol)

lemma sponsor_flag_complete: "complete_objects t \<Longrightarrow> complete_objects (sponsor_flag t)"
  by (auto simp: sponsor_flag_def intro!: complete_objects_setcol split: option.splits)

lemma set_flags_complete:
  "set_flags t c flags = Inr t' \<Longrightarrow> complete_objects t \<Longrightarrow> complete_objects t'"
proof (induction flags arbitrary: t)
  case Nil
  then show ?case by simp
next
  case (Cons p flags)
  obtain k pat where p: "p = (k, pat)" by (cases p)
  from Cons.prems(1) obtain bs where
    r: "set_flags (setcol t k (astype_int bs)) c flags = Inr t'"
    by (auto simp: p bind_err_Inr)
  have "complete_objects (setcol t k (astype_int bs))"
    by (intro complete_objects_setcol Cons.prems(2)) simp
  from Cons.IH[OF r this] show ?case .
qed

lemma contains_flags_complete:
  "contains_flags t src flags = Inr t' \<Longrightarrow> complete_objects t \<Longrightarrow> complete_objects t'"
  by (auto simp: contains_flags_def split: option.splits dest: set_flags_complete)

lemma add_lengths_complete:
  "add_lengths env t cols = Inr t' \<Longrightarrow> complete_objects t \<Longrightarrow> complete_objects t'"
proof (induction cols arbitrary: t)
  case Nil
  then show ?case by simp
next
  case (Cons col cols)
  from Cons.prems(1) obtain c where
    r: "add_lengths env (setcol t (col @ ''_length'') (text_length env c)) cols = Inr t'"
    by (auto simp: bind_err_Inr)
  have "complete_objects (setcol t (col @ ''_length'') (text_length env c))"
    by (intro complete_objects_setcol Cons.prems(2)) simp
  from Cons.IH[OF r this] show ?case .
qed

lemma text_features_complete:
  "text_features env t = Inr t' \<Longrightarrow> complete_objects t \<Longrightarrow> complete_objects t'"
  by (auto simp: text_features_def Let_def bind_err_Inr split: if_splits
      dest: add_lengths_complete)

lemma target_variable_complete:
  "target_variable t = Inr (c, m) \<Longrightarrow> complete_objects t \<Longrightarrow> complete_objects c"
  by (drule target_variable_Inr) (auto intro!: complete_objects_setcol)

lemma fe_complete:
  assumes "feature_engineering env df = Inr (c, m)"
  shows "complete_objects c"
proof -
  from assms obtain a b1 b t2 t3 c1 c2 where
    a: "handle_missing env df = Inr a" and
    b1: "start_features (convert_dates env a) = Inr b1" and
    b: "trial_duration b1 = Inr b" and
    s2: "contains_flags (sponsor_flag b) ''Phase'' phase_flags = Inr t2" and
    s3: "contains_flags t2 ''StudyDesign'' design_flags = Inr t3" and
    s4: "contains_flags t3 ''LocationCountry'' country_flags = Inr c1" and
    c2: "text_features env c1 = Inr c2" and
    tv: "target_variable c2 = Inr (c, m)"
    by (rule fe_stage_sources)
  note handle_missing_complete[OF a]
  note convert_dates_complete[OF this, of env]
  note start_features_complete[OF b1 this]
  note trial_duration_complete[OF b this]
  note sponsor_flag_complete[OF this]
  note contains_flags_complete[OF s2 this]
  note contains_flags_complete[OF s3 this]
  note contains_flags_complete[OF s4 this]
  note text_features_complete[OF c2 this]
  note target_variable_complete[OF tv this]
  then show ?thesis .
qed

text \<open>Presence of columns along the stages, and when a stage succeeds.\<close>

lemma handle_missing_has_col:
  assumes "handle_missing env t = Inr a"
  shows "has_col a k = has_col t k"
proof -
  from handle_missing_lookup[OF assms] obtain c0 where
    c0: "map_of t ''EnrollmentCount'' = Some c0" and
    la: "map_of a k = (if k = ''EnrollmentCount'' then Some (clean_col (to_numeric env c0))
                       else map_option clean_col (map_of t k))" by blast
  show ?thesis
  proof (cases "k = ''EnrollmentCount''")
    case True
    with c0 la show ?thesis by (simp add: has_col_def)
  next
    case False
    with la show ?thesis by (simp add: has_col_def)
  qed
qed

lemma convert_dates_has_col: "has_col (convert_dates env t) k = has_col t k"
  by (simp add: has_col_def convert_dates_lookup)

lemma start_features_has_col: "start_features t = Inr t' \<Longrightarrow> has_col t k \<Longrightarrow> has_col t' k"
  by (drule start_features_Inr) auto

lemma trial_duration_has_col: "trial_duration t = Inr t' \<Longrightarrow> has_col t k \<Longrightarrow> has_col t' k"
  by (drule trial_duration_Inr) auto

lemma sponsor_flag_has_col: "has_col t k \<Longrightarrow> has_col (sponsor_flag t) k"
  by (auto simp: sponsor_flag_def split: option.splits)

lemma contains_flags_has_col:
  "contains_flags t src flags = Inr t' \<Longrightarrow> has_col t k \<Longrightarrow> has_col t' k"
  by (auto simp: contains_flags_def has_col_keys split: option.splits dest!: set_flags_keys)

lemma add_lengths_has_col:
  "add_lengths env t cols = Inr t' \<Longrightarrow> has_col t k \<Longrightarrow> has_col t' k"
proof (induction cols arbitrary: t)
  case Nil
  then show ?case by simp
next
  case (Cons col cols)
  from Cons.prems(1) obtain c where
    r: "add_lengths env (setcol t (col @ ''_length'') (text_length env c)) cols = Inr t'"
    by (auto simp: bind_err_Inr)
  from Cons.IH[OF r] Cons.prems(2) show ?case by simp
qed

lemma text_features_has_col:
  "text_features env t = Inr t' \<Longrightarrow> has_col t k \<Longrightarrow> has_col t' k"
  by (auto simp: text_features_def Let_def bind_err_Inr split: if_splits
      dest: add_lengths_has_col)

lemma target_variable_has_col:
  "target_variable t = Inr (c, m) \<Longrightarrow> has_col t k \<Longrightarrow> has_col c k"
  by (drule target_variable_Inr) auto

lemma start_features_ok: "\<exists>t'. start_features (convert_dates env a) = Inr t'"
proof (cases "map_of a ''StartDate''")
  case None
  then have "map_of (convert_dates env a) ''StartDate'' = None"
    by (simp add: convert_dates_lookup)
  then show ?thesis by (simp add: start_features_def)
next
  case (Some c0)
  obtain ds where "to_datetime env c0 = DateCol ds" using to_datetime_is_date by blast
  with Some have "map_of (convert_dates env a) ''StartDate'' = Some (DateCol ds)"
    by (simp add: convert_dates_lookup date_columns_def)
  then show ?thesis by (simp add: start_features_def)
qed

lemma set_flags_ok: "\<exists>t'. set_flags t (ObjCol xs) flags = Inr t'"
proof (induction flags arbitrary: t)
  case Nil
  then show ?case by simp
next
  case (Cons p flags)
  obtain k pat where p: "p = (k, pat)" by (cases p)
  show ?case using Cons.IH by (simp add: p)
qed

lemma contains_flags_ok:
  assumes "\<And>c. map_of t src = Some c \<Longrightarrow> \<exists>xs. c = ObjCol xs"
  shows "\<exists>t'. contains_flags t src flags = Inr t'"
proof (cases "map_of t src")
  case None
  then show ?thesis by (simp add: contains_flags_def)
next
  case (Some c)
  from assms[OF Some] obtain xs where "c = ObjCol xs" by blast
  with Some set_flags_ok[of t xs flags] show ?thesis by (simp add: contains_flags_def)
qed

lemma add_lengths_ok:
  "\<forall>col \<in> set cols. has_col t col \<Longrightarrow> \<exists>t'. add_lengths env t cols = Inr t'"
proof (induction cols arbitrary: t)
  case Nil
  then show ?case by simp
next
  case (Cons col cols)
  from Cons.prems obtain c where c: "map_of t col = Some c" by (auto simp: has_col_def)
  have "\<forall>x \<in> set cols. has_col (setcol t (col @ ''_length'') (text_length env c)) x"
    using Cons.prems by simp
  from Cons.IH[OF this] c show ?case by (simp add: getcol_def)
qed

lemma target_variable_ok: "\<exists>c m. target_variable t = Inr (c, m)"
proof (cases "\<not> has_col t ''completion_status'' \<and> has_col t ''OverallStatus''")
  case True
  then obtain s where "map_of t ''OverallStatus'' = Some s" by (auto simp: has_col_def)
  with True show ?thesis by (simp add: target_variable_def getcol_def Let_def)
next
  case False
  then show ?thesis by (auto simp: target_variable_def)
qed

text \<open>What the checks of a successful run have seen.\<close>

lemma fe_checks:
  assumes "feature_engineering env df = Inr (c, m)"
  obtains b c1 where
    "\<exists>a b1. handle_missing env df = Inr a \<and> start_features (convert_dates env a) = Inr b1 \<and>
       trial_duration b1 = Inr b"
    "\<exists>k. has_col b k \<and> (startswith k ''start_'' \<or> k = ''trial_duration_days'')"
    "categorical_features b = Inr c1"
    "\<exists>k. has_col c1 k \<and> (startswith k ''is_'' \<or> startswith k ''has_'')"
    "\<forall>col rest. filter (has_col c1) text_columns = col # rest \<longrightarrow>
       (\<exists>x. map_of c1 col = Some x \<and> col_len x \<noteq> 0)"
    "\<exists>c2. text_features env c1 = Inr c2 \<and> target_variable c2 = Inr (c, m)"
proof -
  from assms obtain a b c1 c2 where
    a: "handle_missing env df = Inr a" and
    tf: "temporal_features env a = Inr b" and
    cf: "categorical_features b = Inr c1" and
    c2: "text_features env c1 = Inr c2" and
    tv: "target_variable c2 = Inr (c, m)"
    by (auto simp: feature_engineering_def bind_err_Inr)
  from tf obtain b1 where b1: "start_features (convert_dates env a) = Inr b1"
    and b: "trial_duration b1 = Inr b"
    and d1: "filter (\<lambda>col. startswith col ''start_'' \<or> col = ''trial_duration_days'') (map fst b) \<noteq> []"
    by (auto simp: temporal_features_def bind_err_Inr describe_def split: if_splits)
  from d1 have 2: "\<exists>k. has_col b k \<and> (startswith k ''start_'' \<or> k = ''trial_duration_days'')"
    by (auto simp: filter_empty_conv has_col_keys)
  from cf have d2: "filter (\<lambda>col. startswith col ''is_'' \<or> startswith col ''has_'') (map fst c1) \<noteq> []"
    by (auto simp: categorical_features_def bind_err_Inr describe_def split: if_splits)
  then have 4: "\<exists>k. has_col c1 k \<and> (startswith k ''is_'' \<or> startswith k ''has_'')"
    by (auto simp: filter_empty_conv has_col_keys)
  have "\<exists>x. map_of c1 col = Some x \<and> col_len x \<noteq> 0"
    if "filter (has_col c1) text_columns = col # rest" for col rest
    using c2 that
    by (auto simp: text_features_def Let_def bind_err_Inr getcol_Inr split: if_splits)
  then have 5: "\<forall>col rest. filter (has_col c1) text_columns = col # rest \<longrightarrow>
       (\<exists>x. map_of c1 col = Some x \<and> col_len x \<noteq> 0)" by blast
  show ?thesis
    by (rule that[OF _ 2 cf 4 5]) (use a b1 b c2 tv in blast)+
qed

lemma categorical_features_has_col:
  assumes "categorical_features t = Inr t'" "has_col t k"
  shows "has_col t' k"
proof -
  from categorical_features_Inr[OF assms(1)] obtain t2 t3 where
    s2: "contains_flags (sponsor_flag t) ''Phase'' phase_flags = Inr t2" and
    s3: "contains_flags t2 ''StudyDesign'' design_flags = Inr t3" and
    s4: "contains_flags t3 ''LocationCountry'' country_flags = Inr t'" by blast
  note sponsor_flag_has_col[OF assms(2)]
  note contains_flags_has_col[OF s2 this]
  note contains_flags_has_col[OF s3 this]
  note contains_flags_has_col[OF s4 this]
  then show ?thesis .
qed

lemma contains_sources_flag:
  assumes "p \<in> set contains_sources"
  obtains k pat where "(k, pat) \<in> set (snd p)"
proof -
  from assms have "snd p \<noteq> []"
    by (auto simp: contains_sources_def phase_flags_def design_flags_def country_flags_def)
  then obtain q where q: "q \<in> set (snd p)" by (cases "snd p") auto
  obtain k pat where "q = (k, pat)" by (cases q)
  with q that show ?thesis by blast
qed

lemma source_is_object:
  assumes r1: "feature_engineering env df = Inr (c, m)"
    and p: "p \<in> set contains_sources" and x: "map_of c (fst p) = Some x"
  shows "\<exists>xs. x = ObjCol xs"
proof -
  from p obtain k pat where kp: "(k, pat) \<in> set (snd p)" by (rule contains_sources_flag)
  then have k: "k \<in> fst ` set (snd p)" by force
  from x fe_has_col[OF r1 contains_sources_keys(2)[OF p k]] obtain c0 where
    c0: "map_of df (fst p) = Some c0" by (auto simp: has_col_def)
  from p have "(fst p, snd p) \<in> set contains_sources" by simp
  from fe_flags[OF r1 this kp c0] x show ?thesis by auto
qed

lemma clean_col_object: "\<exists>ys. clean_col (ObjCol xs) = ObjCol ys"
  by (simp add: clean_col_def)

lemma describe_ok: "\<exists>k\<in>set cols. P k \<Longrightarrow> describe (filter P cols) = Inr ()"
  by (auto simp: describe_def filter_empty_conv)

lemma second_pass_succeeds:
  assumes r1: "feature_engineering env df = Inr (c, m)"
  shows "\<exists>c' m'. feature_engineering env c = Inr (c', m')"
proof -
  from r1 obtain b c1 where
    "\<exists>a b1. handle_missing env df = Inr a \<and> start_features (convert_dates env a) = Inr b1 \<and>
       trial_duration b1 = Inr b" and
    d1: "\<exists>k. has_col b k \<and> (startswith k ''start_'' \<or> k = ''trial_duration_days'')" and
    cf: "categorical_features b = Inr c1" and
    d2: "\<exists>k. has_col c1 k \<and> (startswith k ''is_'' \<or> startswith k ''has_'')" and
    fv: "\<forall>col rest. filter (has_col c1) text_columns = col # rest \<longrightarrow>
           (\<exists>x. map_of c1 col = Some x \<and> col_len x \<noteq> 0)" and
    tl: "\<exists>c2. text_features env c1 = Inr c2 \<and> target_variable c2 = Inr (c, m)"
    by (rule fe_checks)
  from tl obtain c2 where c2: "text_features env c1 = Inr c2"
    and tv: "target_variable c2 = Inr (c, m)" by blast
  have mono_c1: "has_col c k" if "has_col c1 k" for k
    using target_variable_has_col[OF tv text_features_has_col[OF c2 that]] .
  have mono_b: "has_col c k" if "has_col b k" for k
    using mono_c1[OF categorical_features_has_col[OF cf that]] .
  have text_c1: "map_of c col = map_of c1 col" if "col \<in> set text_columns" for col
  proof -
    note tk = text_columns_keys[OF that]
    have "col \<noteq> ''completion_status''" using tk(2) by (auto simp: derived_columns_def)
    from target_variable_frame[OF tv this] have "map_of c col = map_of c2 col" .
    moreover have "col \<notin> (\<lambda>c. c @ ''_length'') ` set text_columns"
      using tk(2) text_columns_keys(1) by blast
    from text_features_lookup[OF c2 this] have "map_of c2 col = map_of c1 col" .
    ultimately show ?thesis by simp
  qed
  from fe_enrollment[OF r1] have "has_col c ''EnrollmentCount''" by (auto simp: has_col_def)
  from handle_missing_ok[OF this fe_complete[OF r1]] obtain a2 where
    a2: "handle_missing env c = Inr a2" by blast
  from start_features_ok obtain b2 where b2: "start_features (convert_dates env a2) = Inr b2"
    by blast
  have mono_b2: "has_col b2 k" if "has_col c k" for k
    using start_features_has_col[OF b2] that
    by (simp add: convert_dates_has_col handle_missing_has_col[OF a2])
  have eq_b2: "has_col b2 k = has_col c k"
    if "k \<notin> {''start_year'', ''start_month'', ''start_quarter''}" for k
  proof -
    from start_features_frame[OF b2 that]
    have "has_col b2 k = has_col (convert_dates env a2) k" by (simp add: has_col_def)
    then show ?thesis by (simp add: convert_dates_has_col handle_missing_has_col[OF a2])
  qed
  have lk_b2: "map_of b2 k = map_option clean_col (map_of c k)"
    if "k \<noteq> ''EnrollmentCount''" "k \<notin> set date_columns" "k \<notin> set derived_columns" for k
  proof -
    from that(3) have "k \<notin> {''start_year'', ''start_month'', ''start_quarter''}"
      by (auto simp: derived_columns_def)
    from start_features_frame[OF b2 this] that(2)
    have "map_of b2 k = map_of a2 k" by (simp add: convert_dates_lookup)
    with handle_missing_lookup[OF a2] that(1) show ?thesis by auto
  qed
  have td: "trial_duration b2 = Inr b2"
  proof -
    have "has_col b2 ''trial_duration_days''" if "has_col b2 ''CompletionDate''"
    proof -
      from that eq_b2[of "''CompletionDate''"] have "has_col c ''CompletionDate''" by simp
      with fe_has_col[OF r1 source_not_derived(2)] fe_has_duration[OF r1]
      have "has_col c ''trial_duration_days''" by simp
      with eq_b2[of "''trial_duration_days''"] show ?thesis by simp
    qed
    then show ?thesis by (auto simp: trial_duration_def)
  qed
  have tmp: "temporal_features env a2 = Inr b2"
  proof -
    from d1 obtain k where k: "has_col b k" "startswith k ''start_'' \<or> k = ''trial_duration_days''"
      by blast
    have "has_col b2 k" by (rule mono_b2[OF mono_b[OF k(1)]])
    then have "k \<in> set (map fst b2)" by (simp only: has_col_keys)
    with k(2) have
      "\<exists>k\<in>set (map fst b2). startswith k ''start_'' \<or> k = ''trial_duration_days''"
      by blast
    from describe_ok[OF this] show ?thesis by (simp add: temporal_features_def b2 td)
  qed
  have obj: "\<exists>xs. x = ObjCol xs"
    if "(src, flags) \<in> set contains_sources" "map_option clean_col (map_of c src) = Some x"
    for src flags x
  proof -
    from that(2) obtain y where y: "map_of c src = Some y" "x = clean_col y" by auto
    from source_is_object[OF r1 that(1)] y(1) obtain ys where "y = ObjCol ys" by auto
    with y(2) clean_col_object[of ys] show ?thesis by simp
  qed
  have lk_s: "map_of (sponsor_flag b2) k = map_option clean_col (map_of c k)"
    if "k \<noteq> ''EnrollmentCount''" "k \<notin> set date_columns" "k \<notin> set derived_columns" for k
  proof -
    from that(3) have "k \<noteq> ''is_industry_sponsored''" by (auto simp: derived_columns_def)
    then have "map_of (sponsor_flag b2) k = map_of b2 k"
      by (simp add: sponsor_flag_lookup split: option.splits)
    with lk_b2[OF that] show ?thesis by simp
  qed
  have p1: "(''Phase'', phase_flags) \<in> set contains_sources"
    and p2: "(''StudyDesign'', design_flags) \<in> set contains_sources"
    and p3: "(''LocationCountry'', country_flags) \<in> set contains_sources"
    by (simp_all add: contains_sources_def)
  have sp1: "''Phase'' \<noteq> ''EnrollmentCount''" "''Phase'' \<notin> set date_columns"
    "''Phase'' \<notin> set derived_columns"
    and sp2: "''StudyDesign'' \<noteq> ''EnrollmentCount''" "''StudyDesign'' \<notin> set date_columns"
    "''StudyDesign'' \<notin> set derived_columns"
    and sp3: "''LocationCountry'' \<noteq> ''EnrollmentCount''" "''LocationCountry'' \<notin> set date_columns"
    "''LocationCountry'' \<notin> set derived_columns"
    by (simp_all add: date_columns_def derived_columns_def)
  have "\<exists>t'. contains_flags (sponsor_flag b2) ''Phase'' phase_flags = Inr t'"
  proof (rule contains_flags_ok)
    fix x assume "map_of (sponsor_flag b2) ''Phase'' = Some x"
    with lk_s[OF sp1] have "map_option clean_col (map_of c ''Phase'') = Some x" by simp
    from obj[OF p1 this] show "\<exists>xs. x = ObjCol xs" .
  qed
  then obtain t2 where t2: "contains_flags (sponsor_flag b2) ''Phase'' phase_flags = Inr t2" by blast
  have lk_t2: "map_of t2 k = map_option clean_col (map_of c k)"
    if "k \<noteq> ''EnrollmentCount''" "k \<notin> set date_columns" "k \<notin> set derived_columns" for k
  proof -
    from that(3) have "k \<notin> fst ` set phase_flags"
      by (auto simp: derived_columns_def phase_flags_def)
    from contains_flags_lookup[OF t2 this] lk_s[OF that] show ?thesis by simp
  qed
  have "\<exists>t'. contains_flags t2 ''StudyDesign'' design_flags = Inr t'"
  proof (rule contains_flags_ok)
    fix x assume "map_of t2 ''StudyDesign'' = Some x"
    with lk_t2[OF sp2] have "map_option clean_col (map_of c ''StudyDesign'') = Some x" by simp
    from obj[OF p2 this] show "\<exists>xs. x = ObjCol xs" .
  qed
  then obtain t3 where t3: "contains_flags t2 ''StudyDesign'' design_flags = Inr t3" by blast
  have lk_t3: "map_of t3 k = map_option clean_col (map_of c k)"
    if "k \<noteq> ''EnrollmentCount''" "k \<notin> set date_columns" "k \<notin> set derived_columns" for k
  proof -
    from that(3) have "k \<notin> fst ` set design_flags"
      by (auto simp: derived_columns_def design_flags_def)
    from contains_flags_lookup[OF t3 this] lk_t2[OF that] show ?thesis by simp
  qed
  have "\<exists>t'. contains_flags t3 ''LocationCountry'' country_flags = Inr t'"
  proof (rule contains_flags_ok)
    fix x assume "map_of t3 ''LocationCountry'' = Some x"
    with lk_t3[OF sp3] have "map_option clean_col (map_of c ''LocationCountry'') = Some x" by simp
    from obj[OF p3 this] show "\<exists>xs. x = ObjCol xs" .
  qed
  then obtain c1' where c1': "contains_flags t3 ''LocationCountry'' country_flags = Inr c1'" by blast
  have lk_c1': "map_of c1' k = map_option clean_col (map_of c k)"
    if "k \<noteq> ''EnrollmentCount''" "k \<notin> set date_columns" "k \<notin> set derived_columns" for k
  proof -
    from that(3) have "k \<notin> fst ` set country_flags"
      by (auto simp: derived_columns_def country_flags_def)
    from contains_flags_lookup[OF c1' this] lk_t3[OF that] show ?thesis by simp
  qed
  have mono_c1': "has_col c1' k" if "has_col c k" for k
  proof -
    note mono_b2[OF that]
    note sponsor_flag_has_col[OF this]
    note contains_flags_has_col[OF t2 this]
    note contains_flags_has_col[OF t3 this]
    note contains_flags_has_col[OF c1' this]
    then show ?thesis .
  qed
  have cat: "categorical_features b2 = Inr c1'"
  proof -
    from d2 obtain k where k: "has_col c1 k" "startswith k ''is_'' \<or> startswith k ''has_''" by blast
    have "has_col c1' k" by (rule mono_c1'[OF mono_c1[OF k(1)]])
    then have "k \<in> set (map fst c1')" by (simp only: has_col_keys)
    with k(2) have
      "\<exists>k\<in>set (map fst c1'). startswith k ''is_'' \<or> startswith k ''has_''"
      by blast
    from describe_ok[OF this] show ?thesis by (simp add: categorical_features_def t2 t3 c1')
  qed
  have text_c1': "map_of c1' col = map_option clean_col (map_of c1 col)"
    if "col \<in> set text_columns" for col
    using lk_c1'[OF text_columns_keys(3,4,2)[OF that]] text_c1[OF that] by simp
  have av: "filter (has_col c1') text_columns = filter (has_col c1) text_columns"
    by (rule filter_cong[OF refl]) (simp add: has_col_def text_c1')
  have "\<exists>c2'. text_features env c1' = Inr c2'"
  proof (cases "filter (has_col c1) text_columns")
    case Nil
    with av show ?thesis by (simp add: text_features_def)
  next
    case (Cons col rest)
    then have "col \<in> set (filter (has_col c1) text_columns)" by simp
    then have tc: "col \<in> set text_columns" by simp
    from fv Cons obtain x where x: "map_of c1 col = Some x" "col_len x \<noteq> 0" by blast
    with text_c1'[OF tc] have fv': "first_values c1' [col] = Inr ()"
      by (simp add: getcol_def)
    have "\<forall>col \<in> set (filter (has_col c1') text_columns). has_col c1' col" by simp
    from add_lengths_ok[OF this] obtain c2' where
      "add_lengths env c1' (filter (has_col c1') text_columns) = Inr c2'" by blast
    with fv' av Cons show ?thesis by (simp add: text_features_def Let_def)
  qed
  then obtain c2' where c2': "text_features env c1' = Inr c2'" by blast
  from target_variable_ok obtain c' m' where "target_variable c2' = Inr (c', m')" by blast
  then have "feature_engineering env c = Inr (c', m')"
    by (simp add: feature_engineering_def a2 tmp cat c2')
  then show ?thesis by blast
qed

section \<open>The claims\<close>

subsection \<open>C1: negative durations\<close>

text \<open>
  Claim C1, as amended. The duration is computed only for a frame that has a
  \<open>CompletionDate\<close> column and no \<open>trial_duration_days\<close> column. Then every row's duration
  is the number of days from start to completion; a negative or missing one is replaced by
  the median of the non-negative durations of the column (it stays missing when there is no
  such duration), so that no row of the cleaned or of the modeling frame carries a negative
  duration. A duration column that is already in the input is not recomputed.
\<close>

theorem negative_duration_replaced:
  assumes "feature_engineering env df = Inr (df_clean, df_modeling)"
    and "\<not> has_col df ''trial_duration_days''"
    and "has_col df ''CompletionDate''"
  shows "\<exists>cs ss ds ds'.
           map_of df_clean ''CompletionDate'' = Some (DateCol cs) \<and>
           map_of df_clean ''StartDate'' = Some (DateCol ss) \<and>
           map_of df_clean ''trial_duration_days'' = Some (NumCol ds) \<and>
           ds = (let raw = map (\<lambda>(c, s). td_days c s) (zip cs ss);
                     valid = filter (\<lambda>v. 0 \<le> v) (non_null raw)
                 in map (\<lambda>d. case d of None \<Rightarrow> median valid
                                | Some v \<Rightarrow> if v < 0 then median valid else Some v) raw) \<and>
           (\<forall>v. Some v \<in> set ds \<longrightarrow> 0 \<le> v) \<and>
           map_of df_modeling ''trial_duration_days'' = Some (NumCol ds') \<and>
           (\<forall>v. Some v \<in> set ds' \<longrightarrow> 0 \<le> v)"
proof -
  from fe_duration[OF assms] obtain cs ss where
    cs: "map_of df_clean ''CompletionDate'' = Some (DateCol cs)" and
    ss: "map_of df_clean ''StartDate'' = Some (DateCol ss)" and
    d: "map_of df_clean ''trial_duration_days'' = Some (duration_col cs ss)" by blast
  let ?raw = "map (\<lambda>(c, s). td_days c s) (zip cs ss)"
  let ?valid = "filter (\<lambda>v. 0 \<le> v) (non_null ?raw)"
  let ?ds = "map (\<lambda>d. case d of None \<Rightarrow> median ?valid
                          | Some v \<Rightarrow> if v < 0 then median ?valid else Some v) ?raw"
  have dc: "duration_col cs ss = NumCol ?ds"
    by (simp add: duration_col_def Let_def non_null_mask_negative fillna_mask_negative)
  have nn: "\<forall>v. Some v \<in> set ?ds \<longrightarrow> 0 \<le> v"
    using duration_col_nonneg[OF dc] by blast
  have "\<exists>ds'. map_of df_modeling ''trial_duration_days'' = Some (NumCol ds') \<and> set ds' \<subseteq> set ?ds"
  proof -
    from fe_modeling[OF assms(1)] consider "df_modeling = df_clean"
      | msk where "df_modeling = filter_rows msk df_clean" by blast
    then show ?thesis
    proof cases
      case 1
      then show ?thesis using d dc by simp
    next
      case 2
      have "map_of df_modeling ''trial_duration_days'' = Some (NumCol (keep msk ?ds))"
        unfolding 2 map_of_filter_rows d dc by simp
      then show ?thesis using set_keep[of msk ?ds] by blast
    qed
  qed
  then obtain ds' where m: "map_of df_modeling ''trial_duration_days'' = Some (NumCol ds')"
    and sub: "set ds' \<subseteq> set ?ds" by blast
  from sub nn have nn': "\<forall>v. Some v \<in> set ds' \<longrightarrow> 0 \<le> v" by blast
  have "map_of df_clean ''trial_duration_days'' = Some (NumCol ?ds)" using d dc by simp
  with cs ss nn m nn' show ?thesis unfolding Let_def by blast
qed

theorem negative_duration_replaced_witness:
  "feature_engineering env_ex df_ex = Inr (clean_ex, modeling_ex) \<and>
   \<not> has_col df_ex ''trial_duration_days'' \<and> has_col df_ex ''CompletionDate'' \<and>
   (\<exists>cs ss ds ds'.
      map_of clean_ex ''CompletionDate'' = Some (DateCol cs) \<and>
      map_of clean_ex ''StartDate'' = Some (DateCol ss) \<and>
      map_of clean_ex ''trial_duration_days'' = Some (NumCol ds) \<and>
      map_of modeling_ex ''trial_duration_days'' = Some (NumCol ds') \<and>
      ds = [Some 100, Some 30, Some 0, Some 30] \<and> ds' = [Some 100, Some 30, Some 30])"
proof -
  have h1: "\<not> has_col df_ex ''trial_duration_days''" by (simp add: has_col_def df_ex_def)
  have h2: "has_col df_ex ''CompletionDate''" by (simp add: has_col_def df_ex_def)
  from negative_duration_replaced[OF run_df_ex h1 h2] obtain cs ss ds ds' where
    "map_of clean_ex ''CompletionDate'' = Some (DateCol cs)"
    "map_of clean_ex ''StartDate'' = Some (DateCol ss)"
    "map_of clean_ex ''trial_duration_days'' = Some (NumCol ds)"
    "map_of modeling_ex ''trial_duration_days'' = Some (NumCol ds')" by blast
  moreover from this have "ds = [Some 100, Some 30, Some 0, Some 30]" "ds' = [Some 100, Some 30, Some 30]"
    by (simp_all add: clean_ex_def modeling_ex_def)
  ultimately show ?thesis using run_df_ex h1 h2 by blast
qed

text \<open>
  Claim C1 as stated fails on an input that brings its own duration column: the column is
  kept, negative value included.
\<close>

theorem negative_duration_counterexample:
  "feature_engineering env_ex df_preset_ex = Inr (preset_out_ex, preset_out_ex) \<and>
   map_of df_preset_ex ''trial_duration_days'' = Some (NumCol [Some (- 5), Some 30]) \<and>
   map_of preset_out_ex ''trial_duration_days'' = Some (NumCol [Some (- 5), Some 30])"
  using run_df_preset_ex by (simp add: df_preset_ex_def preset_out_ex_def)

subsection \<open>C2: the modeling frame\<close>

text \<open>
  Claim C2, as amended. For an input with an \<open>OverallStatus\<close> column and no
  \<open>completion_status\<close> column, the modeling frame holds exactly the rows of the cleaned
  frame whose status (after mode imputation) is one of Completed, Terminated, Suspended,
  Withdrawn, in their order, and the target is 1 on the rows whose status is Completed and 0
  on the others. For statuses Completed, Terminated, Recruiting it holds the first two rows,
  with target 1, 0. An input that already has a \<open>completion_status\<close> column is not filtered.
\<close>

theorem modeling_rows_definitive:
  assumes "feature_engineering env df = Inr (df_clean, df_modeling)"
    and "has_col df ''OverallStatus''"
    and "\<not> has_col df ''completion_status''"
  shows "(\<exists>s. map_of df_clean ''OverallStatus'' = Some s \<and>
           map_of df_clean ''completion_status'' = Some (astype_int (eq_str s ''Completed'')) \<and>
           df_modeling = filter_rows (isin s completed_statuses) df_clean \<and>
           (\<forall>ss. s = ObjCol ss \<longrightarrow>
              map_of df_modeling ''OverallStatus'' =
                Some (ObjCol (filter (\<lambda>x. x \<in> Some ` set completed_statuses) ss)) \<and>
              map_of df_modeling ''completion_status'' =
                Some (NumCol (map (\<lambda>x. Some (if x = Some ''Completed'' then 1 else 0))
                               (filter (\<lambda>x. x \<in> Some ` set completed_statuses) ss))))) \<and>
         (\<exists>c m. feature_engineering env_ex df_status_ex = Inr (c, m) \<and>
            map_of df_status_ex ''OverallStatus'' =
              Some (ObjCol [Some ''Completed'', Some ''Terminated'', Some ''Recruiting'']) \<and>
            map_of m ''OverallStatus'' = Some (ObjCol [Some ''Completed'', Some ''Terminated'']) \<and>
            map_of m ''completion_status'' = Some (NumCol [Some 1, Some 0]))"
proof -
  from assms(2) obtain c0 where c0: "map_of df ''OverallStatus'' = Some c0"
    by (auto simp: has_col_def)
  from fe_status[OF assms(1) c0 assms(3)] have
    os: "map_of df_clean ''OverallStatus'' = Some (clean_col c0)" and
    cs: "map_of df_clean ''completion_status'' = Some (astype_int (eq_str (clean_col c0) ''Completed''))" and
    m: "df_modeling = filter_rows (isin (clean_col c0) completed_statuses) df_clean" by simp_all
  have "map_of df_modeling ''OverallStatus'' =
          Some (ObjCol (filter (\<lambda>x. x \<in> Some ` set completed_statuses) ss)) \<and>
        map_of df_modeling ''completion_status'' =
          Some (NumCol (map (\<lambda>x. Some (if x = Some ''Completed'' then 1 else 0))
                         (filter (\<lambda>x. x \<in> Some ` set completed_statuses) ss)))"
    if s: "clean_col c0 = ObjCol ss" for ss
  proof -
    have 1: "map_of df_modeling ''OverallStatus'' =
               Some (ObjCol (keep (map (\<lambda>x. x \<in> Some ` set completed_statuses) ss) ss))"
      unfolding m map_of_filter_rows os s isin_obj by simp
    have 2: "map_of df_modeling ''completion_status'' =
               Some (NumCol (keep (map (\<lambda>x. x \<in> Some ` set completed_statuses) ss)
                 (map (\<lambda>x. Some (if x = Some ''Completed'' then 1 else 0)) ss)))"
      unfolding m map_of_filter_rows cs s isin_obj by (simp add: astype_int_def comp_def)
    show ?thesis using 1 2 by (simp add: keep_map_filter keep_map_self)
  qed
  with os cs m have general: "\<exists>s. map_of df_clean ''OverallStatus'' = Some s \<and>
           map_of df_clean ''completion_status'' = Some (astype_int (eq_str s ''Completed'')) \<and>
           df_modeling = filter_rows (isin s completed_statuses) df_clean \<and>
           (\<forall>ss. s = ObjCol ss \<longrightarrow>
              map_of df_modeling ''OverallStatus'' =
                Some (ObjCol (filter (\<lambda>x. x \<in> Some ` set completed_statuses) ss)) \<and>
              map_of df_modeling ''completion_status'' =
                Some (NumCol (map (\<lambda>x. Some (if x = Some ''Completed'' then 1 else 0))
                               (filter (\<lambda>x. x \<in> Some ` set completed_statuses) ss))))"
    by blast
  have "map_of df_status_ex ''OverallStatus'' =
          Some (ObjCol [Some ''Completed'', Some ''Terminated'', Some ''Recruiting''])"
    "map_of status_modeling_ex ''OverallStatus'' = Some (ObjCol [Some ''Completed'', Some ''Terminated''])"
    "map_of status_modeling_ex ''completion_status'' = Some (NumCol [Some 1, Some 0])"
    by (simp_all add: df_status_ex_def status_modeling_ex_def)
  with run_df_status_ex general show ?thesis by blast
qed

theorem modeling_rows_definitive_witness:
  "feature_engineering env_ex df_status_ex = Inr (status_clean_ex, status_modeling_ex) \<and>
   has_col df_status_ex ''OverallStatus'' \<and> \<not> has_col df_status_ex ''completion_status'' \<and>
   map_of df_status_ex ''OverallStatus'' =
     Some (ObjCol [Some ''Completed'', Some ''Terminated'', Some ''Recruiting'']) \<and>
   map_of status_clean_ex ''OverallStatus'' =
     Some (ObjCol [Some ''Completed'', Some ''Terminated'', Some ''Recruiting'']) \<and>
   map_of status_modeling_ex ''OverallStatus'' = Some (ObjCol [Some ''Completed'', Some ''Terminated'']) \<and>
   map_of status_modeling_ex ''completion_status'' = Some (NumCol [Some 1, Some 0])"
proof -
  have h: "has_col df_status_ex ''OverallStatus''" "\<not> has_col df_status_ex ''completion_status''"
    "map_of df_status_ex ''OverallStatus'' =
       Some (ObjCol [Some ''Completed'', Some ''Terminated'', Some ''Recruiting''])"
    by (simp_all add: has_col_def df_status_ex_def)
  from modeling_rows_definitive[OF run_df_status_ex h(1,2), THEN conjunct1] obtain s where
    s: "map_of status_clean_ex ''OverallStatus'' = Some s" and
    r: "\<forall>ss. s = ObjCol ss \<longrightarrow>
        map_of status_modeling_ex ''OverallStatus'' =
          Some (ObjCol (filter (\<lambda>x. x \<in> Some ` set completed_statuses) ss)) \<and>
        map_of status_modeling_ex ''completion_status'' =
          Some (NumCol (map (\<lambda>x. Some (if x = Some ''Completed'' then 1 else 0))
                         (filter (\<lambda>x. x \<in> Some ` set completed_statuses) ss)))" by blast
  from s have s': "s = ObjCol [Some ''Completed'', Some ''Terminated'', Some ''Recruiting'']"
    by (simp add: status_clean_ex_def)
  from r[rule_format, OF s'] have
    "map_of status_modeling_ex ''OverallStatus'' = Some (ObjCol [Some ''Completed'', Some ''Terminated''])"
    "map_of status_modeling_ex ''completion_status'' = Some (NumCol [Some 1, Some 0])"
    by (simp_all add: completed_statuses_def)
  with s s' run_df_status_ex h show ?thesis by simp
qed

text \<open>
  Claim C2 as stated fails on an input that has both an \<open>OverallStatus\<close> and a
  \<open>completion_status\<close> column: the guard of the target cell skips the filter and the
  modeling frame keeps the row whose status is Recruiting.
\<close>

theorem modeling_rows_counterexample:
  "feature_engineering env_ex df_preset_ex = Inr (preset_out_ex, preset_out_ex) \<and>
   has_col df_preset_ex ''OverallStatus'' \<and>
   map_of preset_out_ex ''OverallStatus'' = Some (ObjCol [Some ''Recruiting'', Some ''Completed'']) \<and>
   ''Recruiting'' \<notin> set completed_statuses"
  using run_df_preset_ex
  by (simp add: df_preset_ex_def preset_out_ex_def has_col_def completed_statuses_def)

subsection \<open>C3: text lengths\<close>

text \<open>
  Claim C3, as amended. For a configured text column that is in the input, the
  \<open>_length\<close> feature is the character length of the row's value after the missing-value
  cell has run: a row whose text was missing in an object column got the column's most
  frequent value there and is given that value's length, not 0. The empty string stands in
  only for a value that is still missing when the lengths are taken, which is the case of a
  column with no value at all (read as numeric): then every length is 0.
\<close>

theorem text_length_after_imputation:
  assumes "feature_engineering env df = Inr (df_clean, df_modeling)"
    and "col \<in> set text_columns"
    and "map_of df col = Some c0"
  shows "map_of df_clean (col @ ''_length'') = Some (text_length env (clean_col c0)) \<and>
         (\<forall>xs. c0 = ObjCol xs \<longrightarrow>
            map_of df_clean (col @ ''_length'') =
              Some (NumCol (map (\<lambda>x. Some (of_nat (length
                 (case x of None \<Rightarrow> (case mode_str (non_null xs) of None \<Rightarrow> [] | Some mv \<Rightarrow> mv)
                  | Some s \<Rightarrow> s)))) xs)) \<and>
            (None \<in> set xs \<longrightarrow> mode_str (non_null xs) \<noteq> None)) \<and>
         (\<forall>xs. c0 = NumCol xs \<and> set xs \<subseteq> {None} \<longrightarrow>
            map_of df_clean (col @ ''_length'') = Some (NumCol (map (\<lambda>x. Some 0) xs)))"
proof -
  from fe_text_length[OF assms]
  have v: "map_of df_clean (col @ ''_length'') = Some (text_length env (clean_col c0))" by simp
  have "col \<noteq> ''EnrollmentCount''" using assms(2) by (auto simp: text_columns_def)
  with fe_before_flags[OF assms(1)] assms(3)
  have md: "\<And>xs. c0 = ObjCol xs \<Longrightarrow> None \<in> set xs \<Longrightarrow> mode_str (non_null xs) \<noteq> None"
    by blast
  show ?thesis using v md by (auto simp: text_length_obj text_length_all_missing)
qed

theorem text_length_after_imputation_witness:
  "feature_engineering env_ex df_ex = Inr (clean_ex, modeling_ex) \<and>
   ''BriefTitle'' \<in> set text_columns \<and>
   map_of df_ex ''BriefTitle'' = Some (ObjCol [Some ''abc'', None, Some ''abc'', Some ''zz'']) \<and>
   None \<in> set [Some ''abc'', None, Some ''abc'', Some ''zz''] \<and>
   mode_str (non_null [Some ''abc'', None, Some ''abc'', Some ''zz'']) \<noteq> None \<and>
   map_of clean_ex (''BriefTitle'' @ ''_length'') =
     Some (text_length env_ex (clean_col (ObjCol [Some ''abc'', None, Some ''abc'', Some ''zz''])))"
proof -
  have h: "''BriefTitle'' \<in> set text_columns"
    "map_of df_ex ''BriefTitle'' = Some (ObjCol [Some ''abc'', None, Some ''abc'', Some ''zz''])"
    by (simp_all add: text_columns_def df_ex_def)
  from text_length_after_imputation[OF run_df_ex h] run_df_ex h show ?thesis by simp
qed

text \<open>
  Claim C3 as stated fails: the second title of \<open>df_ex\<close> is missing and its length comes
  out as 3, the length of the most frequent title, not 0.
\<close>

theorem text_length_counterexample:
  "feature_engineering env_ex df_ex = Inr (clean_ex, modeling_ex) \<and>
   map_of df_ex ''BriefTitle'' = Some (ObjCol [Some ''abc'', None, Some ''abc'', Some ''zz'']) \<and>
   map_of clean_ex ''BriefTitle_length'' = Some (NumCol [Some 3, Some 3, Some 3, Some 2])"
  using run_df_ex by (simp add: df_ex_def clean_ex_def)

subsection \<open>C4: the selected model\<close>

text \<open>
  Claim C4. The training notebook is meant to select the candidate with the greatest F1
  (classification) or \<open>R\<^sup>2\<close> (regression), and the first-enumerated one when several
  tie. The two cells that do so do not compile as they are stored: in each of them two
  \<open>print\<close> statements hold a newline character inside the string literal. On every metrics
  frame, and whatever permutation the sort returns, each of the two cells raises
  \<open>SyntaxError\<close> and selects no candidate. (What the two statements of the selection
  compute when they run is in \<open>first_sorted_max\<close> and \<open>first_sorted_tie_ex\<close>: a
  candidate with the greatest metric, and not always the first of those that tie.)
\<close>

theorem selection_cells_raise:
  "filter (\<lambda>line. \<not> ends_outside_literal None line) classification_source =
     [''print(\"'', ''Classification Model Performance:\")'',
      ''print(f\"'', ''Best classification model: {best_classification_model_name}\")''] \<and>
   filter (\<lambda>line. \<not> ends_outside_literal None line) regression_source =
     [''print(\"'', ''Regression Model Performance:\")'',
      ''print(f\"'', ''Best regression model: {best_regression_model_name}\")''] \<and>
   best_classification_model_name np classification_metrics = Inl SyntaxError \<and>
   best_regression_model_name np regression_metrics = Inl SyntaxError"
  by (simp add: classification_source_open regression_source_open
      best_classification_model_name_def best_regression_model_name_def best_model_name_def
      run_cell_def stored_cells_do_not_compile)

subsection \<open>C5: median imputation of numeric columns\<close>

text \<open>
  Claim C5. When the missing-value cell has run, every numeric column of the input holds
  the median of its non-missing values, taken over the whole input frame, in place of each
  missing value, and its other values unchanged; \<open>EnrollmentCount\<close> is first coerced to
  numbers. The cleaned frame holds the column in that state unless a later cell of the same
  run writes a column of that name; a column named as a date is converted to dates from
  that state. In particular a \<open>trial_duration_days\<close> or a \<open>completion_status\<close> column
  of the input is never rewritten and comes out median-imputed. (With no value at all the
  median is \<open>NaN\<close> and the column stays missing.) For enrollment \<open>[10, 20, NaN, 40]\<close>
  the missing entry becomes 20.
\<close>

theorem numeric_median_imputation:
  assumes "feature_engineering env df = Inr (df_clean, df_modeling)"
  shows "\<exists>a. handle_missing env df = Inr a \<and>
           (\<forall>k xs. map_of df k = Some (NumCol xs) \<longrightarrow> map_of a k = Some (NumCol (median_filled xs))) \<and>
           (\<exists>c0 xs. map_of df ''EnrollmentCount'' = Some c0 \<and> to_numeric env c0 = NumCol xs \<and>
              map_of a ''EnrollmentCount'' = Some (NumCol (median_filled xs)) \<and>
              map_of df_clean ''EnrollmentCount'' = Some (NumCol (median_filled xs))) \<and>
           (\<forall>k xs. map_of df k = Some (NumCol xs) \<and> k \<notin> set (written_columns df) \<and>
                    k \<notin> set date_columns \<longrightarrow>
              map_of df_clean k = Some (NumCol (median_filled xs))) \<and>
           (\<forall>k xs. map_of df k = Some (NumCol xs) \<and> k \<in> set date_columns \<longrightarrow>
              map_of df_clean k = Some (to_datetime env (NumCol (median_filled xs)))) \<and>
           (\<forall>xs. map_of df ''trial_duration_days'' = Some (NumCol xs) \<longrightarrow>
              map_of df_clean ''trial_duration_days'' = Some (NumCol (median_filled xs))) \<and>
           (\<forall>xs. map_of df ''completion_status'' = Some (NumCol xs) \<longrightarrow>
              map_of df_clean ''completion_status'' = Some (NumCol (median_filled xs))) \<and>
           median_filled [Some 10, Some 20, None, Some 40] = [Some 10, Some 20, Some 20, Some 40]"
proof -
  have cc: "clean_col (NumCol xs) = NumCol (median_filled xs)" for xs
    by (simp add: clean_col_def fillna_def median_filled_def)
  from fe_stages[OF assms] obtain a where a: "handle_missing env df = Inr a" by blast
  from handle_missing_lookup[OF a] obtain c0 where
    c0: "map_of df ''EnrollmentCount'' = Some c0" and
    la: "\<And>k. map_of a k = (if k = ''EnrollmentCount'' then Some (clean_col (to_numeric env c0))
                              else map_option clean_col (map_of df k))" by blast
  from fe_enrollment[OF assms] c0
  have ec: "map_of df_clean ''EnrollmentCount'' = Some (clean_col (to_numeric env c0))" by auto
  obtain ys where ys: "to_numeric env c0 = NumCol ys" by (cases c0) auto
  have 1: "map_of a k = Some (NumCol (median_filled xs))" if "map_of df k = Some (NumCol xs)" for k xs
  proof (cases "k = ''EnrollmentCount''")
    case True
    with that c0 have "c0 = NumCol xs" by simp
    with la[of k] True show ?thesis by (simp add: cc)
  next
    case False
    with la[of k] that show ?thesis by (simp add: cc)
  qed
  have 2: "\<exists>c0 xs. map_of df ''EnrollmentCount'' = Some c0 \<and> to_numeric env c0 = NumCol xs \<and>
              map_of a ''EnrollmentCount'' = Some (NumCol (median_filled xs)) \<and>
              map_of df_clean ''EnrollmentCount'' = Some (NumCol (median_filled xs))"
    using c0 ys ec la[of "''EnrollmentCount''"] by (simp add: cc)
  have 3: "map_of df_clean k = Some (NumCol (median_filled xs))"
    if "map_of df k = Some (NumCol xs)" "k \<notin> set (written_columns df)" "k \<notin> set date_columns" for k xs
  proof (cases "k = ''EnrollmentCount''")
    case True
    with that(1) c0 have "c0 = NumCol xs" by simp
    with ec True show ?thesis by (simp add: cc)
  next
    case False
    from fe_unwritten[OF assms that(2,3) False] that(1) show ?thesis by (simp add: cc)
  qed
  have 4: "map_of df_clean k = Some (to_datetime env (NumCol (median_filled xs)))"
    if "map_of df k = Some (NumCol xs)" "k \<in> set date_columns" for k xs
    using fe_date_lookup[OF assms that(2)] that(1) by (simp add: cc)
  have 5: "map_of df_clean ''trial_duration_days'' = Some (NumCol (median_filled xs))"
    if "map_of df ''trial_duration_days'' = Some (NumCol xs)" for xs
  proof (rule 3[OF that])
    from that have "has_col df ''trial_duration_days''" by (simp add: has_col_def)
    then show "''trial_duration_days'' \<notin> set (written_columns df)"
      by (simp add: written_columns_iff contains_sources_def phase_flags_def design_flags_def
          country_flags_def text_columns_def)
    show "''trial_duration_days'' \<notin> set date_columns" by (simp add: date_columns_def)
  qed
  have 6: "map_of df_clean ''completion_status'' = Some (NumCol (median_filled xs))"
    if "map_of df ''completion_status'' = Some (NumCol xs)" for xs
  proof (rule 3[OF that])
    from that have "has_col df ''completion_status''" by (simp add: has_col_def)
    then show "''completion_status'' \<notin> set (written_columns df)"
      by (simp add: written_columns_iff contains_sources_def phase_flags_def design_flags_def
          country_flags_def text_columns_def)
    show "''completion_status'' \<notin> set date_columns" by (simp add: date_columns_def)
  qed
  have 7: "median_filled [Some 10, Some 20, None, Some 40] = [Some 10, Some 20, Some 20, Some 40]"
    by (simp add: median_filled_def median_def non_null_def)
  from a 1 2 3 4 5 6 7 show ?thesis by blast
qed

theorem numeric_median_imputation_witness:
  "feature_engineering env_ex df_numeric_ex = Inr (numeric_out_ex, numeric_out_ex) \<and>
   map_of df_numeric_ex ''trial_duration_days'' = Some (NumCol [Some (- 5), None, Some 30, None]) \<and>
   ''trial_duration_days'' \<notin> set (written_columns df_numeric_ex) \<and>
   ''trial_duration_days'' \<notin> set date_columns \<and>
   map_of numeric_out_ex ''trial_duration_days'' =
     Some (NumCol [Some (- 5), Some (25 / 2), Some 30, Some (25 / 2)]) \<and>
   map_of df_numeric_ex ''EnrollmentCount'' = Some (NumCol [Some 10, Some 20, None, Some 40]) \<and>
   map_of numeric_out_ex ''EnrollmentCount'' = Some (NumCol [Some 10, Some 20, Some 20, Some 40])"
proof -
  have h: "map_of df_numeric_ex ''trial_duration_days'' = Some (NumCol [Some (- 5), None, Some 30, None])"
    "''trial_duration_days'' \<notin> set (written_columns df_numeric_ex)"
    "''trial_duration_days'' \<notin> set date_columns"
    "map_of df_numeric_ex ''EnrollmentCount'' = Some (NumCol [Some 10, Some 20, None, Some 40])"
    "''EnrollmentCount'' \<notin> set (written_columns df_numeric_ex)"
    "''EnrollmentCount'' \<notin> set date_columns"
    by code_simp+
  from numeric_median_imputation[OF run_df_numeric_ex] have
    r: "\<forall>k xs. map_of df_numeric_ex k = Some (NumCol xs) \<and> k \<notin> set (written_columns df_numeric_ex) \<and>
                k \<notin> set date_columns \<longrightarrow>
          map_of numeric_out_ex k = Some (NumCol (median_filled xs))"
    and m: "median_filled [Some 10, Some 20, None, Some 40] = [Some 10, Some 20, Some 20, Some 40]"
    by blast+
  from r h(1-3) have "map_of numeric_out_ex ''trial_duration_days'' =
      Some (NumCol (median_filled [Some (- 5), None, Some 30, None]))" by blast
  moreover have "median_filled [Some (- 5), None, Some 30, None] =
      [Some (- 5), Some (25 / 2), Some 30, Some (25 / 2)]" by code_simp
  moreover from r h(4-6) have "map_of numeric_out_ex ''EnrollmentCount'' =
      Some (NumCol (median_filled [Some 10, Some 20, None, Some 40]))" by blast
  ultimately show ?thesis using run_df_numeric_ex h m by simp
qed

subsection \<open>C6: binary indicators\<close>

text \<open>
  Claim C6. Whenever the source column of a derived indicator (industry sponsor, phase 1 to 4,
  randomized, double blind, single blind, open label, multi-country, US sites) is in the
  input, the indicator column of the cleaned frame has one value per row, each 0 or 1,
  also on the rows whose source value was missing; the same holds in the modeling frame.
\<close>

theorem indicators_binary:
  assumes "feature_engineering env df = Inr (df_clean, df_modeling)"
    and "(src, flag) \<in> set indicator_sources"
    and "has_col df src"
  shows "\<exists>s bs bs'.
           map_of df_clean src = Some s \<and>
           map_of df_clean flag = Some (NumCol bs) \<and> length bs = col_len s \<and>
           set bs \<subseteq> {Some 0, Some 1} \<and>
           map_of df_modeling flag = Some (NumCol bs') \<and> set bs' \<subseteq> {Some 0, Some 1}"
proof -
  from assms(3) obtain c0 where c0: "map_of df src = Some c0" by (auto simp: has_col_def)
  have "\<exists>s bs. map_of df_clean src = Some s \<and> map_of df_clean flag = Some (NumCol bs) \<and>
          length bs = col_len s \<and> set bs \<subseteq> {Some 0, Some 1}"
  proof -
    from indicator_sources_cases[OF assms(2)] consider
      (sponsor) "src = ''LeadSponsorClass''" "flag = ''is_industry_sponsored''"
      | (contains) flags pat where "(src, flags) \<in> set contains_sources" "(flag, pat) \<in> set flags"
      by blast
    then show ?thesis
    proof cases
      case sponsor
      from fe_sponsor[OF assms(1) c0[unfolded sponsor(1)]]
      have s: "map_of df_clean src = Some (clean_col c0)"
        and v: "map_of df_clean flag = Some (astype_int (eq_str (clean_col c0) ''INDUSTRY''))"
        by (simp_all add: sponsor)
      from astype_int_binary[of "eq_str (clean_col c0) ''INDUSTRY''"] obtain bs where
        "astype_int (eq_str (clean_col c0) ''INDUSTRY'') = NumCol bs"
        "length bs = length (eq_str (clean_col c0) ''INDUSTRY'')" "set bs \<subseteq> {Some 0, Some 1}"
        by blast
      with s v show ?thesis by simp
    next
      case contains
      from fe_flags[OF assms(1) contains c0] obtain xs where
        s: "map_of df_clean src = Some (ObjCol xs)" and
        v: "map_of df_clean flag = Some (astype_int (map (\<lambda>x. case x of None \<Rightarrow> False
                                                | Some s \<Rightarrow> contains_str pat s) xs))" by blast
      from astype_int_binary[of "map (\<lambda>x. case x of None \<Rightarrow> False | Some s \<Rightarrow> contains_str pat s) xs"]
      obtain bs where
        "astype_int (map (\<lambda>x. case x of None \<Rightarrow> False | Some s \<Rightarrow> contains_str pat s) xs) = NumCol bs"
        "length bs = length xs" "set bs \<subseteq> {Some 0, Some 1}"
        by auto
      with s v show ?thesis by simp
    qed
  qed
  then obtain s bs where s: "map_of df_clean src = Some s"
    and bs: "map_of df_clean flag = Some (NumCol bs)" "length bs = col_len s"
      "set bs \<subseteq> {Some 0, Some 1}" by blast
  from fe_modeling_lookup[OF assms(1) bs(1)] obtain bs' where
    "map_of df_modeling flag = Some (NumCol bs')" "set bs' \<subseteq> set bs" by blast
  with s bs show ?thesis by blast
qed

theorem indicators_binary_witness:
  "feature_engineering env_ex df_ex = Inr (clean_ex, modeling_ex) \<and>
   (''Phase'', ''is_phase_3'') \<in> set indicator_sources \<and> has_col df_ex ''Phase'' \<and>
   map_of df_ex ''Phase'' = Some (ObjCol [Some ''Phase 1/Phase 2'', None, Some ''Phase 3'', Some ''Phase 3'']) \<and>
   (\<exists>bs bs'. map_of clean_ex ''is_phase_3'' = Some (NumCol bs) \<and> set bs \<subseteq> {Some 0, Some 1} \<and>
      map_of modeling_ex ''is_phase_3'' = Some (NumCol bs') \<and> set bs' \<subseteq> {Some 0, Some 1} \<and>
      bs = [Some 0, Some 1, Some 1, Some 1])"
proof -
  have h: "(''Phase'', ''is_phase_3'') \<in> set indicator_sources" "has_col df_ex ''Phase''"
    "map_of df_ex ''Phase'' = Some (ObjCol [Some ''Phase 1/Phase 2'', None, Some ''Phase 3'', Some ''Phase 3''])"
    by (simp_all add: indicator_sources_list has_col_def df_ex_def)
  from indicators_binary[OF run_df_ex h(1,2)] obtain bs bs' where
    b: "map_of clean_ex ''is_phase_3'' = Some (NumCol bs)" "set bs \<subseteq> {Some 0, Some 1}"
      "map_of modeling_ex ''is_phase_3'' = Some (NumCol bs')" "set bs' \<subseteq> {Some 0, Some 1}"
    by blast
  from b(1) have "bs = [Some 0, Some 1, Some 1, Some 1]" by (simp add: clean_ex_def)
  with b run_df_ex h show ?thesis by blast
qed

subsection \<open>C7: when the stage fails\<close>

text \<open>
  Claim C7 does not hold of the code. The directory \<open>dir_nostart_ex\<close> holds one file that
  matches the pattern; its frame has the columns \<open>EnrollmentCount\<close> and
  \<open>CompletionDate\<close> and no \<open>StartDate\<close>. The duration cell is guarded by the presence of
  \<open>CompletionDate\<close> only and then reads \<open>StartDate\<close>: the stage raises a key error although
  a file was found, whatever the conversions of pandas are.
\<close>

theorem stage_aborts_without_start_date:
  "filter (\<lambda>f. glob_match (file_name f)) dir_nostart_ex = dir_nostart_ex \<and>
   map fst df_nostart_ex = [''EnrollmentCount'', ''CompletionDate''] \<and>
   feature_engineering_stage env dir_nostart_ex = Inl (KeyError ''StartDate'')"
  by code_simp

subsection \<open>C8: a second application\<close>

text \<open>
  Claim C8. When the transform has returned the cleaned frame \<open>df_clean\<close>, applying it
  again to \<open>df_clean\<close> succeeds and leaves every column of it with the same values, the
  derived columns among them. The start year, month and quarter are derived again from the
  start date of \<open>df_clean\<close> and come out the same; the duration cell finds the duration
  column (or no completion date) and returns its frame unchanged.
\<close>

theorem second_application_keeps_columns:
  assumes "feature_engineering env df = Inr (df_clean, df_modeling)"
  shows "\<exists>df_clean2 df_modeling2.
           feature_engineering env df_clean = Inr (df_clean2, df_modeling2) \<and>
           (\<forall>k. map_of df_clean2 k = map_of df_clean k) \<and>
           (\<forall>ds. map_of df_clean ''StartDate'' = Some (DateCol ds) \<longrightarrow>
              map_of df_clean2 ''StartDate'' = Some (DateCol ds) \<and>
              map_of df_clean2 ''start_year'' = Some (NumCol (map (map_option dt_year) ds)) \<and>
              map_of df_clean2 ''start_month'' = Some (NumCol (map (map_option dt_month) ds)) \<and>
              map_of df_clean2 ''start_quarter'' = Some (NumCol (map (map_option dt_quarter) ds))) \<and>
           (\<exists>a b1. handle_missing env df_clean = Inr a \<and>
              start_features (convert_dates env a) = Inr b1 \<and> trial_duration b1 = Inr b1)"
proof -
  from second_pass_succeeds[OF assms] obtain c2 m2 where
    r2: "feature_engineering env df_clean = Inr (c2, m2)" by blast
  have 1: "\<forall>k. map_of c2 k = map_of df_clean k"
    using second_pass_lookup[OF assms r2] by blast
  have 2: "map_of c2 ''StartDate'' = Some (DateCol ds) \<and>
           map_of c2 ''start_year'' = Some (NumCol (map (map_option dt_year) ds)) \<and>
           map_of c2 ''start_month'' = Some (NumCol (map (map_option dt_month) ds)) \<and>
           map_of c2 ''start_quarter'' = Some (NumCol (map (map_option dt_quarter) ds))"
    if "map_of df_clean ''StartDate'' = Some (DateCol ds)" for ds
    using fe_start[OF r2 that] by (simp add: clean_col_def)
  from r2 obtain a b1 b where
    a: "handle_missing env df_clean = Inr a" and
    b1: "start_features (convert_dates env a) = Inr b1" and
    b: "trial_duration b1 = Inr b" and
    hdur: "has_col b1 ''trial_duration_days'' = has_col df_clean ''trial_duration_days''" and
    hcd: "has_col b1 ''CompletionDate'' = has_col df_clean ''CompletionDate''"
    by (rule fe_stage_sources)
  have "has_col b1 ''trial_duration_days'' \<or> \<not> has_col b1 ''CompletionDate''"
    using fe_has_duration[OF assms] fe_has_col[OF assms source_not_derived(2)] hdur hcd by simp
  from trial_duration_skip[OF b this] b have "trial_duration b1 = Inr b1" by simp
  with a b1 have 3: "\<exists>a b1. handle_missing env df_clean = Inr a \<and>
      start_features (convert_dates env a) = Inr b1 \<and> trial_duration b1 = Inr b1" by blast
  from r2 1 2 3 show ?thesis by blast
qed

theorem second_application_keeps_columns_witness:
  "feature_engineering env_ex df_ex = Inr (clean_ex, modeling_ex) \<and>
   feature_engineering env_ex clean_ex = Inr (clean_ex, clean_ex) \<and>
   map_of clean_ex ''StartDate'' =
     Some (DateCol [Some 1577836800000000000, Some 1586476800000000000,
                    Some 1577836800000000000, Some 1577836800000000000]) \<and>
   map_of clean_ex ''start_month'' = Some (NumCol [Some 1, Some 4, Some 1, Some 1])"
proof -
  let ?ds = "[Some 1577836800000000000, Some 1586476800000000000,
              Some 1577836800000000000, Some (1577836800000000000 :: int)]"
  have sd: "map_of clean_ex ''StartDate'' = Some (DateCol ?ds)" by (simp add: clean_ex_def)
  from second_application_keeps_columns[OF run_df_ex] obtain c2 m2 where
    r: "feature_engineering env_ex clean_ex = Inr (c2, m2)" and
    s: "\<forall>ds. map_of clean_ex ''StartDate'' = Some (DateCol ds) \<longrightarrow>
          map_of c2 ''StartDate'' = Some (DateCol ds) \<and>
          map_of c2 ''start_year'' = Some (NumCol (map (map_option dt_year) ds)) \<and>
          map_of c2 ''start_month'' = Some (NumCol (map (map_option dt_month) ds)) \<and>
          map_of c2 ''start_quarter'' = Some (NumCol (map (map_option dt_quarter) ds))"
    by blast
  from r run_clean_ex have c2: "c2 = clean_ex" by simp
  from s sd have "map_of c2 ''start_month'' = Some (NumCol (map (map_option dt_month) ?ds))"
    by blast
  moreover have "map (map_option dt_month) ?ds = [Some 1, Some 4, Some 1, Some 1]" by code_simp
  ultimately have "map_of clean_ex ''start_month'' = Some (NumCol [Some 1, Some 4, Some 1, Some 1])"
    by (simp add: c2)
  with run_df_ex run_clean_ex sd show ?thesis by simp
qed

subsection \<open>C9: rows used for training\<close>

text \<open>
  Claim C9 (implicit). The training notebook is meant to narrow the modeling frame: the
  classification matrix to the rows whose status is Completed or Terminated, the regression
  matrix to the rows whose status is Completed. The cell that does so does not compile as it
  is stored: its statement \<open>print\<close> of the class distribution holds a newline character
  inside the string literal, so two of its physical lines end inside a literal. On every
  modeling frame the cell raises \<open>SyntaxError\<close> and assigns neither the feature matrices
  nor the targets. (What its statements compute when they run is in
  \<open>features_targets_rows\<close>: the rows that the claim names.)
\<close>

theorem training_cell_raises:
  "filter (\<lambda>line. \<not> ends_outside_literal None line) features_targets_source =
     [''print(\"'', ''Class distribution for completion status:\")''] \<and>
   prepare_training df_modeling = Inl SyntaxError"
  by (simp add: features_targets_source_open prepare_training_def run_cell_def
      stored_cells_do_not_compile)

subsection \<open>C10: mode imputation comes first\<close>

text \<open>
  Claim C10 (implicit). The missing values of every object column (other than
  \<open>EnrollmentCount\<close>, which is coerced to numbers) are filled with the column's most
  frequent value before any feature is derived, so the date columns, the substring and
  sponsor indicators, the text lengths and the target are all computed from the filled
  column. In particular a row whose status was missing receives the modal status, and it is
  in the modeling frame exactly when that modal status is one of the definitive outcomes.
\<close>

theorem mode_imputation_downstream:
  assumes "feature_engineering env df = Inr (df_clean, df_modeling)"
  shows "(\<forall>k xs. map_of df k = Some (ObjCol xs) \<and> k \<noteq> ''EnrollmentCount'' \<and> None \<in> set xs \<longrightarrow>
            mode_str (non_null xs) \<noteq> None) \<and>
         (\<forall>k xs. map_of df k = Some (ObjCol xs) \<and> k \<in> set date_columns \<longrightarrow>
            map_of df_clean k =
              Some (to_datetime env (ObjCol (fillna (mode_str (non_null xs)) xs)))) \<and>
         (\<forall>src flags flag pat xs.
            (src, flags) \<in> set contains_sources \<and> (flag, pat) \<in> set flags \<and>
            map_of df src = Some (ObjCol xs) \<longrightarrow>
            map_of df_clean flag =
              Some (astype_int (map (\<lambda>x. case x of None \<Rightarrow> False | Some s \<Rightarrow> contains_str pat s)
                                  (fillna (mode_str (non_null xs)) xs)))) \<and>
         (\<forall>xs. map_of df ''LeadSponsorClass'' = Some (ObjCol xs) \<longrightarrow>
            map_of df_clean ''is_industry_sponsored'' =
              Some (astype_int (map (\<lambda>x. x = Some ''INDUSTRY'') (fillna (mode_str (non_null xs)) xs)))) \<and>
         (\<forall>col xs. col \<in> set text_columns \<and> map_of df col = Some (ObjCol xs) \<longrightarrow>
            map_of df_clean (col @ ''_length'') =
              Some (text_length env (ObjCol (fillna (mode_str (non_null xs)) xs)))) \<and>
         (\<forall>xs. map_of df ''OverallStatus'' = Some (ObjCol xs) \<and> \<not> has_col df ''completion_status'' \<longrightarrow>
            map_of df_clean ''OverallStatus'' = Some (ObjCol (fillna (mode_str (non_null xs)) xs)) \<and>
            map_of df_clean ''completion_status'' =
              Some (astype_int (map (\<lambda>x. x = Some ''Completed'') (fillna (mode_str (non_null xs)) xs))) \<and>
            df_modeling =
              filter_rows (map (\<lambda>x. x \<in> Some ` set completed_statuses)
                             (fillna (mode_str (non_null xs)) xs)) df_clean \<and>
            (\<forall>i. i < length xs \<and> xs ! i = None \<longrightarrow>
               (\<exists>mode_value. mode_str (non_null xs) = Some mode_value \<and>
                  fillna (mode_str (non_null xs)) xs ! i = Some mode_value \<and>
                  map (\<lambda>x. x \<in> Some ` set completed_statuses) (fillna (mode_str (non_null xs)) xs) ! i =
                    (mode_value \<in> set completed_statuses))))"
proof (intro conjI allI impI)
  fix k xs
  assume "map_of df k = Some (ObjCol xs) \<and> k \<noteq> ''EnrollmentCount'' \<and> None \<in> set xs"
  with fe_before_flags[OF assms] show "mode_str (non_null xs) \<noteq> None" by blast
next
  fix k xs
  assume "map_of df k = Some (ObjCol xs) \<and> k \<in> set date_columns"
  with fe_date_lookup[OF assms, of k]
  show "map_of df_clean k = Some (to_datetime env (ObjCol (fillna (mode_str (non_null xs)) xs)))"
    by (simp add: clean_obj)
next
  fix src flags flag pat xs
  assume h: "(src, flags) \<in> set contains_sources \<and> (flag, pat) \<in> set flags \<and>
            map_of df src = Some (ObjCol xs)"
  then have g: "(src, flags) \<in> set contains_sources" "(flag, pat) \<in> set flags"
    "map_of df src = Some (ObjCol xs)" by simp_all
  from fe_flags[OF assms g]
  show "map_of df_clean flag =
          Some (astype_int (map (\<lambda>x. case x of None \<Rightarrow> False | Some s \<Rightarrow> contains_str pat s)
                              (fillna (mode_str (non_null xs)) xs)))"
    by (auto simp: clean_obj)
next
  fix xs
  assume "map_of df ''LeadSponsorClass'' = Some (ObjCol xs)"
  from fe_sponsor[OF assms this]
  show "map_of df_clean ''is_industry_sponsored'' =
          Some (astype_int (map (\<lambda>x. x = Some ''INDUSTRY'') (fillna (mode_str (non_null xs)) xs)))"
    by (simp add: clean_obj)
next
  fix col xs
  assume "col \<in> set text_columns \<and> map_of df col = Some (ObjCol xs)"
  then have g: "col \<in> set text_columns" "map_of df col = Some (ObjCol xs)" by simp_all
  from fe_text_length[OF assms g]
  show "map_of df_clean (col @ ''_length'') =
          Some (text_length env (ObjCol (fillna (mode_str (non_null xs)) xs)))"
    by (simp add: clean_obj)
next
  fix xs
  assume h: "map_of df ''OverallStatus'' = Some (ObjCol xs) \<and> \<not> has_col df ''completion_status''"
  then have g: "map_of df ''OverallStatus'' = Some (ObjCol xs)" "\<not> has_col df ''completion_status''"
    by simp_all
  note st = fe_status[OF assms g, unfolded clean_obj isin_obj]
  show "map_of df_clean ''OverallStatus'' = Some (ObjCol (fillna (mode_str (non_null xs)) xs))"
    using st by simp
  show "map_of df_clean ''completion_status'' =
          Some (astype_int (map (\<lambda>x. x = Some ''Completed'') (fillna (mode_str (non_null xs)) xs)))"
    using st by simp
  show "df_modeling =
          filter_rows (map (\<lambda>x. x \<in> Some ` set completed_statuses)
                         (fillna (mode_str (non_null xs)) xs)) df_clean"
    using st by simp
  fix i
  assume i: "i < length xs \<and> xs ! i = None"
  then have "None \<in> set xs" by (metis nth_mem)
  with fe_before_flags[OF assms] g(1) obtain mode_value where
    mv: "mode_str (non_null xs) = Some mode_value" by fastforce
  have "fillna (mode_str (non_null xs)) xs ! i = Some mode_value"
    using fillna_nth_missing[of i xs] i mv by simp
  moreover from this have
    "map (\<lambda>x. x \<in> Some ` set completed_statuses) (fillna (mode_str (non_null xs)) xs) ! i =
       (mode_value \<in> set completed_statuses)"
    using i by auto
  ultimately show "\<exists>mode_value. mode_str (non_null xs) = Some mode_value \<and>
      fillna (mode_str (non_null xs)) xs ! i = Some mode_value \<and>
      map (\<lambda>x. x \<in> Some ` set completed_statuses) (fillna (mode_str (non_null xs)) xs) ! i =
        (mode_value \<in> set completed_statuses)"
    using mv by blast
qed

theorem mode_imputation_downstream_witness:
  "feature_engineering env_ex df_ex = Inr (clean_ex, modeling_ex) \<and>
   map_of df_ex ''OverallStatus'' =
     Some (ObjCol [Some ''Completed'', Some ''Terminated'', Some ''Recruiting'', None]) \<and>
   \<not> has_col df_ex ''completion_status'' \<and>
   (3::nat) < length [Some ''Completed'', Some ''Terminated'', Some ''Recruiting'', None] \<and>
   [Some ''Completed'', Some ''Terminated'', Some ''Recruiting'', None] ! 3 = None \<and>
   mode_str (non_null [Some ''Completed'', Some ''Terminated'', Some ''Recruiting'', None]) = Some ''Completed'' \<and>
   ''Completed'' \<in> set completed_statuses \<and>
   map_of clean_ex ''OverallStatus'' =
     Some (ObjCol [Some ''Completed'', Some ''Terminated'', Some ''Recruiting'', Some ''Completed'']) \<and>
   modeling_ex = filter_rows [True, True, False, True] clean_ex"
proof -
  let ?xs = "[Some ''Completed'', Some ''Terminated'', Some ''Recruiting'', None]"
  have h: "map_of df_ex ''OverallStatus'' = Some (ObjCol ?xs)" "\<not> has_col df_ex ''completion_status''"
    by (simp_all add: df_ex_def has_col_def)
  have md: "mode_str (non_null ?xs) = Some ''Completed''" by code_simp
  have fl: "fillna (Some ''Completed'') ?xs =
              [Some ''Completed'', Some ''Terminated'', Some ''Recruiting'', Some ''Completed'']"
    by (simp add: fillna_def)
  have msk: "map (\<lambda>x. x \<in> Some ` set completed_statuses)
               [Some ''Completed'', Some ''Terminated'', Some ''Recruiting'', Some ''Completed'']
             = [True, True, False, True]"
    by (simp add: completed_statuses_def)
  from mode_imputation_downstream[OF run_df_ex, THEN conjunct2, THEN conjunct2, THEN conjunct2,
      THEN conjunct2, THEN conjunct2, rule_format, of ?xs] h
  have "map_of clean_ex ''OverallStatus'' = Some (ObjCol (fillna (mode_str (non_null ?xs)) ?xs))"
    "modeling_ex = filter_rows (map (\<lambda>x. x \<in> Some ` set completed_statuses)
                                  (fillna (mode_str (non_null ?xs)) ?xs)) clean_ex"
    by blast+
  then have "map_of clean_ex ''OverallStatus'' =
       Some (ObjCol [Some ''Completed'', Some ''Terminated'', Some ''Recruiting'', Some ''Completed''])"
    "modeling_ex = filter_rows [True, True, False, True] clean_ex"
    unfolding md fl msk by simp_all
  moreover have "''Completed'' \<in> set completed_statuses" by (simp add: completed_statuses_def)
  ultimately show ?thesis using run_df_ex h md by simp
qed

end
